theory Spec2Isabelle
  imports Complex_Main "HOL-Library.Sublist" "HOL-Library.Log_Nat"
begin

section \<open>Python values and errors\<close>

text \<open>
  The module under verification is \<^verbatim>\<open>tinynn/converter/operators/torch/base.py\<close>.
  Python integers are unbounded and are modelled as \<^typ>\<open>int\<close>. Every exception the
  source can raise is a value of \<open>py_error\<close>; a function that can raise returns
  \<open>py_error + 'a\<close>, with \<open>Inl\<close> for the exception.
\<close>

datatype py_error =
  IndexError | ZeroDivisionError | AssertionError | ValueError | AttributeError | TypeError
  | OverflowError | RuntimeError

definition bind_err :: "py_error + 'a \<Rightarrow> ('a \<Rightarrow> py_error + 'b) \<Rightarrow> py_error + 'b" where
  "bind_err m f = (case m of Inl e \<Rightarrow> Inl e | Inr x \<Rightarrow> f x)"

text \<open>\<^verbatim>\<open>xs[i]\<close> for an index that a \<^verbatim>\<open>range\<close> produced (never negative).\<close>

definition py_get :: "'a list \<Rightarrow> nat \<Rightarrow> py_error + 'a" where
  "py_get xs i = (if i < length xs then Inr (xs ! i) else Inl IndexError)"

text \<open>A list comprehension whose element expression can raise: the first exception
  ends the comprehension.\<close>

fun comprehension :: "('a \<Rightarrow> py_error + 'b) \<Rightarrow> 'a list \<Rightarrow> py_error + 'b list" where
  "comprehension f [] = Inr []"
| "comprehension f (x # xs) =
     bind_err (f x) (\<lambda>y. bind_err (comprehension f xs) (\<lambda>ys. Inr (y # ys)))"

text \<open>\<^verbatim>\<open>sizes[-n:]\<close>: the last \<open>n\<close> entries; the whole list when \<open>n = 0\<close>
  (the slice \<^verbatim>\<open>sizes[-0:]\<close> is \<^verbatim>\<open>sizes[0:]\<close>) or when \<open>n\<close> exceeds the length.\<close>

definition py_last_slice :: "'a list \<Rightarrow> nat \<Rightarrow> 'a list" where
  "py_last_slice sizes n = (if n = 0 then sizes else drop (length sizes - n) sizes)"

text \<open>\<^verbatim>\<open>int(math.ceil(a / float(t)))\<close> for integers \<open>a\<close> and \<open>t \<noteq> 0\<close>, with the quotient
  taken exactly. The source takes it in binary64: \<open>binary64_ceil_div\<close> below is that
  computation, and the two agree when \<open>a\<close> and \<open>t\<close> are below \<open>2^53\<close> in absolute value
  (\<open>binary64_ceil_div_exact\<close>); beyond that the binary64 quotient can have another
  ceiling, and the size of the operands is bounded wherever a statement depends on the
  value of the quotient.\<close>

definition py_ceil_div :: "int \<Rightarrow> int \<Rightarrow> int" where
  "py_ceil_div a t = \<lceil>real_of_int a / real_of_int t\<rceil>"

section \<open>\<^verbatim>\<open>get_pool_ceil_padding\<close>\<close>

text \<open>
  \<^verbatim>\<open>
  def get_pool_ceil_padding(input, kernel_size, stride, padding):
      sizes = input.shape
      dim = sizes[-len(padding):] if sizes is not None else None
      ceiled_output_dim = [int(math.ceil((dim[i] + 2 * padding[i] - kernel_size[i]) / float(stride[i]))) + 1
                           for i in range(0, len(padding))]
      ceiled_output_dim = [ceiled_output_dim[i] - 1
                           if (((ceiled_output_dim[i] - 1) * stride[i]) >= (dim[i] + padding[i]))
                           else ceiled_output_dim[i]
                           for i in range(0, len(ceiled_output_dim))]
      padding_ceil = [0 if (stride[i] == 1) else
                      (kernel_size[i] - (dim[i] + 2 * padding[i] - ((ceiled_output_dim[i] - 1) * stride[i] + 1)))
                      for i in range(0, len(padding))]
      padding_ceil = [(int(padding_ceil[i]) if padding_ceil[i] < kernel_size[i] - 1 else int(kernel_size[i] - 1))
                      if ((padding_ceil[i] + 2 * padding[i]) >= (kernel_size[i]))
                      else int(padding_ceil[i])
                      for i in range(0, len(padding_ceil))]
      return padding_ceil
  \<close>
  The model takes \<open>input.shape\<close> as the list \<open>sizes\<close>. Each of the four comprehensions is
  one definition; the subscripts are evaluated in the source's order.
\<close>

definition ceiled_output_dim_first ::
  "int list \<Rightarrow> int list \<Rightarrow> int list \<Rightarrow> int list \<Rightarrow> py_error + int list" where
  "ceiled_output_dim_first dims kernel_size stride padding =
     comprehension (\<lambda>i.
       bind_err (py_get dims i) (\<lambda>d.
       bind_err (py_get padding i) (\<lambda>p.
       bind_err (py_get kernel_size i) (\<lambda>k.
       bind_err (py_get stride i) (\<lambda>t.
         if t = 0 then Inl ZeroDivisionError
         else Inr (py_ceil_div (d + 2 * p - k) t + 1))))))
     [0..<length padding]"

definition ceiled_output_dim_inside ::
  "int list \<Rightarrow> int list \<Rightarrow> int list \<Rightarrow> int list \<Rightarrow> py_error + int list" where
  "ceiled_output_dim_inside ceiled_output_dim dims stride padding =
     comprehension (\<lambda>i.
       bind_err (py_get ceiled_output_dim i) (\<lambda>c.
       bind_err (py_get stride i) (\<lambda>t.
       bind_err (py_get dims i) (\<lambda>d.
       bind_err (py_get padding i) (\<lambda>p.
         Inr (if (c - 1) * t \<ge> d + p then c - 1 else c))))))
     [0..<length ceiled_output_dim]"

definition padding_ceil_first ::
  "int list \<Rightarrow> int list \<Rightarrow> int list \<Rightarrow> int list \<Rightarrow> int list \<Rightarrow> py_error + int list" where
  "padding_ceil_first ceiled_output_dim dims kernel_size stride padding =
     comprehension (\<lambda>i.
       bind_err (py_get stride i) (\<lambda>t.
         if t = 1 then Inr 0
         else
           bind_err (py_get kernel_size i) (\<lambda>k.
           bind_err (py_get dims i) (\<lambda>d.
           bind_err (py_get padding i) (\<lambda>p.
           bind_err (py_get ceiled_output_dim i) (\<lambda>c.
             Inr (k - (d + 2 * p - ((c - 1) * t + 1)))))))))
     [0..<length padding]"

definition padding_ceil_clamped ::
  "int list \<Rightarrow> int list \<Rightarrow> int list \<Rightarrow> py_error + int list" where
  "padding_ceil_clamped padding_ceil kernel_size padding =
     comprehension (\<lambda>i.
       bind_err (py_get padding_ceil i) (\<lambda>e.
       bind_err (py_get padding i) (\<lambda>p.
       bind_err (py_get kernel_size i) (\<lambda>k.
         Inr (if e + 2 * p \<ge> k then (if e < k - 1 then e else k - 1) else e)))))
     [0..<length padding_ceil]"

definition get_pool_ceil_padding ::
  "int list \<Rightarrow> int list \<Rightarrow> int list \<Rightarrow> int list \<Rightarrow> py_error + int list" where
  "get_pool_ceil_padding sizes kernel_size stride padding =
     (let dims = py_last_slice sizes (length padding) in
      bind_err (ceiled_output_dim_first dims kernel_size stride padding) (\<lambda>c0.
      bind_err (ceiled_output_dim_inside c0 dims stride padding) (\<lambda>c1.
      bind_err (padding_ceil_first c1 dims kernel_size stride padding) (\<lambda>e0.
        padding_ceil_clamped e0 kernel_size padding))))"

subsection \<open>The per-dimension functions the specification is compared with\<close>

text \<open>The output size after the "last window starts inside" adjustment, and the extra
  padding, for one spatial dimension of size \<open>s\<close>, kernel \<open>k\<close>, stride \<open>t\<close>, padding \<open>p\<close>,
  with the output size rounded up as the source does.\<close>

definition ceil_out :: "int \<Rightarrow> int \<Rightarrow> int \<Rightarrow> int \<Rightarrow> int" where
  "ceil_out s k t p =
     (let out = \<lceil>real_of_int (s + 2 * p - k) / real_of_int t\<rceil> + 1
      in if (out - 1) * t \<ge> s + p then out - 1 else out)"

definition ceil_extra :: "int \<Rightarrow> int \<Rightarrow> int \<Rightarrow> int \<Rightarrow> int" where
  "ceil_extra s k t p =
     (let extra = (if t = 1 then 0 else k - (s + 2 * p - ((ceil_out s k t p - 1) * t + 1)))
      in if extra + 2 * p \<ge> k then min extra (k - 1) else extra)"

text \<open>The specification's wording of the same algorithm: the output size is
  \<open>floor((s + 2p - k)/t) + 1\<close>.\<close>

definition spec_floor_out :: "int \<Rightarrow> int \<Rightarrow> int \<Rightarrow> int \<Rightarrow> int" where
  "spec_floor_out s k t p =
     (let out = \<lfloor>real_of_int (s + 2 * p - k) / real_of_int t\<rfloor> + 1
      in if (out - 1) * t \<ge> s + p then out - 1 else out)"

definition spec_floor_extra :: "int \<Rightarrow> int \<Rightarrow> int \<Rightarrow> int \<Rightarrow> int" where
  "spec_floor_extra s k t p =
     (let extra = (if t = 1 then 0 else k - (s + 2 * p - ((spec_floor_out s k t p - 1) * t + 1)))
      in if extra + 2 * p \<ge> k then min extra (k - 1) else extra)"

section \<open>Floating-point numbers\<close>

text \<open>
  A Python float is a binary64 number and an element of a float32 tensor a binary32
  number. A finite number other than zero is the rational it denotes; the two zeros
  (\<open>Finite 0\<close> is \<open>+0\<close>), the two infinities and NaN are values of their own. Every
  operation rounds the exact result as the hardware does: to the nearest number of the
  format, a tie to the one with an even significand. The sign and the payload of a NaN
  are not kept.
\<close>

datatype fval = Finite rat | NegZero | PosInf | NegInf | NaN

definition pow2 :: "int \<Rightarrow> rat" where
  "pow2 e = (if 0 \<le> e then 2 ^ nat e else 1 / 2 ^ nat (- e))"

text \<open>\<open>floor(log2 q)\<close> of a positive rational, from the bit lengths of its numerator and
  denominator.\<close>

definition flog2 :: "rat \<Rightarrow> int" where
  "flog2 q =
     (case quotient_of q of (n, d) \<Rightarrow>
        let e = bitlen n - bitlen d in if pow2 e \<le> q then e else e - 1)"

text \<open>The nearest integer, a tie going to the even one.\<close>

definition round_half_even :: "rat \<Rightarrow> int" where
  "round_half_even q =
     (let f = \<lfloor>q\<rfloor>; r = q - of_int f
      in if r < 1 / 2 then f else if r > 1 / 2 then f + 1 else if even f then f else f + 1)"

text \<open>Rounding a rational to the format with \<open>p\<close> significand bits and exponents from
  \<open>emin\<close> to \<open>emax\<close>: below \<open>2^emin\<close> the spacing stays that of the subnormal numbers; a
  result of \<open>2^(emax+1)\<close> or more is an infinity; a result of zero keeps the sign.\<close>

definition round_format :: "int \<Rightarrow> int \<Rightarrow> int \<Rightarrow> rat \<Rightarrow> fval" where
  "round_format p emin emax q =
     (if q = 0 then Finite 0
      else
        let a = \<bar>q\<bar>;
            e = max (flog2 a) emin;
            ulp = pow2 (e - (p - 1));
            r = of_int (round_half_even (a / ulp)) * ulp
        in if pow2 (emax + 1) \<le> r then (if 0 < q then PosInf else NegInf)
           else if r = 0 then (if 0 < q then Finite 0 else NegZero)
           else Finite (if 0 < q then r else - r))"

definition round64 :: "rat \<Rightarrow> fval" where
  "round64 = round_format 53 (- 1022) 1023"

definition round32 :: "rat \<Rightarrow> fval" where
  "round32 = round_format 24 (- 126) 127"

fun is_zero :: "fval \<Rightarrow> bool" where
  "is_zero (Finite q) = (q = 0)"
| "is_zero NegZero = True"
| "is_zero x = False"

fun is_inf :: "fval \<Rightarrow> bool" where
  "is_inf PosInf = True"
| "is_inf NegInf = True"
| "is_inf x = False"

fun sign_bit :: "fval \<Rightarrow> bool" where
  "sign_bit (Finite q) = (q < 0)"
| "sign_bit NegZero = True"
| "sign_bit NegInf = True"
| "sign_bit x = False"

fun fvalue :: "fval \<Rightarrow> rat" where
  "fvalue (Finite q) = q"
| "fvalue x = 0"

definition zero_of :: "bool \<Rightarrow> fval" where
  "zero_of negative = (if negative then NegZero else Finite 0)"

definition inf_of :: "bool \<Rightarrow> fval" where
  "inf_of negative = (if negative then NegInf else PosInf)"

text \<open>Product, quotient and sum, rounded by \<open>rnd\<close>. A quotient by zero is an infinity
  (or NaN for \<open>0/0\<close>): the languages that raise instead test the divisor first.\<close>

definition ieee_mul :: "(rat \<Rightarrow> fval) \<Rightarrow> fval \<Rightarrow> fval \<Rightarrow> fval" where
  "ieee_mul rnd x y =
     (if x = NaN \<or> y = NaN then NaN
      else if (is_inf x \<and> is_zero y) \<or> (is_zero x \<and> is_inf y) then NaN
      else if is_inf x \<or> is_inf y then inf_of (sign_bit x \<noteq> sign_bit y)
      else if is_zero x \<or> is_zero y then zero_of (sign_bit x \<noteq> sign_bit y)
      else rnd (fvalue x * fvalue y))"

definition ieee_div :: "(rat \<Rightarrow> fval) \<Rightarrow> fval \<Rightarrow> fval \<Rightarrow> fval" where
  "ieee_div rnd x y =
     (if x = NaN \<or> y = NaN then NaN
      else if (is_inf x \<and> is_inf y) \<or> (is_zero x \<and> is_zero y) then NaN
      else if is_inf x \<or> is_zero y then inf_of (sign_bit x \<noteq> sign_bit y)
      else if is_zero x \<or> is_inf y then zero_of (sign_bit x \<noteq> sign_bit y)
      else rnd (fvalue x / fvalue y))"

definition ieee_add :: "(rat \<Rightarrow> fval) \<Rightarrow> fval \<Rightarrow> fval \<Rightarrow> fval" where
  "ieee_add rnd x y =
     (if x = NaN \<or> y = NaN then NaN
      else if is_inf x \<and> is_inf y then (if x = y then x else NaN)
      else if is_inf x then x
      else if is_inf y then y
      else if is_zero x \<and> is_zero y then zero_of (sign_bit x \<and> sign_bit y)
      else if fvalue x + fvalue y = 0 then Finite 0
      else rnd (fvalue x + fvalue y))"

fun fneg :: "fval \<Rightarrow> fval" where
  "fneg (Finite q) = (if q = 0 then NegZero else Finite (- q))"
| "fneg NegZero = Finite 0"
| "fneg PosInf = NegInf"
| "fneg NegInf = PosInf"
| "fneg NaN = NaN"

text \<open>The comparisons \<open><\<close> and \<open>\<le>\<close>: false when an operand is NaN; the two zeros are
  equal.\<close>

fun flt :: "fval \<Rightarrow> fval \<Rightarrow> bool" where
  "flt NaN y = False"
| "flt x NaN = False"
| "flt PosInf y = False"
| "flt x NegInf = False"
| "flt NegInf y = True"
| "flt x PosInf = True"
| "flt x y = (fvalue x < fvalue y)"

fun fle :: "fval \<Rightarrow> fval \<Rightarrow> bool" where
  "fle NaN y = False"
| "fle x NaN = False"
| "fle NegInf y = True"
| "fle x PosInf = True"
| "fle PosInf y = False"
| "fle x NegInf = False"
| "fle x y = (fvalue x \<le> fvalue y)"

text \<open>A binary64 number converted to binary32, as \<^verbatim>\<open>np.float32(val)\<close> and the tensor
  library do with a Python float.\<close>

fun conv32 :: "fval \<Rightarrow> fval" where
  "conv32 (Finite q) = round32 q"
| "conv32 x = x"

subsection \<open>Python floats\<close>

text \<open>\<^verbatim>\<open>x * y\<close> and \<^verbatim>\<open>x / y\<close> on Python floats; dividing by a zero raises
  \<^verbatim>\<open>ZeroDivisionError\<close>.\<close>

definition fmul64 :: "fval \<Rightarrow> fval \<Rightarrow> fval" where
  "fmul64 x y = ieee_mul round64 x y"

definition fdiv64 :: "fval \<Rightarrow> fval \<Rightarrow> py_error + fval" where
  "fdiv64 x y = (if is_zero y then Inl ZeroDivisionError else Inr (ieee_div round64 x y))"

text \<open>\<^verbatim>\<open>float(n)\<close> of a Python integer, which is also how \<^verbatim>\<open>n / x\<close> converts an integer
  operand: the nearest binary64 number, \<^verbatim>\<open>OverflowError\<close> when that is an infinity.\<close>

definition py_float :: "int \<Rightarrow> py_error + fval" where
  "py_float n =
     (case round64 (of_int n) of
        PosInf \<Rightarrow> Inl OverflowError
      | NegInf \<Rightarrow> Inl OverflowError
      | x \<Rightarrow> Inr x)"

text \<open>\<^verbatim>\<open>math.ceil(x)\<close> of a Python float.\<close>

fun math_ceil :: "fval \<Rightarrow> py_error + int" where
  "math_ceil (Finite q) = Inr \<lceil>q\<rceil>"
| "math_ceil NegZero = Inr 0"
| "math_ceil PosInf = Inl OverflowError"
| "math_ceil NegInf = Inl OverflowError"
| "math_ceil NaN = Inl ValueError"

text \<open>\<^verbatim>\<open>int(math.ceil(a / float(t)))\<close> as the interpreter evaluates it: \<^verbatim>\<open>float(t)\<close>, the
  conversion of \<open>a\<close>, the binary64 quotient, its ceiling.\<close>

definition binary64_ceil_div :: "int \<Rightarrow> int \<Rightarrow> py_error + int" where
  "binary64_ceil_div a t =
     bind_err (py_float t) (\<lambda>tf.
     bind_err (py_float a) (\<lambda>af.
     bind_err (fdiv64 af tf) math_ceil))"

section \<open>Python subscripts and strings\<close>

text \<open>A subscript \<open>i\<close> is accepted by a list of length \<open>n\<close> when \<open>-n \<le> i < n\<close>; a
  negative one counts from the end.\<close>

definition valid_index :: "'a list \<Rightarrow> int \<Rightarrow> bool" where
  "valid_index xs i = (- int (length xs) \<le> i \<and> i < int (length xs))"

definition py_pos :: "'a list \<Rightarrow> int \<Rightarrow> nat" where
  "py_pos xs i = nat (if i < 0 then int (length xs) + i else i)"

text \<open>\<^verbatim>\<open>xs[i]\<close> and \<^verbatim>\<open>xs[i] = v\<close> for any integer \<open>i\<close>.\<close>

definition py_index :: "'a list \<Rightarrow> int \<Rightarrow> py_error + 'a" where
  "py_index xs i = (if valid_index xs i then Inr (xs ! py_pos xs i) else Inl IndexError)"

definition py_setitem :: "'a list \<Rightarrow> int \<Rightarrow> 'a \<Rightarrow> py_error + 'a list" where
  "py_setitem xs i v = (if valid_index xs i then Inr (xs[py_pos xs i := v]) else Inl IndexError)"

text \<open>\<^verbatim>\<open>xs.insert(i, v)\<close>: never raises; an index beyond either end is clipped.\<close>

definition py_insert :: "'a list \<Rightarrow> int \<Rightarrow> 'a \<Rightarrow> 'a list" where
  "py_insert xs i v =
     (let j = nat (if i < 0 then max 0 (int (length xs) + i) else min (int (length xs)) i)
      in take j xs @ [v] @ drop j xs)"

text \<open>The decimal digits of a counter, as an f-string prints them.\<close>

fun digit_char :: "nat \<Rightarrow> char" where
  "digit_char n = char_of (48 + n)"

fun str_of_nat :: "nat \<Rightarrow> string" where
  "str_of_nat n = (if n < 10 then [digit_char n] else str_of_nat (n div 10) @ [digit_char (n mod 10)])"

declare str_of_nat.simps [simp del]

section \<open>Tensors and target operators\<close>

text \<open>
  The target IR (\<^verbatim>\<open>tfl.Tensor\<close>, \<^verbatim>\<open>tfl.FakeQuantTensor\<close> and the operator classes of
  \<^verbatim>\<open>from .. import tfl\<close>) is not part of the file; the source only constructs its objects
  and reads their attributes. Array values are kept as the expression that built them:
  the claims depend on which constants the source puts into the graph, never on the
  numbers in a traced tensor.
\<close>

datatype dtype = Float32 | Int32 | UInt8 | Int8

datatype ndarray =
    Traced "int list" dtype string
  | IntArray "int list"
  | IntArray2 "int list list"
  | FloatArray "rat list"
  | Zeros nat dtype
  | FakeQuantTensor ndarray rat int
  | AsType ndarray dtype
  | Transposed ndarray "int list"
  | Padded ndarray "int list list" "rat option"

text \<open>\<^verbatim>\<open>np.finfo(np.float32).min\<close>, which is \<open>-(2 - 2^-23) * 2^127\<close>.\<close>

definition float32_min :: rat where
  "float32_min = - 340282346638528859811704183484516925440"

fun arr_shape :: "ndarray \<Rightarrow> int list" where
  "arr_shape (Traced sh d c) = sh"
| "arr_shape (IntArray xs) = [int (length xs)]"
| "arr_shape (IntArray2 xss) = [int (length xss), (case xss of [] \<Rightarrow> 0 | xs # _ \<Rightarrow> int (length xs))]"
| "arr_shape (FloatArray xs) = [int (length xs)]"
| "arr_shape (Zeros n d) = [int n]"
| "arr_shape (FakeQuantTensor a s z) = arr_shape a"
| "arr_shape (AsType a d) = arr_shape a"
| "arr_shape (Transposed a perm) = map (\<lambda>i. arr_shape a ! nat i) perm"
| "arr_shape (Padded a pad fill) = map (\<lambda>(n, w). n + sum_list w) (zip (arr_shape a) pad)"

fun arr_dtype :: "ndarray \<Rightarrow> dtype" where
  "arr_dtype (Traced sh d c) = d"
| "arr_dtype (IntArray xs) = Int32"
| "arr_dtype (IntArray2 xss) = Int32"
| "arr_dtype (FloatArray xs) = Float32"
| "arr_dtype (Zeros n d) = d"
| "arr_dtype (FakeQuantTensor a s z) = arr_dtype a"
| "arr_dtype (AsType a d) = d"
| "arr_dtype (Transposed a perm) = arr_dtype a"
| "arr_dtype (Padded a pad fill) = arr_dtype a"

record quantization =
  scale :: rat
  zero_point :: int

text \<open>Modelled from the spec: the class \<^verbatim>\<open>tfl.Tensor\<close> is missing from the sources. A
  TensorBinding has a name, an ownership flag \<open>has_buffer\<close>, an optional quantization
  record, a shape and a dtype; the source also reads the array it was built from
  (\<^verbatim>\<open>.tensor\<close>). Scales are carried around only, as rationals.\<close>

record tensor =
  name :: string
  has_buffer :: bool
  quantization :: "quantization option"
  shape :: "int list"
  dtype :: dtype
  tensor :: ndarray

text \<open>Modelled from the spec: the constructor \<^verbatim>\<open>tfl.Tensor(tensor, name, has_buffer,
  quantization)\<close> is missing from the sources. It stores its arguments; shape and dtype are
  those of the array; a fake-quantized constant brings its own quantization.\<close>

definition Tensor :: "ndarray \<Rightarrow> string \<Rightarrow> bool \<Rightarrow> quantization option \<Rightarrow> tensor" where
  "Tensor a n b q =
     \<lparr>name = n, has_buffer = b,
      quantization = (case a of FakeQuantTensor _ s z \<Rightarrow> Some \<lparr>scale = s, zero_point = z\<rparr> | _ \<Rightarrow> q),
      shape = arr_shape a, dtype = arr_dtype a, tensor = a\<rparr>"

record pool_params =
  filterHeight :: int
  filterWidth :: int
  strideH :: int
  strideW :: int

text \<open>Modelled from the spec: the operator classes are missing from the sources. A target
  op has ordered inputs, ordered outputs and op-specific parameters; the variants are the
  ones the source constructs or tests for, a windowed op other than max-pooling, and any
  other op.\<close>

datatype op_kind =
    ReshapeOperator "int list"
  | TransposeOperator
  | PadOperator
  | Padv2Operator
  | DequantizeOperator
  | QuantizeOperator
  | MaxPool2dOperator pool_params
  | WindowedOperator string pool_params
  | OtherOperator string

record operator =
  kind :: op_kind
  inputs :: "tensor list"
  outputs :: "tensor list"

fun pool_params_of :: "op_kind \<Rightarrow> py_error + pool_params" where
  "pool_params_of (MaxPool2dOperator pp) = Inr pp"
| "pool_params_of (WindowedOperator n pp) = Inr pp"
| "pool_params_of k = Inl AttributeError"

section \<open>The converter and its unique names\<close>

text \<open>
  \<^verbatim>\<open>
  class OperatorConverter(ABC):
      def __init__(self, node, tensor_map, asymmetric=True) -> None:
          self.input_names = self.get_input_names(node)
          self.output_names = self.get_output_names(node)
          self.input_tensors = self.get_input_tensors(tensor_map)
          self.output_tensors = []
          self.output_nodes = []
          self.ops = []
          self.attr_count = 0
          self.transform_count = 0
          self.asymmetric = asymmetric
  \<close>
  A method that changes \<open>self\<close> returns the new converter next to its result.
\<close>

record converter =
  input_names :: "string list"
  output_names :: "string list"
  input_tensors :: "ndarray list"
  output_tensors :: "ndarray list"
  attr_count :: nat
  transform_count :: nat
  asymmetric :: bool

text \<open>
  \<^verbatim>\<open>
  def get_unique_attr_name(self):
      if self.attr_count == 0:
          name = self.output_names[0] + '_attr'
      else:
          name = self.output_names[0] + f'_attr_{self.attr_count}'
      self.attr_count += 1
      return name
  \<close>
  and the same with \<^verbatim>\<open>transform\<close>.
\<close>

definition get_unique_attr_name :: "converter \<Rightarrow> py_error + (string \<times> converter)" where
  "get_unique_attr_name self =
     bind_err (py_index (output_names self) 0) (\<lambda>n0.
       let name = (if attr_count self = 0 then n0 @ ''_attr''
                   else n0 @ ''_attr_'' @ str_of_nat (attr_count self))
       in Inr (name, self\<lparr>attr_count := attr_count self + 1\<rparr>))"

definition get_unique_transform_name :: "converter \<Rightarrow> py_error + (string \<times> converter)" where
  "get_unique_transform_name self =
     bind_err (py_index (output_names self) 0) (\<lambda>n0.
       let name = (if transform_count self = 0 then n0 @ ''_transform''
                   else n0 @ ''_transform_'' @ str_of_nat (transform_count self))
       in Inr (name, self\<lparr>transform_count := transform_count self + 1\<rparr>))"

text \<open>
  \<^verbatim>\<open>
  def create_transform_tensor(self, tensor, name=None, quantization=None):
      if name is None:
          name = self.get_unique_transform_name()
      return tfl.Tensor(tensor, name, has_buffer=False, quantization=quantization, asymmetric=self.asymmetric)

  def create_attr_tensor(self, tensor, name=None):
      if name is None:
          name = self.get_unique_attr_name()
      return tfl.Tensor(tensor, name, has_buffer=True, asymmetric=self.asymmetric)
  \<close>
  Every call in the file leaves \<open>name\<close> at its default.
\<close>

definition create_transform_tensor ::
  "converter \<Rightarrow> ndarray \<Rightarrow> quantization option \<Rightarrow> py_error + (tensor \<times> converter)" where
  "create_transform_tensor self a q =
     bind_err (get_unique_transform_name self) (\<lambda>(n, self').
       Inr (Tensor a n False q, self'))"

definition create_attr_tensor :: "converter \<Rightarrow> ndarray \<Rightarrow> py_error + (tensor \<times> converter)" where
  "create_attr_tensor self a =
     bind_err (get_unique_attr_name self) (\<lambda>(n, self').
       Inr (Tensor a n True None, self'))"

section \<open>Wrapping a sequence of ops\<close>

text \<open>The two in-place assignments \<^verbatim>\<open>ops[i].inputs[idx] = t\<close> and
  \<^verbatim>\<open>ops[i].outputs[idx] = t\<close>. The ops of the list are separate objects; when the list has
  one op, \<^verbatim>\<open>ops[0]\<close> and \<^verbatim>\<open>ops[-1]\<close> are the same entry and both assignments reach it.\<close>

definition set_op_input :: "operator list \<Rightarrow> int \<Rightarrow> int \<Rightarrow> tensor \<Rightarrow> py_error + operator list" where
  "set_op_input ops i idx t =
     bind_err (py_index ops i) (\<lambda>op.
     bind_err (py_setitem (inputs op) idx t) (\<lambda>ins.
       py_setitem ops i (op\<lparr>inputs := ins\<rparr>)))"

definition set_op_output :: "operator list \<Rightarrow> int \<Rightarrow> int \<Rightarrow> tensor \<Rightarrow> py_error + operator list" where
  "set_op_output ops i idx t =
     bind_err (py_index ops i) (\<lambda>op.
     bind_err (py_setitem (outputs op) idx t) (\<lambda>outs.
       py_setitem ops i (op\<lparr>outputs := outs\<rparr>)))"

text \<open>The boundary tensors \<^verbatim>\<open>ops[0].inputs[input_idx]\<close> and \<^verbatim>\<open>ops[-1].outputs[output_idx]\<close>.\<close>

definition boundary_input :: "operator list \<Rightarrow> int \<Rightarrow> py_error + tensor" where
  "boundary_input ops input_idx = bind_err (py_index ops 0) (\<lambda>op. py_index (inputs op) input_idx)"

definition boundary_output :: "operator list \<Rightarrow> int \<Rightarrow> py_error + tensor" where
  "boundary_output ops output_idx = bind_err (py_index ops (- 1)) (\<lambda>op. py_index (outputs op) output_idx)"

text \<open>
  \<^verbatim>\<open>
  def wrap_ops_with_dequant_quants(self, ops, input_idx=0, output_idx=0):
      orig_input = ops[0].inputs[input_idx]
      orig_output = ops[-1].outputs[output_idx]

      new_input = self.create_transform_tensor(orig_input.tensor.astype('float32'))
      new_output = self.create_transform_tensor(orig_output.tensor.astype('float32'))

      dequant_op = tfl.DequantizeOperator([orig_input], [new_input])
      quant_op = tfl.QuantizeOperator([new_output], [orig_output])

      ops[0].inputs[input_idx] = new_input
      ops[-1].outputs[output_idx] = new_output

      return [dequant_op] + ops + [quant_op]
  \<close>
\<close>

definition wrap_ops_with_dequant_quants ::
  "converter \<Rightarrow> operator list \<Rightarrow> int \<Rightarrow> int \<Rightarrow> py_error + (operator list \<times> converter)" where
  "wrap_ops_with_dequant_quants self ops input_idx output_idx =
     bind_err (boundary_input ops input_idx) (\<lambda>orig_input.
     bind_err (boundary_output ops output_idx) (\<lambda>orig_output.
     bind_err (create_transform_tensor self (AsType (tensor orig_input) Float32) None) (\<lambda>(new_input, self1).
     bind_err (create_transform_tensor self1 (AsType (tensor orig_output) Float32) None) (\<lambda>(new_output, self2).
       let dequant_op = \<lparr>kind = DequantizeOperator, inputs = [orig_input], outputs = [new_input]\<rparr>;
           quant_op = \<lparr>kind = QuantizeOperator, inputs = [new_output], outputs = [orig_output]\<rparr>
       in
     bind_err (set_op_input ops 0 input_idx new_input) (\<lambda>ops1.
     bind_err (set_op_output ops1 (- 1) output_idx new_output) (\<lambda>ops2.
       Inr ([dequant_op] @ ops2 @ [quant_op], self2)))))))"

text \<open>\<^verbatim>\<open>np.transpose(a, perm)\<close> raises \<^verbatim>\<open>ValueError\<close> unless \<open>perm\<close> has one entry per axis.\<close>

definition np_transpose :: "ndarray \<Rightarrow> int list \<Rightarrow> py_error + ndarray" where
  "np_transpose a perm =
     (if length perm = length (arr_shape a) then Inr (Transposed a perm) else Inl ValueError)"

text \<open>
  \<^verbatim>\<open>
  def wrap_ops_with_nhwc_nchw_transposes(self, ops, input_idx=0, output_idx=0):
      orig_input = ops[0].inputs[input_idx]
      orig_output = ops[-1].outputs[output_idx]

      nhwc2nchw_perm = np.array([0, 3, 1, 2], dtype='int32')
      nchw2nhwc_perm = np.array([0, 2, 3, 1], dtype='int32')

      nhwc2nchw_perm_tensor = self.create_attr_tensor(nhwc2nchw_perm)
      nchw2nhwc_perm_tensor = self.create_attr_tensor(nchw2nhwc_perm)

      new_input = self.create_transform_tensor(np.transpose(
          orig_input.tensor, nchw2nhwc_perm), quantization=orig_input.quantization)
      new_output = self.create_transform_tensor(np.transpose(
          orig_output.tensor, nchw2nhwc_perm), quantization=orig_output.quantization)

      nchw2nhwc_transpose = tfl.TransposeOperator([orig_input, nchw2nhwc_perm_tensor], [new_input])
      nhwc2nchw_transpose = tfl.TransposeOperator([new_output, nhwc2nchw_perm_tensor], [orig_output])

      ops[0].inputs[input_idx] = new_input
      ops[-1].outputs[output_idx] = new_output

      return [nchw2nhwc_transpose] + ops + [nhwc2nchw_transpose]
  \<close>
\<close>

definition nhwc2nchw_perm :: "int list" where
  "nhwc2nchw_perm = [0, 3, 1, 2]"

definition nchw2nhwc_perm :: "int list" where
  "nchw2nhwc_perm = [0, 2, 3, 1]"

definition wrap_ops_with_nhwc_nchw_transposes ::
  "converter \<Rightarrow> operator list \<Rightarrow> int \<Rightarrow> int \<Rightarrow> py_error + (operator list \<times> converter)" where
  "wrap_ops_with_nhwc_nchw_transposes self ops input_idx output_idx =
     bind_err (boundary_input ops input_idx) (\<lambda>orig_input.
     bind_err (boundary_output ops output_idx) (\<lambda>orig_output.
     bind_err (create_attr_tensor self (IntArray nhwc2nchw_perm)) (\<lambda>(nhwc2nchw_perm_tensor, self1).
     bind_err (create_attr_tensor self1 (IntArray nchw2nhwc_perm)) (\<lambda>(nchw2nhwc_perm_tensor, self2).
     bind_err (np_transpose (tensor orig_input) nchw2nhwc_perm) (\<lambda>a_in.
     bind_err (create_transform_tensor self2 a_in (quantization orig_input)) (\<lambda>(new_input, self3).
     bind_err (np_transpose (tensor orig_output) nchw2nhwc_perm) (\<lambda>a_out.
     bind_err (create_transform_tensor self3 a_out (quantization orig_output)) (\<lambda>(new_output, self4).
       let nchw2nhwc_transpose =
             \<lparr>kind = TransposeOperator, inputs = [orig_input, nchw2nhwc_perm_tensor], outputs = [new_input]\<rparr>;
           nhwc2nchw_transpose =
             \<lparr>kind = TransposeOperator, inputs = [new_output, nhwc2nchw_perm_tensor], outputs = [orig_output]\<rparr>
       in
     bind_err (set_op_input ops 0 input_idx new_input) (\<lambda>ops1.
     bind_err (set_op_output ops1 (- 1) output_idx new_output) (\<lambda>ops2.
       Inr ([nchw2nhwc_transpose] @ ops2 @ [nhwc2nchw_transpose], self4)))))))))))"

subsection \<open>What a transpose does to the elements\<close>

text \<open>An array as its shape and its element at each index tuple. \<^verbatim>\<open>np.transpose(a, perm)\<close>
  has \<open>shape[i] = a.shape[perm[i]]\<close>, and its element at \<open>idx\<close> is the element of \<open>a\<close> at
  the index tuple \<open>j\<close> with \<open>j[perm[i]] = idx[i]\<close>.\<close>

record 'a elems =
  el_shape :: "nat list"
  el_at :: "nat list \<Rightarrow> 'a"

definition position_of :: "nat list \<Rightarrow> nat \<Rightarrow> nat" where
  "position_of perm k = length (takeWhile (\<lambda>x. x \<noteq> k) perm)"

definition transpose_elems :: "nat list \<Rightarrow> 'a elems \<Rightarrow> 'a elems" where
  "transpose_elems perm a =
     \<lparr>el_shape = map (\<lambda>i. el_shape a ! i) perm,
      el_at = (\<lambda>idx. el_at a (map (\<lambda>k. idx ! position_of perm k) [0..<length perm]))\<rparr>"

text \<open>The axes of \<open>transpose(transpose(a, p), q)\<close> in terms of the axes of \<open>a\<close>.\<close>

definition compose_perm :: "int list \<Rightarrow> int list \<Rightarrow> int list" where
  "compose_perm p q = map (\<lambda>i. p ! nat i) q"

subsection \<open>Names and rewired ops\<close>

text \<open>The names the next calls of \<open>get_unique_transform_name\<close> and
  \<open>get_unique_attr_name\<close> return.\<close>

definition transform_name :: "converter \<Rightarrow> string" where
  "transform_name self =
     (if transform_count self = 0 then hd (output_names self) @ ''_transform''
      else hd (output_names self) @ ''_transform_'' @ str_of_nat (transform_count self))"

definition attr_name :: "converter \<Rightarrow> string" where
  "attr_name self =
     (if attr_count self = 0 then hd (output_names self) @ ''_attr''
      else hd (output_names self) @ ''_attr_'' @ str_of_nat (attr_count self))"

text \<open>The bracketed ops after both assignments.\<close>

definition rewired :: "operator list \<Rightarrow> int \<Rightarrow> int \<Rightarrow> tensor \<Rightarrow> tensor \<Rightarrow> operator list" where
  "rewired ops input_idx output_idx new_input new_output =
     (let ops1 = ops[0 := (hd ops)\<lparr>inputs := (inputs (hd ops))[py_pos (inputs (hd ops)) input_idx := new_input]\<rparr>]
      in ops1[length ops1 - 1 :=
        (last ops1)\<lparr>outputs := (outputs (last ops1))[py_pos (outputs (last ops1)) output_idx := new_output]\<rparr>])"

section \<open>Tensor bindings and \<^verbatim>\<open>passthrough\<close>\<close>

text \<open>Modelled from the spec: the graph builder (\<^verbatim>\<open>graph_converter\<close>) is missing from the
  sources. It exposes a name-to-tensor map and \<^verbatim>\<open>add_operator(op)\<close>; the converter only
  reads the map and appends ops. What \<^verbatim>\<open>add_operator\<close> registers in the map is not
  specified, so it is the parameter \<open>reg\<close>.\<close>

record graph_converter =
  tensor_map :: "string \<rightharpoonup> tensor"
  operators :: "operator list"

definition add_operator ::
  "(operator \<Rightarrow> (string \<rightharpoonup> tensor) \<Rightarrow> (string \<rightharpoonup> tensor)) \<Rightarrow> operator \<Rightarrow> graph_converter \<Rightarrow> graph_converter" where
  "add_operator reg op g = g\<lparr>tensor_map := reg op (tensor_map g), operators := operators g @ [op]\<rparr>"

text \<open>
  \<^verbatim>\<open>
  def find_or_create_input(self, idx, graph_converter):
      name = self.input_names[idx]
      if name in graph_converter.tensor_map:
          return graph_converter.tensor_map[name]
      tensor = self.input_tensors[idx]
      return tfl.Tensor(tensor, name, has_buffer=True, asymmetric=self.asymmetric)
  \<close>
\<close>

definition find_or_create_input :: "converter \<Rightarrow> int \<Rightarrow> graph_converter \<Rightarrow> py_error + tensor" where
  "find_or_create_input self idx g =
     bind_err (py_index (input_names self) idx) (\<lambda>n.
       case tensor_map g n of
         Some t \<Rightarrow> Inr t
       | None \<Rightarrow> bind_err (py_index (input_tensors self) idx) (\<lambda>a. Inr (Tensor a n True None)))"

text \<open>
  \<^verbatim>\<open>
  def to_tfl_tensors(self, names, tensors, has_buffers=None, graph_converter=None, non_existent_as_buffer=False):
      tfl_tensors = []
      if has_buffers is None:
          has_buffers = [None] * len(tensors)
      elif type(has_buffers) == bool:
          has_buffers = [has_buffers] * len(tensors)
      assert len(names) == len(tensors) == len(has_buffers)
      for n, t, b in zip(names, tensors, has_buffers):
          if b is None:
              if graph_converter is not None and n in graph_converter.tensor_map:
                  t = graph_converter.tensor_map[n]
              else:
                  t = tfl.Tensor(t, n, has_buffer=non_existent_as_buffer, asymmetric=self.asymmetric)
          else:
              t = tfl.Tensor(t, n, has_buffer=b, asymmetric=self.asymmetric)
          tfl_tensors.append(t)
      return tfl_tensors
  \<close>
\<close>

datatype has_buffers_arg = HasBuffersNone | HasBuffersBool bool | HasBuffersList "bool option list"

definition to_tfl_tensor ::
  "graph_converter option \<Rightarrow> bool \<Rightarrow> string \<times> ndarray \<times> bool option \<Rightarrow> tensor" where
  "to_tfl_tensor g non_existent_as_buffer x =
     (case x of (n, t, b) \<Rightarrow>
       (case b of
          None \<Rightarrow>
            (case (case g of None \<Rightarrow> None | Some gc \<Rightarrow> tensor_map gc n) of
               Some bound \<Rightarrow> bound
             | None \<Rightarrow> Tensor t n non_existent_as_buffer None)
        | Some hb \<Rightarrow> Tensor t n hb None))"

definition to_tfl_tensors ::
  "converter \<Rightarrow> string list \<Rightarrow> ndarray list \<Rightarrow> has_buffers_arg \<Rightarrow> graph_converter option \<Rightarrow> bool
     \<Rightarrow> py_error + tensor list" where
  "to_tfl_tensors self names tensors has_buffers g non_existent_as_buffer =
     (let hbs = (case has_buffers of
                   HasBuffersNone \<Rightarrow> replicate (length tensors) None
                 | HasBuffersBool b \<Rightarrow> replicate (length tensors) (Some b)
                 | HasBuffersList l \<Rightarrow> l)
      in if length names = length tensors \<and> length tensors = length hbs
         then Inr (map (to_tfl_tensor g non_existent_as_buffer) (zip names (zip tensors hbs)))
         else Inl AssertionError)"

text \<open>
  \<^verbatim>\<open>
  def passthrough(self, graph_converter):
      assert len(self.input_tensors) >= len(self.output_tensors)

      for i in range(len(self.output_tensors)):
          input_tensor = self.input_tensors[i]
          inputs = [self.find_or_create_input(i, graph_converter), self.create_attr_tensor(input_tensor.shape)]
          outputs = self.to_tfl_tensors(self.output_names, self.output_tensors)

          graph_converter.add_operator(tfl.ReshapeOperator(inputs, outputs, input_tensor.shape))
  \<close>
  One iteration of the loop, then the loop over the indices and the method. The converter
  changes too: \<open>create_attr_tensor\<close> advances its counter.
\<close>

definition passthrough_step ::
  "(operator \<Rightarrow> (string \<rightharpoonup> tensor) \<Rightarrow> (string \<rightharpoonup> tensor)) \<Rightarrow> nat \<Rightarrow> converter \<times> graph_converter
     \<Rightarrow> py_error + (converter \<times> graph_converter)" where
  "passthrough_step reg i st =
     (case st of (self, g) \<Rightarrow>
       bind_err (py_index (input_tensors self) (int i)) (\<lambda>input_tensor.
       bind_err (find_or_create_input self (int i) g) (\<lambda>t0.
       bind_err (create_attr_tensor self (IntArray (arr_shape input_tensor))) (\<lambda>(t1, self').
       bind_err (to_tfl_tensors self' (output_names self') (output_tensors self') HasBuffersNone None False) (\<lambda>outs.
         Inr (self', add_operator reg
                \<lparr>kind = ReshapeOperator (arr_shape input_tensor), inputs = [t0, t1], outputs = outs\<rparr> g))))))"

fun passthrough_loop ::
  "(operator \<Rightarrow> (string \<rightharpoonup> tensor) \<Rightarrow> (string \<rightharpoonup> tensor)) \<Rightarrow> nat list \<Rightarrow> converter \<times> graph_converter
     \<Rightarrow> py_error + (converter \<times> graph_converter)" where
  "passthrough_loop reg [] st = Inr st"
| "passthrough_loop reg (i # is) st = bind_err (passthrough_step reg i st) (passthrough_loop reg is)"

definition passthrough ::
  "(operator \<Rightarrow> (string \<rightharpoonup> tensor) \<Rightarrow> (string \<rightharpoonup> tensor)) \<Rightarrow> converter \<Rightarrow> graph_converter
     \<Rightarrow> py_error + (converter \<times> graph_converter)" where
  "passthrough reg self g =
     (if length (input_tensors self) \<ge> length (output_tensors self)
      then passthrough_loop reg [0..<length (output_tensors self)] (self, g)
      else Inl AssertionError)"

section \<open>\<^verbatim>\<open>fetch_annotated_args\<close>\<close>

text \<open>A Python \<^verbatim>\<open>dict\<close> keeps its keys in insertion order; storing under a key that is
  present replaces the value in place. \<^verbatim>\<open>dict(pairs)\<close> stores the pairs in order.\<close>

fun dict_set :: "'k \<Rightarrow> 'v \<Rightarrow> ('k \<times> 'v) list \<Rightarrow> ('k \<times> 'v) list" where
  "dict_set k v [] = [(k, v)]"
| "dict_set k v ((k', v') # d) = (if k = k' then (k, v) # d else (k', v') # dict_set k v d)"

definition dict :: "('k \<times> 'v) list \<Rightarrow> ('k \<times> 'v) list" where
  "dict pairs = foldl (\<lambda>d (k, v). dict_set k v d) [] pairs"

text \<open>\<^verbatim>\<open>sub in s\<close> for strings: \<open>sub\<close> occurs in \<open>s\<close> as a contiguous run.\<close>

fun str_contains :: "string \<Rightarrow> string \<Rightarrow> bool" where
  "str_contains sub [] = (sub = [])"
| "str_contains sub (c # cs) = (prefix sub (c # cs) \<or> str_contains sub cs)"

text \<open>A function schema as the source reads it: its overload name and the names of its
  declared arguments. The schemas of an operator kind come from
  \<^verbatim>\<open>torch._C._jit_get_schemas_for_operator\<close>, which is the parameter \<open>schemas_for\<close>.\<close>

record schema =
  overload_name :: string
  arguments :: "string list"

text \<open>
  \<^verbatim>\<open>
  def fetch_annotated_args(self, node):
      if len(self.input_tensors) == 0:
          return dict()

      k = node.kind()
      if k.startswith('prim::'):
          return dict()

      schemas = torch._C._jit_get_schemas_for_operator(k)
      candidates = []
      for schema in schemas:
          if 'name' in schema.overload_name:
              continue
          if len(schema.arguments) == len(self.input_tensors):
              candidates.append(schema)

      assert len(candidates) > 0, f"Cannot find the schema for {k}({self.output_names[0]})"
      names = (x.name for x in candidates[0].arguments)

      # TODO: Better selection for multiple schemas
      return dict(zip(names, range(len(self.input_tensors))))
  \<close>
  The message of the failing assertion reads \<^verbatim>\<open>self.output_names[0]\<close>, so a node without
  outputs fails with \<^verbatim>\<open>IndexError\<close> instead.
\<close>

fun collect_candidates :: "nat \<Rightarrow> schema list \<Rightarrow> schema list" where
  "collect_candidates n [] = []"
| "collect_candidates n (s # schemas) =
     (if str_contains ''name'' (overload_name s) then collect_candidates n schemas
      else if length (arguments s) = n then s # collect_candidates n schemas
      else collect_candidates n schemas)"

definition fetch_annotated_args ::
  "(string \<Rightarrow> schema list) \<Rightarrow> converter \<Rightarrow> string \<Rightarrow> py_error + (string \<times> nat) list" where
  "fetch_annotated_args schemas_for self k =
     (if length (input_tensors self) = 0 then Inr (dict [])
      else if prefix ''prim::'' k then Inr (dict [])
      else
        let candidates = collect_candidates (length (input_tensors self)) (schemas_for k)
        in if length candidates > 0
           then Inr (dict (zip (arguments (hd candidates)) [0..<length (input_tensors self)]))
           else bind_err (py_index (output_names self) 0) (\<lambda>n0. Inl AssertionError))"

text \<open>The specification's reading of the filter: a schema is overload-qualified when its
  overload name is not empty.\<close>

definition spec_candidates :: "nat \<Rightarrow> schema list \<Rightarrow> schema list" where
  "spec_candidates n schemas = filter (\<lambda>s. overload_name s = [] \<and> length (arguments s) = n) schemas"

section \<open>Quantizing values\<close>

text \<open>
  The tensor that \<open>quantize\<close> receives is a float32 tensor, the list of its elements;
  \<open>scale\<close> is a Python float and \<open>zero_point\<close> a Python integer. An operation of the
  tensor library on a float32 tensor and a Python number converts the number to float32
  and works in float32: the quotient and the sum are each rounded to binary32, the bounds
  of the target dtype are converted to float32 before they are compared. Dividing by a
  zero gives an infinity or a NaN, it does not raise. An integer that does not fit 64 bits
  is refused as an operand (by a \<^verbatim>\<open>RuntimeError\<close> or an \<^verbatim>\<open>OverflowError\<close>, depending on the
  version of the library; the model has \<open>RuntimeError\<close>).
\<close>

definition float32_of_int :: "int \<Rightarrow> fval" where
  "float32_of_int z = round32 (of_int z)"

definition torch_scalar_int :: "int \<Rightarrow> py_error + fval" where
  "torch_scalar_int z =
     (if - (2 ^ 63) \<le> z \<and> z < 2 ^ 63 then Inr (float32_of_int z) else Inl RuntimeError)"

definition torch_div :: "fval \<Rightarrow> fval \<Rightarrow> fval" where
  "torch_div x s = ieee_div round32 x (conv32 s)"

definition torch_add :: "fval \<Rightarrow> fval \<Rightarrow> fval" where
  "torch_add x z = ieee_add round32 x z"

text \<open>\<^verbatim>\<open>torch.round\<close> rounds to the nearest integer, a tie to the even one.\<close>

fun torch_round :: "fval \<Rightarrow> fval" where
  "torch_round (Finite q) =
     (if round_half_even q = 0 then zero_of (q < 0) else Finite (of_int (round_half_even q)))"
| "torch_round x = x"

text \<open>\<^verbatim>\<open>torch.iinfo(dtype)\<close>: the least and greatest value of an integer dtype; a
  \<^verbatim>\<open>TypeError\<close> for a floating dtype.\<close>

fun iinfo :: "dtype \<Rightarrow> py_error + (int \<times> int)" where
  "iinfo UInt8 = Inr (0, 255)"
| "iinfo Int8 = Inr (- 128, 127)"
| "iinfo Int32 = Inr (- 2147483648, 2147483647)"
| "iinfo Float32 = Inl TypeError"

text \<open>
  \<^verbatim>\<open>Tensor.to(dtype)\<close> from float32 to an integer dtype drops the fraction. The library
  converts to \<^verbatim>\<open>uint8\<close> by way of a 64-bit integer, so a value of that range is reduced
  modulo 256 (301 becomes 45). Any other conversion of a value that the target cannot hold
  (and that of an infinity or a NaN) is undefined behaviour of the C++ conversion the
  library uses: the model does not say which integer is stored. A floating target is not
  converted to: \<^verbatim>\<open>torch.iinfo\<close> has refused it before.
\<close>

datatype stored = Value int | Unspecified

definition trunc_toward_zero :: "rat \<Rightarrow> int" where
  "trunc_toward_zero q = (if 0 \<le> q then \<lfloor>q\<rfloor> else \<lceil>q\<rceil>)"

fun to_dtype :: "dtype \<Rightarrow> fval \<Rightarrow> stored" where
  "to_dtype Float32 x = Unspecified"
| "to_dtype d NegZero = Value 0"
| "to_dtype UInt8 (Finite q) =
     (if - (2 ^ 63) \<le> trunc_toward_zero q \<and> trunc_toward_zero q < 2 ^ 63
      then Value (trunc_toward_zero q mod 256) else Unspecified)"
| "to_dtype Int8 (Finite q) =
     (if - 128 \<le> trunc_toward_zero q \<and> trunc_toward_zero q \<le> 127
      then Value (trunc_toward_zero q) else Unspecified)"
| "to_dtype Int32 (Finite q) =
     (if - 2147483648 \<le> trunc_toward_zero q \<and> trunc_toward_zero q \<le> 2147483647
      then Value (trunc_toward_zero q) else Unspecified)"
| "to_dtype d x = Unspecified"

text \<open>
  \<^verbatim>\<open>
  def quantize(self, tensor, scale, zero_point, dtype=torch.uint8):
      q_tensor = torch.round(tensor.detach() / scale + zero_point)
      type_info = torch.iinfo(dtype)
      if (q_tensor > type_info.max).any():
          warnings.warn('Overflow while quantizing the tensor')
      if (q_tensor < type_info.min).any():
          warnings.warn('Underflow while quantizing the tensor')
      q_tensor = q_tensor.to(dtype=dtype)
      return tfl.FakeQuantTensor(q_tensor, scale, zero_point)
  \<close>
  The warnings issued are returned next to the result, in order. \<open>q_value\<close> is one
  element of the first \<open>q_tensor\<close>, given the zero point as a float32 number.
\<close>

definition q_value :: "fval \<Rightarrow> fval \<Rightarrow> fval \<Rightarrow> fval" where
  "q_value x scale' z = torch_round (torch_add (torch_div x scale') z)"

record fake_quant_tensor =
  fq_values :: "stored list"
  fq_scale :: fval
  fq_zero_point :: int

definition quantize ::
  "fval list \<Rightarrow> fval \<Rightarrow> int \<Rightarrow> dtype \<Rightarrow> py_error + (string list \<times> fake_quant_tensor)" where
  "quantize tensor' scale' zero_point' dtype' =
     bind_err (torch_scalar_int zero_point') (\<lambda>z.
       let q_tensor = map (\<lambda>x. q_value x scale' z) tensor' in
     bind_err (iinfo dtype') (\<lambda>(type_min, type_max).
       let w1 = (if list_ex (\<lambda>x. flt (float32_of_int type_max) x) q_tensor
                 then [''Overflow while quantizing the tensor''] else []);
           w2 = (if list_ex (\<lambda>x. flt x (float32_of_int type_min)) q_tensor
                 then [''Underflow while quantizing the tensor''] else [])
       in Inr (w1 @ w2,
               \<lparr>fq_values = map (to_dtype dtype') q_tensor, fq_scale = scale',
                 fq_zero_point = zero_point'\<rparr>)))"

text \<open>The specification's words for one element: \<open>round(value/scale) + zero_point\<close>, and a
  conversion that clamps to the range of the dtype.\<close>

definition spec_quantize_value :: "fval \<Rightarrow> fval \<Rightarrow> fval \<Rightarrow> fval" where
  "spec_quantize_value x scale' z = torch_add (torch_round (torch_div x scale')) z"

definition spec_clamp :: "dtype \<Rightarrow> int \<Rightarrow> int" where
  "spec_clamp d n = (case iinfo d of Inr (lo, hi) \<Rightarrow> max lo (min hi n) | Inl e \<Rightarrow> n)"

section \<open>\<^verbatim>\<open>quantize_scalar_tensor\<close>\<close>

text \<open>The two objects the second assertion compares: \<^verbatim>\<open>torch.dtype\<close> is the class of
  dtypes, \<^verbatim>\<open>torch.float32\<close> is one of its instances. Python's \<^verbatim>\<open>==\<close> on them is
  identity.\<close>

datatype py_object = TorchDtypeClass | TorchDtypeInstance string

definition torch_dtype :: py_object where
  "torch_dtype = TorchDtypeClass"

definition torch_float32 :: py_object where
  "torch_float32 = TorchDtypeInstance ''float32''"

text \<open>A torch tensor as the method reads it: its shape, its elements, its dtype. The
  result of \<^verbatim>\<open>torch.quantize_per_tensor\<close> is kept as its four arguments.\<close>

record torch_tensor =
  t_shape :: "nat list"
  t_values :: "rat list"
  t_dtype :: py_object

datatype qdtype = QUInt8 | QInt8

record quantized_tensor =
  q_source :: torch_tensor
  q_scale :: fval
  q_zero_point :: int
  q_dtype :: qdtype

definition numel :: "torch_tensor \<Rightarrow> nat" where
  "numel t = prod_list (t_shape t)"

text \<open>\<^verbatim>\<open>tensor[0]\<close> of a one-element tensor, from which the scale is computed: a 0-dim
  tensor cannot be indexed, and the element of a tensor of two or more dimensions is a
  tensor with dimensions, which \<^verbatim>\<open>torch.quantize_per_tensor\<close> refuses as a scale with a
  \<^verbatim>\<open>TypeError\<close>.\<close>

definition first_element :: "torch_tensor \<Rightarrow> py_error + rat" where
  "first_element t =
     (if t_shape t = [] then Inl IndexError
      else if length (t_shape t) \<noteq> 1 then Inl TypeError
      else py_index (t_values t) 0)"

text \<open>
  \<^verbatim>\<open>
  def quantize_scalar_tensor(self, tensor: torch.Tensor):
      assert tensor.numel() == 1
      assert torch.dtype == torch.float32
      if not tensor.is_nonzero():
          if self.asymmetric:
              return torch.quantize_per_tensor(tensor, 0.5, 128, torch.quint8)
          else:
              return torch.quantize_per_tensor(tensor, 0.5, 0, torch.qint8)
      elif (torch.sign(tensor) < 0).all():
          if self.asymmetric:
              return torch.quantize_per_tensor(tensor, -tensor[0] / 127, 255, torch.quint8)
          else:
              return torch.quantize_per_tensor(tensor, -tensor[0] / 127, 0, torch.qint8)
      else:
          if self.asymmetric:
              return torch.quantize_per_tensor(tensor, tensor[0] / 127, 0, torch.quint8)
          else:
              return torch.quantize_per_tensor(tensor, tensor[0] / 127, 0, torch.qint8)
  \<close>
  The branches after the assertions are \<open>quantize_scalar_branches\<close>. The quotient by 127
  is one of float32 numbers.
\<close>

definition quantize_scalar_branches :: "bool \<Rightarrow> torch_tensor \<Rightarrow> py_error + quantized_tensor" where
  "quantize_scalar_branches asymm t =
     (if \<not> list_ex (\<lambda>v. v \<noteq> 0) (t_values t) then
        (if asymm
         then Inr \<lparr>q_source = t, q_scale = Finite (1 / 2), q_zero_point = 128, q_dtype = QUInt8\<rparr>
         else Inr \<lparr>q_source = t, q_scale = Finite (1 / 2), q_zero_point = 0, q_dtype = QInt8\<rparr>)
      else if list_all (\<lambda>v. v < 0) (t_values t) then
        bind_err (first_element t) (\<lambda>v.
          let scale' = ieee_div round32 (fneg (Finite v)) (Finite 127) in
          if asymm then Inr \<lparr>q_source = t, q_scale = scale', q_zero_point = 255, q_dtype = QUInt8\<rparr>
          else Inr \<lparr>q_source = t, q_scale = scale', q_zero_point = 0, q_dtype = QInt8\<rparr>)
      else
        bind_err (first_element t) (\<lambda>v.
          let scale' = ieee_div round32 (Finite v) (Finite 127) in
          if asymm then Inr \<lparr>q_source = t, q_scale = scale', q_zero_point = 0, q_dtype = QUInt8\<rparr>
          else Inr \<lparr>q_source = t, q_scale = scale', q_zero_point = 0, q_dtype = QInt8\<rparr>))"

definition quantize_scalar_tensor :: "converter \<Rightarrow> torch_tensor \<Rightarrow> py_error + quantized_tensor" where
  "quantize_scalar_tensor self t =
     (if numel t \<noteq> 1 then Inl AssertionError
      else if torch_dtype \<noteq> torch_float32 then Inl AssertionError
      else quantize_scalar_branches (asymmetric self) t)"

section \<open>\<^verbatim>\<open>handle_padding\<close>\<close>

text \<open>\<^verbatim>\<open>np.pad(a, pad)\<close> with one \<open>[before, after]\<close> pair per axis: a \<^verbatim>\<open>ValueError\<close> when
  the pairs do not match the axes of \<open>a\<close> or a width is negative. The fill value is
  \<^verbatim>\<open>constant_values\<close> when given (zero otherwise). NumPy stores it in an array of an
  integer dtype by way of a Python integer and a C \<^verbatim>\<open>long\<close> (\<^verbatim>\<open>unsigned long\<close> for an
  unsigned dtype): the fraction is dropped, a value that does not fit is an
  \<^verbatim>\<open>OverflowError\<close>, any other is reduced to the width of the dtype.\<close>

definition fill_value :: "dtype \<Rightarrow> rat \<Rightarrow> py_error + rat" where
  "fill_value d v =
     (case iinfo d of
        Inl e \<Rightarrow> Inr v
      | Inr (lo, hi) \<Rightarrow>
          if - (2 ^ 63) \<le> trunc_toward_zero v
             \<and> trunc_toward_zero v < (if lo = 0 then 2 ^ 64 else 2 ^ 63)
          then Inr (of_int (lo + (trunc_toward_zero v - lo) mod (hi - lo + 1)))
          else Inl OverflowError)"

definition np_pad :: "ndarray \<Rightarrow> int list list \<Rightarrow> rat option \<Rightarrow> py_error + ndarray" where
  "np_pad a pad fill =
     (if length pad = length (arr_shape a) \<and> list_all (list_all (\<lambda>w. 0 \<le> w)) pad
      then (case fill of
              None \<Rightarrow> Inr (Padded a pad None)
            | Some v \<Rightarrow> bind_err (fill_value (arr_dtype a) v) (\<lambda>v'. Inr (Padded a pad (Some v'))))
      else Inl ValueError)"

text \<open>\<^verbatim>\<open>all((i + 2 * p - k) % s == 0 for i, p, k, s in zip(...))\<close>: the generator stops at the
  first dimension that is not covered; a zero stride raises when its dimension is reached.\<close>

fun all_covered :: "(int \<times> int \<times> int \<times> int) list \<Rightarrow> py_error + bool" where
  "all_covered [] = Inr True"
| "all_covered ((i, p, k, s) # rest) =
     (if s = 0 then Inl ZeroDivisionError
      else if (i + 2 * p - k) mod s = 0 then all_covered rest
      else Inr False)"

fun is_max_pool :: "op_kind \<Rightarrow> bool" where
  "is_max_pool (MaxPool2dOperator pp) = True"
| "is_max_pool k = False"

text \<open>
  \<^verbatim>\<open>
  def handle_padding(self, pad_h, pad_w, pad_op_index, ops, ceil_mode=False):
      fill_nan = False
      if ceil_mode:
          input_tensor = ops[0].inputs[0]
          kernel_size = [ops[1].filterHeight, ops[1].filterWidth]
          stride = [ops[1].strideH, ops[1].strideW]
          padding = [pad_h, pad_w]

          input_size = [input_tensor.shape[2], input_tensor.shape[3]]

          if not all((i + 2 * p - k) % s == 0 for i, p, k, s in zip(input_size, padding, kernel_size, stride)):
              assert type(ops[1]) == tfl.MaxPool2dOperator, 'ceil_mode=False for AvgPool not supported'
              fill_nan = True
              ceil_pad = get_pool_ceil_padding(input_tensor, kernel_size, stride, padding)
              ceil_pad = list(np.add(ceil_pad, padding))
  \<close>
  The first part returns \<open>ceil_pad\<close> when \<open>fill_nan\<close> is set, and nothing otherwise.
\<close>

definition ceil_mode_check :: "int \<Rightarrow> int \<Rightarrow> operator list \<Rightarrow> py_error + int list option" where
  "ceil_mode_check pad_h pad_w ops =
     bind_err (py_index ops 0) (\<lambda>op0.
     bind_err (py_index (inputs op0) 0) (\<lambda>input_tensor.
     bind_err (py_index ops 1) (\<lambda>op1.
     bind_err (pool_params_of (kind op1)) (\<lambda>pp.
       let kernel_size = [filterHeight pp, filterWidth pp];
           stride = [strideH pp, strideW pp];
           padding = [pad_h, pad_w]
       in
     bind_err (py_index (shape input_tensor) 2) (\<lambda>i2.
     bind_err (py_index (shape input_tensor) 3) (\<lambda>i3.
     bind_err (all_covered (zip [i2, i3] (zip padding (zip kernel_size stride)))) (\<lambda>covered.
       if covered then Inr None
       else if \<not> is_max_pool (kind op1) then Inl AssertionError
       else
         bind_err (get_pool_ceil_padding (shape input_tensor) kernel_size stride padding) (\<lambda>ceil_pad.
           Inr (Some (map (\<lambda>(c, p). c + p) (zip ceil_pad padding)))))))))))"

text \<open>
  \<^verbatim>\<open>
      if pad_h + pad_w > 0:
          pad = [[0, 0], [pad_h, pad_h], [pad_w, pad_w], [0, 0]]
          pad_tensor = self.create_attr_tensor(np.array(pad, dtype='int32'))

          pad_input = ops[pad_op_index - 1].outputs[0]
          pad_array = np.pad(pad_input.tensor, pad)
          pad_out = self.create_transform_tensor(pad_array, quantization=pad_input.quantization)
          ops[pad_op_index].inputs[0] = pad_out

          pad_op = tfl.PadOperator([pad_input, pad_tensor], [pad_out])
          ops.insert(pad_op_index, pad_op)
  \<close>
\<close>

definition insert_base_pad ::
  "converter \<Rightarrow> int \<Rightarrow> int \<Rightarrow> int \<Rightarrow> operator list \<Rightarrow> py_error + (operator list \<times> converter)" where
  "insert_base_pad self pad_h pad_w pad_op_index ops =
     (let pad = [[0, 0], [pad_h, pad_h], [pad_w, pad_w], [0, 0]] in
      bind_err (create_attr_tensor self (IntArray2 pad)) (\<lambda>(pad_tensor, self1).
      bind_err (py_index ops (pad_op_index - 1)) (\<lambda>prev.
      bind_err (py_index (outputs prev) 0) (\<lambda>pad_input.
      bind_err (np_pad (tensor pad_input) pad None) (\<lambda>pad_array.
      bind_err (create_transform_tensor self1 pad_array (quantization pad_input)) (\<lambda>(pad_out, self2).
      bind_err (set_op_input ops pad_op_index 0 pad_out) (\<lambda>ops1.
        let pad_op = \<lparr>kind = PadOperator, inputs = [pad_input, pad_tensor], outputs = [pad_out]\<rparr>
        in Inr (py_insert ops1 pad_op_index pad_op, self2))))))))"

text \<open>
  \<^verbatim>\<open>
      if fill_nan:
          nan = np.finfo(np.float32).min
          fill_nan_index = pad_op_index + 1 if pad_h + pad_w > 0 else pad_op_index
          pad = [[0, 0], [0, ceil_pad[0]], [0, ceil_pad[1]], [0, 0]]
          pad_tensor = self.create_attr_tensor(np.array(pad, dtype='int32'))
          pad_input = ops[fill_nan_index - 1].outputs[0]
          if pad_input.quantization is not None:
              constant_arr = tfl.FakeQuantTensor(np.zeros(1, dtype=pad_input.dtype),
                                                 pad_input.quantization.scale,
                                                 pad_input.quantization.zero_point)
          else:
              constant_arr = np.array([nan], dtype='float32')
          constant_tensor = self.create_attr_tensor(constant_arr)

          pad_array = np.pad(pad_input.tensor, pad, constant_values=nan)
          pad_out = self.create_transform_tensor(pad_array, quantization=pad_input.quantization)
          ops[fill_nan_index].inputs[0] = pad_out

          pad_op = tfl.Padv2Operator([pad_input, pad_tensor, constant_tensor], [pad_out])
          ops.insert(fill_nan_index, pad_op)
  \<close>
\<close>

definition insert_fill_pad ::
  "converter \<Rightarrow> int \<Rightarrow> int \<Rightarrow> int \<Rightarrow> int list \<Rightarrow> operator list \<Rightarrow> py_error + (operator list \<times> converter)" where
  "insert_fill_pad self pad_h pad_w pad_op_index ceil_pad ops =
     (let nan = float32_min;
          fill_nan_index = (if pad_h + pad_w > 0 then pad_op_index + 1 else pad_op_index)
      in
      bind_err (py_index ceil_pad 0) (\<lambda>c0.
      bind_err (py_index ceil_pad 1) (\<lambda>c1.
        let pad = [[0, 0], [0, c0], [0, c1], [0, 0]] in
      bind_err (create_attr_tensor self (IntArray2 pad)) (\<lambda>(pad_tensor, self1).
      bind_err (py_index ops (fill_nan_index - 1)) (\<lambda>prev.
      bind_err (py_index (outputs prev) 0) (\<lambda>pad_input.
        let constant_arr =
              (case quantization pad_input of
                 Some q \<Rightarrow> FakeQuantTensor (Zeros 1 (dtype pad_input)) (scale q) (zero_point q)
               | None \<Rightarrow> FloatArray [nan])
        in
      bind_err (create_attr_tensor self1 constant_arr) (\<lambda>(constant_tensor, self2).
      bind_err (np_pad (tensor pad_input) pad (Some nan)) (\<lambda>pad_array.
      bind_err (create_transform_tensor self2 pad_array (quantization pad_input)) (\<lambda>(pad_out, self3).
      bind_err (set_op_input ops fill_nan_index 0 pad_out) (\<lambda>ops1.
        let pad_op = \<lparr>kind = Padv2Operator, inputs = [pad_input, pad_tensor, constant_tensor],
                       outputs = [pad_out]\<rparr>
        in Inr (py_insert ops1 fill_nan_index pad_op, self3)))))))))))"

text \<open>The method: the list \<open>ops\<close> is changed in place, so the new list is returned with
  the new converter.\<close>

definition handle_padding ::
  "converter \<Rightarrow> int \<Rightarrow> int \<Rightarrow> int \<Rightarrow> operator list \<Rightarrow> bool \<Rightarrow> py_error + (operator list \<times> converter)" where
  "handle_padding self pad_h pad_w pad_op_index ops ceil_mode =
     bind_err (if ceil_mode then ceil_mode_check pad_h pad_w ops else Inr None) (\<lambda>fill.
     bind_err (if pad_h + pad_w > 0 then insert_base_pad self pad_h pad_w pad_op_index ops
               else Inr (ops, self)) (\<lambda>(ops1, self1).
       case fill of
         None \<Rightarrow> Inr (ops1, self1)
       | Some ceil_pad \<Rightarrow> insert_fill_pad self1 pad_h pad_w pad_op_index ceil_pad ops1))"

subsection \<open>Reading a constant back\<close>

text \<open>The numbers held by a constant array, and the most negative value a dtype can
  represent.\<close>

fun constant_values :: "ndarray \<Rightarrow> rat list option" where
  "constant_values (FloatArray xs) = Some xs"
| "constant_values (IntArray xs) = Some (map of_int xs)"
| "constant_values (Zeros n d) = Some (replicate n 0)"
| "constant_values (FakeQuantTensor a s z) = constant_values a"
| "constant_values (AsType a d) = constant_values a"
| "constant_values a = None"

fun dtype_lowest :: "dtype \<Rightarrow> rat" where
  "dtype_lowest Float32 = float32_min"
| "dtype_lowest UInt8 = 0"
| "dtype_lowest Int8 = - 128"
| "dtype_lowest Int32 = - 2147483648"

text \<open>The list after a pad op has been put in front of the op at position \<open>j\<close>, whose first
  input now is the output of the pad op.\<close>

definition with_pad_before :: "nat \<Rightarrow> operator \<Rightarrow> operator list \<Rightarrow> operator list" where
  "with_pad_before j pad_op ops =
     take j ops @ [pad_op, (ops ! j)\<lparr>inputs := (inputs (ops ! j))[0 := hd (outputs pad_op)]\<rparr>]
       @ drop (Suc j) ops"

text \<open>The number of windows of size \<open>k\<close> at stride \<open>s\<close> that lie within \<open>n\<close> elements: the
  output size of a pooling op that does no padding of its own.\<close>

definition pool_windows :: "int \<Rightarrow> int \<Rightarrow> int \<Rightarrow> int" where
  "pool_windows n k s = (n - k) div s + 1"

section \<open>\<^verbatim>\<open>rescale_weight_scale_for_qnnpack\<close>\<close>

text \<open>
  \<^verbatim>\<open>
  def fp32_to_bits(val):
      b = np.float32(val).tobytes()
      return np.frombuffer(b, dtype='uint32')[0]
  \<close>
  The source only uses \<^verbatim>\<open>fp32_to_bits(scale) >> 23\<close>, the sign bit and the eight exponent
  bits of the binary32 number nearest to \<open>val\<close>: the biased exponent, 0 for a zero and the
  subnormal numbers, 255 for an infinity or a NaN, and 256 more when the sign bit is set
  (a NaN is taken with its sign bit clear).
\<close>

definition fp32_sign_exponent :: "fval \<Rightarrow> int" where
  "fp32_sign_exponent x =
     (case conv32 x of
        Finite r \<Rightarrow>
          (if r = 0 \<or> \<bar>r\<bar> < pow2 (- 126) then 0 else flog2 \<bar>r\<bar> + 127)
          + (if r < 0 then 256 else 0)
      | NegZero \<Rightarrow> 256
      | PosInf \<Rightarrow> 255
      | NegInf \<Rightarrow> 256 + 255
      | NaN \<Rightarrow> 255)"

text \<open>
  \<^verbatim>\<open>127 + 31 - 32 - (fp32_to_bits(scale) >> 23)\<close> subtracts a NumPy \<^verbatim>\<open>uint32\<close> scalar from
  the Python integer 126, and what that gives depends on the NumPy the program runs
  with. Before version 2 both operands are converted to \<^verbatim>\<open>int64\<close> and the difference is
  the integer difference. From version 2 on the Python integer takes the type of the
  scalar, the subtraction is one of \<^verbatim>\<open>uint32\<close> numbers and wraps around modulo \<open>2^32\<close>
  (with a warning) when the exponent field exceeds 126.
\<close>

datatype numpy_version = NumPy_1 | NumPy_2

definition shift_of :: "numpy_version \<Rightarrow> int \<Rightarrow> int" where
  "shift_of numpy bits =
     (case numpy of
        NumPy_1 \<Rightarrow> 127 + 31 - 32 - bits
      | NumPy_2 \<Rightarrow> (127 + 31 - 32 - bits) mod 2 ^ 32)"

text \<open>
  \<^verbatim>\<open>
  def rescale_weight_scale_for_qnnpack(self, input_tensor, weight_tensor, output_tensor):
      updated = False
      orig_scale = weight_tensor.quantization.scale
      while True:
          input_product_scale = input_tensor.quantization.scale * weight_tensor.quantization.scale
          scale = input_product_scale / output_tensor.quantization.scale
          shift = 127 + 31 - 32 - (fp32_to_bits(scale) >> 23)
          if shift >= 32:
              updated = True
              weight_tensor.quantization.scale *= 10
          else:
              break
      if updated:
          cur_scale = weight_tensor.quantization.scale
          log.info(...)
  \<close>
  The model takes the NumPy version and the three scales, which are Python floats, and
  returns the scale the weight tensor is left with. \<open>qnnpack_shift\<close> is the body of the
  loop up to the test. The loop may run forever, so the result is an option.
\<close>

definition qnnpack_shift :: "numpy_version \<Rightarrow> fval \<Rightarrow> fval \<Rightarrow> fval \<Rightarrow> py_error + int" where
  "qnnpack_shift numpy input_scale weight_scale output_scale =
     (let input_product_scale = fmul64 input_scale weight_scale in
      bind_err (fdiv64 input_product_scale output_scale) (\<lambda>scale'.
        Inr (shift_of numpy (fp32_sign_exponent scale'))))"

partial_function (option) rescale_weight_scale_for_qnnpack ::
  "numpy_version \<Rightarrow> fval \<Rightarrow> fval \<Rightarrow> fval \<Rightarrow> (py_error + fval) option" where
  "rescale_weight_scale_for_qnnpack numpy input_scale weight_scale output_scale =
     (case qnnpack_shift numpy input_scale weight_scale output_scale of
        Inl e \<Rightarrow> Some (Inl e)
      | Inr shift \<Rightarrow>
          if shift \<ge> 32
          then rescale_weight_scale_for_qnnpack numpy input_scale (fmul64 weight_scale (Finite 10))
                 output_scale
          else Some (Inr weight_scale))"

declare rescale_weight_scale_for_qnnpack.simps [code]

text \<open>A positive binary64 number: a positive rational that rounding leaves as it is.\<close>

definition positive_double :: "rat \<Rightarrow> bool" where
  "positive_double q = (0 < q \<and> round64 q = Finite q)"

text \<open>The weight scale after \<open>k\<close> runs of the loop body: \<open>k\<close> binary64 products with 10.\<close>

definition times_ten :: "nat \<Rightarrow> fval \<Rightarrow> fval" where
  "times_ten k w = ((\<lambda>x. fmul64 x (Finite 10)) ^^ k) w"

text \<open>The least positive binary64 number.\<close>

definition tiny64 :: rat where
  "tiny64 = pow2 (- 1074)"

text \<open>The scales from which the loop does not come back when the subtraction wraps
  around: the input scale times the weight scale is at least the output scale, or the
  weight scale is infinite.\<close>

fun above_one :: "rat \<Rightarrow> rat \<Rightarrow> fval \<Rightarrow> bool" where
  "above_one a o' PosInf = True"
| "above_one a o' (Finite q) = (tiny64 \<le> q \<and> o' \<le> a * q)"
| "above_one a o' w = False"

section \<open>Example values\<close>

text \<open>A quantized unsigned-8 input and output of shape \<open>[1, 3, 4, 4]\<close>, an op between
  them, and the converter of the node whose output is \<open>y\<close>.\<close>

definition example_input :: tensor where
  "example_input =
     Tensor (Traced [1, 3, 4, 4] UInt8 ''x'') ''x'' False (Some \<lparr>scale = 1 / 2, zero_point = 128\<rparr>)"

definition example_output :: tensor where
  "example_output =
     Tensor (Traced [1, 3, 4, 4] UInt8 ''y'') ''y'' False (Some \<lparr>scale = 1 / 4, zero_point = 0\<rparr>)"

definition example_op :: operator where
  "example_op = \<lparr>kind = OtherOperator ''softmax'', inputs = [example_input], outputs = [example_output]\<rparr>"

definition example_converter :: converter where
  "example_converter =
     \<lparr>input_names = [''x''], output_names = [''y''],
      input_tensors = [Traced [1, 3, 4, 4] UInt8 ''x''],
      output_tensors = [Traced [1, 3, 4, 4] UInt8 ''y''],
      attr_count = 0, transform_count = 0, asymmetric = True\<rparr>"

text \<open>A node with two inputs and two outputs, all of shape \<open>[2, 3]\<close>, and an empty graph
  whose \<^verbatim>\<open>add_operator\<close> only appends.\<close>

definition two_output_converter :: converter where
  "two_output_converter =
     \<lparr>input_names = [''a'', ''b''], output_names = [''c'', ''d''],
      input_tensors = [Traced [2, 3] Float32 ''a'', Traced [2, 3] Float32 ''b''],
      output_tensors = [Traced [2, 3] Float32 ''c'', Traced [2, 3] Float32 ''d''],
      attr_count = 0, transform_count = 0, asymmetric = True\<rparr>"

definition empty_graph :: graph_converter where
  "empty_graph = \<lparr>tensor_map = Map.empty, operators = []\<rparr>"

definition append_only :: "operator \<Rightarrow> (string \<rightharpoonup> tensor) \<Rightarrow> (string \<rightharpoonup> tensor)" where
  "append_only op m = m"

text \<open>The schemas \<^verbatim>\<open>aten::add.Tensor(Tensor self, Tensor other, *, Scalar alpha=1)\<close> and
  \<^verbatim>\<open>aten::add.Scalar(Tensor self, Scalar other, Scalar alpha=1)\<close>, and a node with three
  bound inputs.\<close>

definition add_Tensor :: schema where
  "add_Tensor = \<lparr>overload_name = ''Tensor'', arguments = [''self'', ''other'', ''alpha'']\<rparr>"

definition add_Scalar :: schema where
  "add_Scalar = \<lparr>overload_name = ''Scalar'', arguments = [''self'', ''other'', ''alpha'']\<rparr>"

definition add_converter :: converter where
  "add_converter =
     \<lparr>input_names = [''a'', ''b'', ''alpha''], output_names = [''c''],
      input_tensors = [Traced [2, 3] Float32 ''a'', Traced [2, 3] Float32 ''b'', Traced [] Int32 ''alpha''],
      output_tensors = [],
      attr_count = 0, transform_count = 0, asymmetric = True\<rparr>"

text \<open>The float32 tensors \<^verbatim>\<open>torch.tensor([0.0])\<close> and \<^verbatim>\<open>torch.tensor([-2.54])\<close>.\<close>

definition zero_scalar :: torch_tensor where
  "zero_scalar = \<lparr>t_shape = [1], t_values = [0], t_dtype = torch_float32\<rparr>"

definition negative_scalar :: torch_tensor where
  "negative_scalar = \<lparr>t_shape = [1], t_values = [- 254 / 100], t_dtype = torch_float32\<rparr>"

text \<open>A max-pooling with kernel 3 and stride 2 over a float input of shape \<open>[1, 1, 4, 4]\<close>,
  between the two layout transposes; the same with an average pooling.\<close>

definition pool_input :: tensor where
  "pool_input = Tensor (Traced [1, 1, 4, 4] Float32 ''x'') ''x'' False None"

definition pool_nhwc :: tensor where
  "pool_nhwc = Tensor (Transposed (Traced [1, 1, 4, 4] Float32 ''x'') [0, 2, 3, 1]) ''y_transform'' False None"

definition pool_out_nhwc :: tensor where
  "pool_out_nhwc = Tensor (Traced [1, 3, 3, 1] Float32 ''p'') ''y_transform_1'' False None"

definition pool_output :: tensor where
  "pool_output = Tensor (Traced [1, 1, 3, 3] Float32 ''y'') ''y'' False None"

definition pool_3x3_s2 :: pool_params where
  "pool_3x3_s2 = \<lparr>filterHeight = 3, filterWidth = 3, strideH = 2, strideW = 2\<rparr>"

definition pool_ops :: "op_kind \<Rightarrow> operator list" where
  "pool_ops k =
     [\<lparr>kind = TransposeOperator, inputs = [pool_input], outputs = [pool_nhwc]\<rparr>,
      \<lparr>kind = k, inputs = [pool_nhwc], outputs = [pool_out_nhwc]\<rparr>,
      \<lparr>kind = TransposeOperator, inputs = [pool_out_nhwc], outputs = [pool_output]\<rparr>]"

definition pool_converter :: converter where
  "pool_converter =
     \<lparr>input_names = [''x''], output_names = [''y''],
      input_tensors = [Traced [1, 1, 4, 4] Float32 ''x''],
      output_tensors = [Traced [1, 1, 3, 3] Float32 ''y''],
      attr_count = 2, transform_count = 2, asymmetric = True\<rparr>"

text \<open>The same max-pooling over a quantized signed 8-bit input.\<close>

definition pool_ops_int8 :: "operator list" where
  "pool_ops_int8 =
     [\<lparr>kind = TransposeOperator,
       inputs = [Tensor (Traced [1, 1, 4, 4] Int8 ''x'') ''x'' False (Some \<lparr>scale = 1 / 2, zero_point = 0\<rparr>)],
       outputs = [Tensor (Transposed (Traced [1, 1, 4, 4] Int8 ''x'') [0, 2, 3, 1]) ''y_transform'' False
                    (Some \<lparr>scale = 1 / 2, zero_point = 0\<rparr>)]\<rparr>,
      \<lparr>kind = MaxPool2dOperator pool_3x3_s2,
       inputs = [Tensor (Transposed (Traced [1, 1, 4, 4] Int8 ''x'') [0, 2, 3, 1]) ''y_transform'' False
                   (Some \<lparr>scale = 1 / 2, zero_point = 0\<rparr>)],
       outputs = [Tensor (Traced [1, 3, 3, 1] Int8 ''p'') ''y_transform_1'' False
                    (Some \<lparr>scale = 1 / 2, zero_point = 0\<rparr>)]\<rparr>]"

text \<open>A max-pooling with kernel 2 and stride 5 over a float input of shape
  \<open>[1, 1, 9, 9]\<close>, for which the extra amount is negative.\<close>

definition pool_ops_9x9 :: "operator list" where
  "pool_ops_9x9 =
     [\<lparr>kind = TransposeOperator,
       inputs = [Tensor (Traced [1, 1, 9, 9] Float32 ''x'') ''x'' False None],
       outputs = [Tensor (Transposed (Traced [1, 1, 9, 9] Float32 ''x'') [0, 2, 3, 1]) ''y_transform'' False None]\<rparr>,
      \<lparr>kind = MaxPool2dOperator \<lparr>filterHeight = 2, filterWidth = 2, strideH = 5, strideW = 5\<rparr>,
       inputs = [Tensor (Transposed (Traced [1, 1, 9, 9] Float32 ''x'') [0, 2, 3, 1]) ''y_transform'' False None],
       outputs = [Tensor (Traced [1, 2, 2, 1] Float32 ''p'') ''y_transform_1'' False None]\<rparr>]"

text \<open>Three binary64 scales for which the loop runs twice: \<open>2^-36\<close>,
  \<open>0.22370578656782822\<close> and \<open>1\<close>; the weight scale after one run of the loop body and
  the one it ends with, \<open>22.37057865678282\<close>.\<close>

definition example_input_scale :: rat where
  "example_input_scale = 1 / 2 ^ 36"

definition example_weight_scale :: rat where
  "example_weight_scale = 8059850376219959 / 2 ^ 55"

definition example_weight_once :: rat where
  "example_weight_once = 2518703242568737 / 2 ^ 50"

definition example_rescaled :: rat where
  "example_rescaled = 3148379053210921 / 2 ^ 47"

section \<open>Basic facts\<close>

lemma py_ceil_div_code [code]: "py_ceil_div a t = - ((- a) div t)"
  unfolding py_ceil_div_def by (rule ceiling_divide_eq_div)

lemma bind_err_Inr [simp]: "bind_err (Inr x) f = f x"
  by (simp add: bind_err_def)

lemma bind_err_Inl [simp]: "bind_err (Inl e) f = Inl e"
  by (simp add: bind_err_def)

lemma py_get_in_range [simp]: "i < length xs \<Longrightarrow> py_get xs i = Inr (xs ! i)"
  by (simp add: py_get_def)

lemma comprehension_total:
  "(\<And>x. x \<in> set xs \<Longrightarrow> f x = Inr (g x)) \<Longrightarrow> comprehension f xs = Inr (map g xs)"
  by (induction xs) simp_all

lemma comprehension_length:
  "comprehension f xs = Inr ys \<Longrightarrow> length ys = length xs"
proof (induction xs arbitrary: ys)
  case Nil
  then show ?case by simp
next
  case (Cons x xs)
  then show ?case
    by (auto simp: bind_err_def split: sum.splits)
qed

section \<open>The ceil-padding algorithm\<close>

lemma ceil_out_code: "ceil_out s k t p =
     (let out = py_ceil_div (s + 2 * p - k) t + 1
      in if (out - 1) * t \<ge> s + p then out - 1 else out)"
  by (simp add: ceil_out_def py_ceil_div_def)

lemma comprehension_upt:
  "(\<And>i. i < n \<Longrightarrow> f i = Inr (g i)) \<Longrightarrow> comprehension f [0..<n] = Inr (map g [0..<n])"
  by (rule comprehension_total) simp

lemma stage1:
  assumes "n = length padding" "n \<le> length dims" "n \<le> length kernel_size" "n \<le> length stride"
    "\<forall>i<n. stride ! i \<noteq> 0"
  shows "ceiled_output_dim_first dims kernel_size stride padding =
    Inr (map (\<lambda>i. py_ceil_div (dims ! i + 2 * padding ! i - kernel_size ! i) (stride ! i) + 1) [0..<n])"
  unfolding ceiled_output_dim_first_def assms(1)[symmetric]
  by (rule comprehension_upt) (use assms in simp)

lemma stage2:
  assumes "n = length c" "n \<le> length dims" "n \<le> length padding" "n \<le> length stride"
  shows "ceiled_output_dim_inside c dims stride padding =
    Inr (map (\<lambda>i. if (c ! i - 1) * stride ! i \<ge> dims ! i + padding ! i then c ! i - 1 else c ! i) [0..<n])"
  unfolding ceiled_output_dim_inside_def assms(1)[symmetric]
  by (rule comprehension_upt) (use assms in simp)

lemma stage3:
  assumes "n = length padding" "n \<le> length dims" "n \<le> length kernel_size" "n \<le> length stride" "n \<le> length c"
  shows "padding_ceil_first c dims kernel_size stride padding =
    Inr (map (\<lambda>i. if stride ! i = 1 then 0 else kernel_size ! i - (dims ! i + 2 * padding ! i - ((c ! i - 1) * stride ! i + 1))) [0..<n])"
  unfolding padding_ceil_first_def assms(1)[symmetric]
  by (rule comprehension_upt) (use assms in simp)

lemma stage4:
  assumes "n = length e" "n \<le> length kernel_size" "n \<le> length padding"
  shows "padding_ceil_clamped e kernel_size padding =
    Inr (map (\<lambda>i. if e ! i + 2 * padding ! i \<ge> kernel_size ! i then min (e ! i) (kernel_size ! i - 1) else e ! i) [0..<n])"
  unfolding padding_ceil_clamped_def assms(1)[symmetric]
  by (rule comprehension_upt) (use assms in \<open>simp add: min_def\<close>)

lemma get_pool_ceil_padding_eq:
  assumes "length padding \<le> length sizes" "length padding \<le> length kernel_size"
    "length padding \<le> length stride" "\<forall>i<length padding. stride ! i \<noteq> 0"
  shows "get_pool_ceil_padding sizes kernel_size stride padding =
    Inr (map (\<lambda>i. ceil_extra (py_last_slice sizes (length padding) ! i) (kernel_size ! i) (stride ! i) (padding ! i))
      [0..<length padding])"
proof -
  define n where "n = length padding"
  define dims where "dims = py_last_slice sizes n"
  define c0 where "c0 = map (\<lambda>i. py_ceil_div (dims ! i + 2 * padding ! i - kernel_size ! i) (stride ! i) + 1) [0..<n]"
  define c1 where "c1 = map (\<lambda>i. if (c0 ! i - 1) * stride ! i \<ge> dims ! i + padding ! i then c0 ! i - 1 else c0 ! i) [0..<n]"
  define e0 where "e0 = map (\<lambda>i. if stride ! i = 1 then 0 else kernel_size ! i - (dims ! i + 2 * padding ! i - ((c1 ! i - 1) * stride ! i + 1))) [0..<n]"
  have ld: "n \<le> length dims" using assms(1) by (simp add: dims_def py_last_slice_def n_def)
  have lk: "n \<le> length kernel_size" and ls: "n \<le> length stride" and lp: "n \<le> length padding"
    and nz: "\<forall>i<n. stride ! i \<noteq> 0"
    using assms by (simp_all add: n_def)
  have s1: "ceiled_output_dim_first dims kernel_size stride padding = Inr c0"
    unfolding c0_def by (rule stage1[OF n_def ld lk ls nz])
  have s2: "ceiled_output_dim_inside c0 dims stride padding = Inr c1"
    unfolding c1_def by (rule stage2[OF _ ld lp ls]) (simp add: c0_def)
  have s3: "padding_ceil_first c1 dims kernel_size stride padding = Inr e0"
    unfolding e0_def by (rule stage3[OF n_def ld lk ls]) (simp add: c1_def)
  have s4: "padding_ceil_clamped e0 kernel_size padding =
    Inr (map (\<lambda>i. if e0 ! i + 2 * padding ! i \<ge> kernel_size ! i then min (e0 ! i) (kernel_size ! i - 1) else e0 ! i) [0..<n])"
    by (rule stage4[OF _ lk lp]) (simp add: e0_def)
  have "get_pool_ceil_padding sizes kernel_size stride padding =
    Inr (map (\<lambda>i. if e0 ! i + 2 * padding ! i \<ge> kernel_size ! i then min (e0 ! i) (kernel_size ! i - 1) else e0 ! i) [0..<n])"
    unfolding get_pool_ceil_padding_def Let_def n_def[symmetric] dims_def[symmetric]
    by (simp add: s1 s2 s3 s4)
  also have "map (\<lambda>i. if e0 ! i + 2 * padding ! i \<ge> kernel_size ! i then min (e0 ! i) (kernel_size ! i - 1) else e0 ! i) [0..<n]
    = map (\<lambda>i. ceil_extra (dims ! i) (kernel_size ! i) (stride ! i) (padding ! i)) [0..<n]"
    by (rule map_cong[OF refl]) (simp add: e0_def c1_def c0_def ceil_extra_def ceil_out_code Let_def)
  finally show ?thesis by (simp add: n_def dims_def)
qed




section \<open>Rounding to a floating-point format\<close>

lemma pow2_powi: "pow2 e = 2 powi e"
proof (cases "0 \<le> e")
  case True
  then show ?thesis by (simp add: pow2_def power_int_def)
next
  case False
  then have "pow2 e = (1 / 2) ^ nat (- e)" by (simp add: pow2_def power_one_over)
  then show ?thesis using False by (simp add: power_int_def inverse_eq_divide)
qed

lemma pow2_pos [simp]: "0 < pow2 e"
  by (simp add: pow2_powi)

lemma pow2_mono: "e1 \<le> e2 \<Longrightarrow> pow2 e1 \<le> pow2 e2"
  by (simp add: pow2_powi power_int_increasing)

lemma pow2_add: "pow2 (a + b) = pow2 a * pow2 b"
  by (simp add: pow2_powi power_int_add)

lemma pow2_nat: "pow2 (int n) = 2 ^ n"
  by (simp add: pow2_def)

lemma flog2_bounds:
  assumes "0 < q"
  shows "pow2 (flog2 q) \<le> q" and "q < pow2 (flog2 q + 1)"
proof -
  obtain n d where qo: "quotient_of q = (n, d)" by (cases "quotient_of q")
  then have d: "0 < d" and q: "q = of_int n / of_int d"
    using quotient_of_denom_pos quotient_of_div by blast+
  have n: "0 < n" using assms d q by (simp add: zero_less_divide_iff)
  define bn where "bn = bitlen n"
  define bd where "bd = bitlen d"
  have n1: "(2::int) ^ nat (bn - 1) \<le> n" and n2: "n < 2 ^ nat bn"
    using bitlen_bounds[OF n] by (simp_all add: bn_def)
  have d1: "(2::int) ^ nat (bd - 1) \<le> d" and d2: "d < 2 ^ nat bd"
    using bitlen_bounds[OF d] by (simp_all add: bd_def)
  have bn1: "1 \<le> bn" and bd1: "1 \<le> bd"
    using n d by (simp_all add: bn_def bd_def bitlen_alt_def)
  have rn1: "pow2 (bn - 1) \<le> of_int n"
  proof -
    have "pow2 (bn - 1) = of_int (2 ^ nat (bn - 1))" using bn1 by (simp add: pow2_def)
    also have "\<dots> \<le> of_int n" using n1 by (simp only: of_int_le_iff)
    finally show ?thesis .
  qed
  have rn2: "(of_int n :: rat) < pow2 bn"
  proof -
    have "(of_int n :: rat) < of_int (2 ^ nat bn)" using n2 by (simp only: of_int_less_iff)
    also have "\<dots> = pow2 bn" using bn1 by (simp add: pow2_def)
    finally show ?thesis .
  qed
  have rd1: "pow2 (bd - 1) \<le> of_int d"
  proof -
    have "pow2 (bd - 1) = of_int (2 ^ nat (bd - 1))" using bd1 by (simp add: pow2_def)
    also have "\<dots> \<le> of_int d" using d1 by (simp only: of_int_le_iff)
    finally show ?thesis .
  qed
  have rd2: "(of_int d :: rat) < pow2 bd"
  proof -
    have "(of_int d :: rat) < of_int (2 ^ nat bd)" using d2 by (simp only: of_int_less_iff)
    also have "\<dots> = pow2 bd" using bd1 by (simp add: pow2_def)
    finally show ?thesis .
  qed
  have dpos: "(0::rat) < of_int d" using d by simp
  have lo: "pow2 (bn - bd - 1) \<le> q"
  proof -
    have "pow2 (bn - bd - 1) * of_int d \<le> pow2 (bn - bd - 1) * pow2 bd"
      using rd2 by (simp add: mult_left_mono less_imp_le)
    also have "\<dots> = pow2 (bn - 1)" by (simp add: pow2_add[symmetric])
    also have "\<dots> \<le> of_int n" by (rule rn1)
    finally show ?thesis using dpos by (simp add: q pos_le_divide_eq)
  qed
  have hi: "q < pow2 (bn - bd + 1)"
  proof -
    have "of_int n < pow2 bn" by (rule rn2)
    also have "\<dots> = pow2 (bn - bd + 1) * pow2 (bd - 1)" by (simp add: pow2_add[symmetric])
    also have "\<dots> \<le> pow2 (bn - bd + 1) * of_int d"
      using rd1 by (simp add: mult_left_mono less_imp_le)
    finally show ?thesis using dpos by (simp add: q pos_divide_less_eq)
  qed
  have f: "flog2 q = (if pow2 (bn - bd) \<le> q then bn - bd else bn - bd - 1)"
    by (simp add: flog2_def qo Let_def bn_def bd_def)
  show "pow2 (flog2 q) \<le> q" using lo by (simp add: f)
  show "q < pow2 (flog2 q + 1)" using hi by (auto simp: f not_le)
qed

lemma round_half_even_near:
  "\<bar>of_int (round_half_even y) - y\<bar> \<le> 1 / 2"
proof -
  define f where "f = \<lfloor>y\<rfloor>"
  have a: "of_int f \<le> y" and b: "y < of_int f + 1"
    unfolding f_def by linarith+
  show ?thesis
    unfolding round_half_even_def Let_def f_def[symmetric]
    using a b by (auto simp: abs_if)
qed

lemma round_half_even_lower: "y - 1 / 2 \<le> of_int (round_half_even y)"
  using round_half_even_near[of y] by linarith

lemma round_half_even_ge_one:
  assumes "1 \<le> y"
  shows "1 \<le> round_half_even y"
proof -
  have "y - 1 / 2 \<le> of_int (round_half_even y)"
    using round_half_even_near[of y] by (simp add: abs_if split: if_splits)
  then have "(1 / 2 :: rat) \<le> of_int (round_half_even y)" using assms by linarith
  then have "(0::rat) < of_int (round_half_even y)" by linarith
  then have "0 < round_half_even y" by (simp only: of_int_0_less_iff)
  then show ?thesis by linarith
qed


text \<open>Rounding a number that is at least the least positive number of the format: the
  result is an infinity, or a finite number of the format's range that is at least half
  the argument.\<close>

lemma round_format_positive:
  assumes "pow2 (emin - (p - 1)) \<le> x" "1 \<le> p"
  shows "round_format p emin emax x = PosInf
     \<or> (\<exists>r. round_format p emin emax x = Finite r \<and> x / 2 \<le> r
            \<and> pow2 (emin - (p - 1)) \<le> r \<and> r < pow2 (emax + 1))"
proof -
  have x: "0 < x" using assms(1) pow2_pos[of "emin - (p - 1)"] by linarith
  define e where "e = max (flog2 x) emin"
  define ulp where "ulp = pow2 (e - (p - 1))"
  define m where "m = round_half_even (x / ulp)"
  define r where "r = of_int m * ulp"
  have up: "0 < ulp" by (simp add: ulp_def)
  have tiny: "pow2 (emin - (p - 1)) \<le> ulp"
    unfolding ulp_def by (rule pow2_mono) (simp add: e_def)
  have ulp_le: "ulp \<le> x"
  proof (cases "emin \<le> flog2 x")
    case True
    then have "e = flog2 x" by (simp add: e_def)
    then have "ulp \<le> pow2 (flog2 x)"
      unfolding ulp_def using assms(2) by (intro pow2_mono) simp
    then show ?thesis using flog2_bounds(1)[OF x] by linarith
  next
    case False
    then have "e = emin" by (simp add: e_def)
    then show ?thesis using assms(1) by (simp add: ulp_def)
  qed
  have y1: "1 \<le> x / ulp" using ulp_le up by (simp add: pos_le_divide_eq)
  have m1: "1 \<le> m" unfolding m_def by (rule round_half_even_ge_one[OF y1])
  have "x / ulp - 1 / 2 \<le> of_int m"
    unfolding m_def by (rule round_half_even_lower)
  then have "(x / ulp - 1 / 2) * ulp \<le> of_int m * ulp"
    using up by (simp only: mult_le_cancel_right_pos)
  then have "x - ulp / 2 \<le> r"
    using up by (simp add: r_def algebra_simps)
  then have half: "x / 2 \<le> r" using ulp_le by linarith
  have "1 * ulp \<le> of_int m * ulp"
    using m1 up by (intro mult_right_mono) simp_all
  then have rt: "pow2 (emin - (p - 1)) \<le> r" using tiny by (simp add: r_def)
  have rf: "round_format p emin emax x = (if pow2 (emax + 1) \<le> r then PosInf else Finite r)"
    using x by (simp add: round_format_def Let_def e_def ulp_def m_def r_def)
  show ?thesis
  proof (cases "pow2 (emax + 1) \<le> r")
    case True
    then show ?thesis by (simp add: rf)
  next
    case False
    then show ?thesis using half rt by (simp add: rf)
  qed
qed

lemma round64_positive:
  assumes "tiny64 \<le> x"
  shows "round64 x = PosInf
     \<or> (\<exists>r. round64 x = Finite r \<and> x / 2 \<le> r \<and> tiny64 \<le> r \<and> r < pow2 1024)"
  using round_format_positive[of "- 1022" 53 x 1023] assms
  by (simp add: round64_def tiny64_def)

lemma positive_double_range:
  assumes "positive_double q"
  shows "tiny64 \<le> q" and "q < pow2 1024"
proof -
  have q: "0 < q" and r: "round64 q = Finite q"
    using assms by (simp_all add: positive_double_def)
  define e where "e = max (flog2 q) (- 1022)"
  define ulp where "ulp = pow2 (e - 52)"
  define m where "m = round_half_even (q / ulp)"
  have up: "0 < ulp" by (simp add: ulp_def)
  have rf: "round64 q = (if pow2 1024 \<le> of_int m * ulp then PosInf else Finite (of_int m * ulp))"
    using q by (simp add: round64_def round_format_def Let_def e_def ulp_def m_def abs_if)
  from r rf have nov: "\<not> pow2 1024 \<le> of_int m * ulp" and eq: "of_int m * ulp = q"
    by (auto split: if_splits)
  show "q < pow2 1024" using nov eq by simp
  have "0 < of_int m * ulp" using q eq by simp
  then have "(0::rat) < of_int m" using up by (simp add: zero_less_mult_iff)
  then have "1 \<le> m" by simp
  then have "1 * ulp \<le> of_int m * ulp" using up by (intro mult_right_mono) simp_all
  moreover have "tiny64 \<le> ulp"
    unfolding tiny64_def ulp_def by (rule pow2_mono) (simp add: e_def)
  ultimately show "tiny64 \<le> q" using eq by simp
qed

lemma pow2_less_iff: "pow2 a < pow2 b \<longleftrightarrow> a < b"
proof
  assume l: "pow2 a < pow2 b"
  show "a < b"
  proof (rule ccontr)
    assume "\<not> a < b"
    then have "pow2 b \<le> pow2 a" by (intro pow2_mono) simp
    then show False using l by simp
  qed
next
  assume "a < b"
  then have "a + 1 \<le> b" by simp
  then have "pow2 (a + 1) \<le> pow2 b" by (rule pow2_mono)
  moreover have "pow2 (a + 1) = 2 * pow2 a"
  proof -
    have "pow2 (a + 1) = pow2 a * pow2 1" by (rule pow2_add)
    then show ?thesis by (simp add: pow2_def)
  qed
  moreover have "0 < pow2 a" by simp
  ultimately show "pow2 a < pow2 b" by linarith
qed

lemma flog2_mono:
  assumes "0 < y" "y \<le> x"
  shows "flog2 y \<le> flog2 x"
proof -
  have x: "0 < x" using assms by linarith
  have "pow2 (flog2 y) \<le> y" by (rule flog2_bounds(1)[OF assms(1)])
  also have "y \<le> x" by (rule assms(2))
  also have "x < pow2 (flog2 x + 1)" by (rule flog2_bounds(2)[OF x])
  finally have "flog2 y < flog2 x + 1" by (simp only: pow2_less_iff)
  then show ?thesis by simp
qed

lemma flog2_ge:
  assumes "pow2 e \<le> x"
  shows "e \<le> flog2 x"
proof -
  have x: "0 < x" using assms pow2_pos[of e] by linarith
  have "pow2 e \<le> x" by (rule assms)
  also have "x < pow2 (flog2 x + 1)" by (rule flog2_bounds(2)[OF x])
  finally have "e < flog2 x + 1" by (simp only: pow2_less_iff)
  then show ?thesis by simp
qed

lemma flog2_less:
  assumes "0 < x" "x < pow2 e"
  shows "flog2 x < e"
proof -
  have "pow2 (flog2 x) \<le> x" by (rule flog2_bounds(1)[OF assms(1)])
  also have "x < pow2 e" by (rule assms(2))
  finally show ?thesis by (simp only: pow2_less_iff)
qed

lemma round_half_even_ge_int:
  assumes "of_int n \<le> z"
  shows "n \<le> round_half_even z"
proof -
  have "z - 1 / 2 \<le> of_int (round_half_even z)" by (rule round_half_even_lower)
  then have "(of_int n :: rat) - 1 / 2 \<le> of_int (round_half_even z)" using assms by linarith
  then have "(of_int n :: rat) < of_int (round_half_even z) + 1" by linarith
  then have "(of_int n :: rat) < of_int (round_half_even z + 1)" by simp
  then have "n < round_half_even z + 1" by (simp only: of_int_less_iff)
  then show ?thesis by simp
qed

lemma round_half_even_le_int:
  assumes "z \<le> of_int n"
  shows "round_half_even z \<le> n"
proof -
  have "of_int (round_half_even z) \<le> z + 1 / 2"
    using round_half_even_near[of z] by (simp add: abs_if split: if_splits)
  then have "of_int (round_half_even z) \<le> (of_int n :: rat) + 1 / 2" using assms by linarith
  then have "of_int (round_half_even z) < (of_int n :: rat) + 1" by linarith
  then have "(of_int (round_half_even z) :: rat) < of_int (n + 1)" by simp
  then have "round_half_even z < n + 1" by (simp only: of_int_less_iff)
  then show ?thesis by simp
qed

lemma round_half_even_of_int [simp]: "round_half_even (of_int n) = n"
  using round_half_even_ge_int[of n "of_int n"] round_half_even_le_int[of "of_int n" n] by simp

lemma round_half_even_gt_int:
  assumes "of_int n + 1 / 2 < z"
  shows "n < round_half_even z"
proof -
  have "z - 1 / 2 \<le> of_int (round_half_even z)" by (rule round_half_even_lower)
  then have "(of_int n :: rat) < of_int (round_half_even z)" using assms by linarith
  then show ?thesis by (simp only: of_int_less_iff)
qed

lemma round_half_even_lt_int:
  assumes "z < of_int n - 1 / 2"
  shows "round_half_even z < n"
proof -
  have "of_int (round_half_even z) \<le> z + 1 / 2"
    using round_half_even_near[of z] by (simp add: abs_if split: if_splits)
  then have "of_int (round_half_even z) < (of_int n :: rat)" using assms by linarith
  then show ?thesis by (simp only: of_int_less_iff)
qed

text \<open>The shape of the result for a positive argument.\<close>

lemma round_format_pos_unfold:
  assumes "0 < x"
  shows "round_format p emin emax x =
    (let r = of_int (round_half_even (x / pow2 (max (flog2 x) emin - (p - 1))))
               * pow2 (max (flog2 x) emin - (p - 1))
     in if pow2 (emax + 1) \<le> r then PosInf else Finite r)"
  using assms by (simp add: round_format_def Let_def)

lemma round_format_neg_unfold:
  assumes "0 < x"
  shows "round_format p emin emax (- x) =
    (let r = of_int (round_half_even (x / pow2 (max (flog2 x) emin - (p - 1))))
               * pow2 (max (flog2 x) emin - (p - 1))
     in if pow2 (emax + 1) \<le> r then NegInf else if r = 0 then NegZero else Finite (- r))"
  using assms by (simp add: round_format_def Let_def)

text \<open>Rounding does not go below a number of the format that the argument is not below.\<close>

lemma round_format_ge:
  assumes y: "0 < y" and rep: "round_format p emin emax y = Finite y" and le: "y \<le> x"
    and p: "1 \<le> p"
  shows "round_format p emin emax x = PosInf
     \<or> (\<exists>r. round_format p emin emax x = Finite r \<and> y \<le> r)"
proof -
  have x: "0 < x" using y le by linarith
  define ey where "ey = max (flog2 y) emin"
  define uy where "uy = pow2 (ey - (p - 1))"
  define my where "my = round_half_even (y / uy)"
  define ex where "ex = max (flog2 x) emin"
  define ux where "ux = pow2 (ex - (p - 1))"
  define mx where "mx = round_half_even (x / ux)"
  have uyp: "0 < uy" and uxp: "0 < ux" by (simp_all add: uy_def ux_def)
  have "round_format p emin emax y =
      (if pow2 (emax + 1) \<le> of_int my * uy then PosInf else Finite (of_int my * uy))"
    unfolding round_format_pos_unfold[OF y] Let_def my_def uy_def ey_def ..
  with rep have yeq: "of_int my * uy = y" by (auto split: if_splits)
  have rx: "round_format p emin emax x =
      (if pow2 (emax + 1) \<le> of_int mx * ux then PosInf else Finite (of_int mx * ux))"
    unfolding round_format_pos_unfold[OF x] Let_def mx_def ux_def ex_def ..
  have ee: "ey \<le> ex" using flog2_mono[OF y le] by (simp add: ey_def ex_def)
  have "y \<le> of_int mx * ux"
  proof (cases "ey = ex")
    case True
    then have u: "ux = uy" by (simp add: ux_def uy_def)
    have "y / uy \<le> x / uy" using le uyp by (simp add: divide_right_mono)
    moreover have "y / uy = of_int my" using yeq uyp by (simp add: field_simps)
    ultimately have "of_int my \<le> x / ux" by (simp add: u)
    then have "my \<le> mx" unfolding mx_def by (rule round_half_even_ge_int)
    then have "(of_int my :: rat) \<le> of_int mx" by simp
    then have "of_int my * uy \<le> of_int mx * uy" using uyp by (simp add: mult_right_mono)
    then show ?thesis by (simp add: yeq u)
  next
    case False
    then have lt: "ey < ex" using ee by simp
    have "emin \<le> ey" by (simp add: ey_def)
    then have exf: "ex = flog2 x" using lt by (simp add: ex_def max_def split: if_splits)
    have lo: "pow2 ex \<le> x" unfolding exf by (rule flog2_bounds(1)[OF x])
    have "pow2 (p - 1) = pow2 ex / ux"
    proof -
      have "pow2 ex = pow2 ((p - 1) + (ex - (p - 1)))" by simp
      also have "\<dots> = pow2 (p - 1) * ux" unfolding ux_def by (rule pow2_add)
      finally show ?thesis using uxp by simp
    qed
    also have "\<dots> \<le> x / ux" using lo uxp by (simp add: divide_right_mono)
    finally have "pow2 (p - 1) \<le> x / ux" .
    moreover have "pow2 (p - 1) = of_int (2 ^ nat (p - 1))" using p by (simp add: pow2_def)
    ultimately have "of_int (2 ^ nat (p - 1)) \<le> x / ux" by simp
    then have "2 ^ nat (p - 1) \<le> mx" unfolding mx_def by (rule round_half_even_ge_int)
    then have "(of_int (2 ^ nat (p - 1)) :: rat) \<le> of_int mx" by (simp only: of_int_le_iff)
    then have "pow2 (p - 1) \<le> of_int mx" using p by (simp add: pow2_def)
    then have "pow2 (p - 1) * ux \<le> of_int mx * ux" using uxp by (simp add: mult_right_mono)
    moreover have "pow2 (p - 1) * ux = pow2 ex" by (simp add: ux_def pow2_add[symmetric])
    ultimately have big: "pow2 ex \<le> of_int mx * ux" by simp
    have "y < pow2 (flog2 y + 1)" by (rule flog2_bounds(2)[OF y])
    also have "\<dots> \<le> pow2 (ey + 1)" by (rule pow2_mono) (simp add: ey_def)
    also have "\<dots> \<le> pow2 ex" by (rule pow2_mono) (use lt in simp)
    finally show ?thesis using big by linarith
  qed
  then show ?thesis by (simp add: rx)
qed

text \<open>A number that is a multiple of the spacing at its own size is not changed.\<close>

lemma round_format_exact:
  assumes x: "0 < x" and m: "x = of_int m * pow2 (max (flog2 x) emin - (p - 1))"
    and b: "x < pow2 (emax + 1)"
  shows "round_format p emin emax x = Finite x" "round_format p emin emax (- x) = Finite (- x)"
proof -
  define u where "u = pow2 (max (flog2 x) emin - (p - 1))"
  have up: "0 < u" by (simp add: u_def)
  have xm: "x = of_int m * u" unfolding u_def by (rule m)
  have "of_int m * u / u = (of_int m :: rat)" using up by simp
  then have "x / u = of_int m" by (simp only: xm[symmetric])
  then have "of_int (round_half_even (x / u)) * u = of_int m * u" by simp
  then have r: "of_int (round_half_even (x / u)) * u = x" by (simp only: xm[symmetric])
  show "round_format p emin emax x = Finite x"
    unfolding round_format_pos_unfold[OF x] Let_def u_def[symmetric] r using b by simp
  show "round_format p emin emax (- x) = Finite (- x)"
    unfolding round_format_neg_unfold[OF x] Let_def u_def[symmetric] r using b x by simp
qed

lemma round64_of_int:
  assumes "\<bar>n\<bar> < 2 ^ 53"
  shows "round64 (of_int n) = Finite (of_int n)"
proof (cases "n = 0")
  case True
  then show ?thesis by (simp add: round64_def round_format_def)
next
  case False
  define a :: rat where "a = of_int \<bar>n\<bar>"
  have a1: "1 \<le> a" using False by (simp add: a_def) 
  have a0: "0 < a" using a1 by linarith
  have "(of_int \<bar>n\<bar> :: rat) < of_int (2 ^ 53)" using assms by (simp only: of_int_less_iff)
  then have a2: "a < pow2 53" by (simp add: a_def pow2_def)
  define e where "e = flog2 a"
  have "pow2 0 \<le> a" using a1 by (simp add: pow2_def)
  then have e0: "0 \<le> e" unfolding e_def by (rule flog2_ge)
  have e1: "e < 53" unfolding e_def by (rule flog2_less[OF a0 a2])
  have me: "max (flog2 a) (- 1022) = e" using e0 by (simp add: e_def)
  have u: "pow2 (e - 52) = 1 / 2 ^ nat (52 - e)"
    using e1 by (simp add: pow2_def)
  have h: "a = of_int (\<bar>n\<bar> * 2 ^ nat (52 - e)) * pow2 (e - 52)"
    unfolding a_def by (simp add: u)
  have pe: "pow2 (max (flog2 a) (- 1022) - (53 - 1)) = pow2 (e - 52)" by (simp add: me)
  have m: "a = of_int (\<bar>n\<bar> * 2 ^ nat (52 - e)) * pow2 (max (flog2 a) (- 1022) - (53 - 1))"
    unfolding pe by (rule h)
  have "pow2 53 \<le> pow2 (1023 + 1)" by (rule pow2_mono) simp
  then have b: "a < pow2 (1023 + 1)" using a2 by linarith
  note ex = round_format_exact[OF a0 m b]
  show ?thesis
  proof (cases "0 < n")
    case True
    then show ?thesis using ex(1) by (simp add: round64_def a_def)
  next
    case neg: False
    then have "of_int n = - a" using False by (simp add: a_def)
    then show ?thesis using ex(2) by (simp add: round64_def)
  qed
qed

text \<open>The binary64 quotient of two integers below \<open>2^53\<close> that do not divide lies strictly
  between the integers next to the exact quotient.\<close>

lemma round64_quotient:
  assumes b: "0 < b" "b < 2 ^ 53" and t: "0 < t" "t < 2 ^ 53" and nd: "\<not> t dvd b"
  shows "\<exists>r. round64 (of_int b / of_int t) = Finite r
     \<and> of_int (b div t) < r \<and> r < of_int (b div t) + 1
     \<and> of_int (b div t) < (of_int b / of_int t :: rat)
     \<and> (of_int b / of_int t :: rat) < of_int (b div t) + 1"
proof -
  define x :: rat where "x = of_int b / of_int t"
  define M where "M = b div t"
  define rm where "rm = b mod t"
  have tq: "(0::rat) < of_int t" using t(1) by simp
  have "rm \<noteq> 0" using nd by (simp add: rm_def dvd_eq_mod_eq_0)
  moreover have "0 \<le> rm" using t(1) by (simp add: rm_def)
  ultimately have rm0: "0 < rm" by linarith
  have "rm < t" using t(1) by (simp add: rm_def)
  note rm = rm0 this
  have beq: "b = M * t + rm" by (simp add: M_def rm_def)
  have xM: "x = of_int M + of_int rm / of_int t"
    using tq by (simp add: x_def beq field_simps)
  have M0: "0 \<le> M" using b(1) t(1) by (simp add: M_def pos_imp_zdiv_nonneg_iff)
  have lo1: "1 / of_int t \<le> x - of_int M"
  proof -
    have "(1::rat) \<le> of_int rm" using rm(1) by simp
    then show ?thesis using tq by (simp add: xM divide_right_mono)
  qed
  have hi1: "1 / of_int t \<le> of_int M + 1 - x"
  proof -
    have "(1::rat) \<le> of_int (t - rm)" using rm(2) by simp
    then have "1 / of_int t \<le> of_int (t - rm) / (of_int t :: rat)"
      using tq by (simp only: divide_right_mono less_imp_le)
    also have "\<dots> = of_int M + 1 - x" using tq by (simp add: xM field_simps)
    finally show ?thesis .
  qed
  have x0: "0 < x" using b(1) tq by (simp add: x_def)
  have bq: "(of_int b :: rat) < pow2 53"
  proof -
    have "(of_int b :: rat) < of_int (2 ^ 53)" using b(2) by (simp only: of_int_less_iff)
    then show ?thesis by (simp add: pow2_def)
  qed
  have tq2: "(of_int t :: rat) < pow2 53"
  proof -
    have "(of_int t :: rat) < of_int (2 ^ 53)" using t(2) by (simp only: of_int_less_iff)
    then show ?thesis by (simp add: pow2_def)
  qed
  have t1: "(1::rat) \<le> of_int t" using t(1) by simp
  have xb: "x \<le> of_int b"
  proof -
    have "of_int b / of_int t \<le> (of_int b :: rat) / 1"
      by (rule divide_left_mono) (use b(1) t1 in simp_all)
    then show ?thesis by (simp add: x_def)
  qed
  define e where "e = flog2 x"
  have e_hi: "e < 53" unfolding e_def by (rule flog2_less[OF x0]) (use xb bq in linarith)
  have "pow2 (- 53) \<le> x"
  proof -
    have "pow2 (- 53) = 1 / pow2 53" by (simp add: pow2_def)
    also have "\<dots> \<le> 1 / of_int t"
      by (rule divide_left_mono) (use tq tq2 in \<open>simp_all add: less_imp_le\<close>)
    also have "\<dots> \<le> x - of_int M" by (rule lo1)
    also have "\<dots> \<le> x" using M0 by simp
    finally show ?thesis .
  qed
  then have e_lo: "- 53 \<le> e" unfolding e_def by (rule flog2_ge)
  have me: "max (flog2 x) (- 1022) = e" using e_lo by (simp add: e_def)
  define K :: int where "K = 2 ^ nat (52 - e)"
  define u where "u = pow2 (e - 52)"
  have Kp: "0 < K" by (simp add: K_def)
  have u: "u = 1 / of_int K" using e_hi by (simp add: u_def K_def pow2_def)
  have up: "0 < u" by (simp add: u_def)
  define z where "z = x / u"
  have z: "z = x * of_int K" by (simp add: z_def u)
  define m where "m = round_half_even z"
  text \<open>the stride is below twice \<open>K\<close>\<close>
  have "of_int t * pow2 e \<le> of_int t * x"
    unfolding e_def using flog2_bounds(1)[OF x0] tq by (simp add: mult_left_mono)
  also have "of_int t * x = of_int b" using tq by (simp add: x_def)
  also have "(of_int b :: rat) < pow2 53" by (rule bq)
  also have "pow2 53 = pow2 (53 - e) * pow2 e" by (simp add: pow2_add[symmetric])
  finally have "of_int t < pow2 (53 - e)" by simp
  moreover have "pow2 (53 - e) = 2 * of_int K"
  proof -
    have "pow2 (53 - e) = pow2 (1 + (52 - e))" by simp
    also have "\<dots> = pow2 1 * pow2 (52 - e)" by (rule pow2_add)
    also have "\<dots> = 2 * of_int K" using e_hi by (simp add: pow2_def K_def)
    finally show ?thesis .
  qed
  ultimately have t2K: "of_int t < 2 * (of_int K :: rat)" by simp
  have Kq: "(0::rat) < of_int K" using Kp by simp
  have half: "1 / 2 < of_int K / (of_int t :: rat)"
    using t2K tq by (simp add: field_simps)
  have "of_int K / of_int t = (1 / of_int t) * (of_int K :: rat)" by simp
  also have "\<dots> \<le> (x - of_int M) * of_int K"
    using lo1 Kq by (simp only: mult_right_mono less_imp_le)
  finally have "of_int K / of_int t \<le> z - of_int (M * K)" by (simp add: z algebra_simps)
  then have "of_int (M * K) + 1 / 2 < z" using half by linarith
  then have m_lo: "M * K < m" unfolding m_def by (rule round_half_even_gt_int)
  have "of_int K / of_int t = (1 / of_int t) * (of_int K :: rat)" by simp
  also have "\<dots> \<le> (of_int M + 1 - x) * of_int K"
    using hi1 Kq by (simp only: mult_right_mono less_imp_le)
  finally have "of_int K / of_int t \<le> of_int ((M + 1) * K) - z" by (simp add: z algebra_simps)
  then have "z < of_int ((M + 1) * K) - 1 / 2" using half by linarith
  then have m_hi: "m < (M + 1) * K" unfolding m_def by (rule round_half_even_lt_int)
  define r where "r = of_int m * u"
  have r: "r = of_int m / of_int K" by (simp add: r_def u)
  have r_lo: "of_int M < r"
  proof -
    have "(of_int (M * K) :: rat) < of_int m" using m_lo by (simp only: of_int_less_iff)
    then show ?thesis using Kq by (simp add: r pos_less_divide_eq)
  qed
  have r_hi: "r < of_int M + 1"
  proof -
    have "(of_int m :: rat) < of_int ((M + 1) * K)" using m_hi by (simp only: of_int_less_iff)
    then show ?thesis using Kq by (simp add: r pos_divide_less_eq)
  qed
  have Mb: "of_int M + 1 \<le> (of_int b :: rat)"
  proof -
    have "M * 1 \<le> M * t" using M0 t(1) by (intro mult_left_mono) simp_all
    then have "M < b" using rm(1) beq by linarith
    then have "M + 1 \<le> b" by simp
    then have "(of_int (M + 1) :: rat) \<le> of_int b" by (simp only: of_int_le_iff)
    then show ?thesis by simp
  qed
  have "pow2 53 \<le> pow2 (1023 + 1)" by (rule pow2_mono) simp
  then have nov: "\<not> pow2 (1023 + 1) \<le> r" using r_hi Mb bq by linarith
  have "round64 x = Finite r"
    unfolding round64_def round_format_pos_unfold[OF x0] Let_def me
    using nov by (simp add: r_def u_def m_def z_def)
  moreover have "0 < 1 / (of_int t :: rat)" using tq by simp
  then have "of_int M < x" "x < of_int M + 1" using lo1 hi1 by linarith+
  ultimately show ?thesis using r_lo r_hi by (auto simp: x_def M_def)
qed

lemma round_format_negate:
  assumes "0 < x" "round_format p emin emax x = Finite r" "r \<noteq> 0"
  shows "round_format p emin emax (- x) = Finite (- r)"
  using assms(2,3)
  unfolding round_format_pos_unfold[OF assms(1)] round_format_neg_unfold[OF assms(1)] Let_def
  by (auto split: if_splits)

lemma py_float_small:
  assumes "\<bar>n\<bar> < 2 ^ 53"
  shows "py_float n = Inr (Finite (of_int n))"
  by (simp add: py_float_def round64_of_int[OF assms])

lemma round64_quotient_ceiling:
  assumes a: "a \<noteq> 0" "\<bar>a\<bar> < 2 ^ 53" and t: "t \<noteq> 0" "\<bar>t\<bar> < 2 ^ 53"
  shows "\<exists>r. round64 (of_int a / of_int t) = Finite r
     \<and> \<lceil>r\<rceil> = \<lceil>(of_int a / of_int t :: rat)\<rceil>"
proof (cases "t dvd a")
  case True
  then obtain c where c: "a = t * c" by (auto simp: dvd_def)
  have "\<bar>c\<bar> * 1 \<le> \<bar>c\<bar> * \<bar>t\<bar>" using t(1) by (intro mult_left_mono) simp_all
  then have "\<bar>c\<bar> \<le> \<bar>a\<bar>" by (simp add: c abs_mult mult.commute)
  then have cb: "\<bar>c\<bar> < 2 ^ 53" using a(2) by linarith
  have "(of_int a / of_int t :: rat) = of_int c" using t(1) by (simp add: c)
  then show ?thesis using round64_of_int[OF cb] by simp
next
  case False
  define b where "b = \<bar>a\<bar>"
  define s where "s = \<bar>t\<bar>"
  have b: "0 < b" "b < 2 ^ 53" using a by (simp_all add: b_def)
  have s: "0 < s" "s < 2 ^ 53" using t by (simp_all add: s_def)
  have nd: "\<not> s dvd b" using False by (simp add: s_def b_def)
  define x :: rat where "x = of_int b / of_int s"
  define M where "M = b div s"
  from round64_quotient[OF b s nd] obtain r where
    r: "round64 x = Finite r" "of_int M < r" "r < of_int M + 1" "of_int M < x" "x < of_int M + 1"
    unfolding x_def M_def by blast
  have x0: "0 < x" using b(1) s(1) by (simp add: x_def)
  have M0: "0 \<le> M" using b(1) s(1) by (simp add: M_def pos_imp_zdiv_nonneg_iff)
  have r0: "r \<noteq> 0" using r(2) M0 by auto
  have cr: "\<lceil>r\<rceil> = M + 1" by (rule ceiling_unique) (use r(2,3) in simp_all)
  have cx: "\<lceil>x\<rceil> = M + 1" by (rule ceiling_unique) (use r(4,5) in simp_all)
  have cnr: "\<lceil>- r\<rceil> = - M" by (rule ceiling_unique) (use r(2,3) in simp_all)
  have cnx: "\<lceil>- x\<rceil> = - M" by (rule ceiling_unique) (use r(4,5) in simp_all)
  show ?thesis
  proof (cases "(0 < a) = (0 < t)")
    case True
    then have "(of_int a / of_int t :: rat) = x"
      using a(1) t(1) by (auto simp: x_def b_def s_def abs_if)
    then show ?thesis using r(1) cr cx by simp
  next
    case False
    then have e: "(of_int a / of_int t :: rat) = - x"
      using a(1) t(1) by (auto simp: x_def b_def s_def abs_if)
    have "round64 (- x) = Finite (- r)"
      using round_format_negate[OF x0 _ r0] r(1) by (simp add: round64_def)
    then show ?thesis using cnr cnx by (simp add: e)
  qed
qed

text \<open>The source's quotient, taken in binary64, has the ceiling of the exact quotient when
  both operands are below \<open>2^53\<close> in absolute value.\<close>

lemma binary64_ceil_div_exact:
  assumes "\<bar>a\<bar> < 2 ^ 53" "t \<noteq> 0" "\<bar>t\<bar> < 2 ^ 53"
  shows "binary64_ceil_div a t = Inr (py_ceil_div a t)"
proof -
  have c: "py_ceil_div a t = \<lceil>(of_int a / of_int t :: rat)\<rceil>"
    by (simp add: py_ceil_div_code ceiling_divide_eq_div)
  have "math_ceil (ieee_div round64 (Finite (of_int a)) (Finite (of_int t))) = Inr (py_ceil_div a t)"
  proof (cases "a = 0")
    case True
    then show ?thesis
      using assms(2) by (simp add: ieee_div_def zero_of_def py_ceil_div_def)
  next
    case False
    from round64_quotient_ceiling[OF False assms] obtain r where
      r: "round64 (of_int a / of_int t) = Finite r" "\<lceil>r\<rceil> = \<lceil>(of_int a / of_int t :: rat)\<rceil>"
      by blast
    have "ieee_div round64 (Finite (of_int a)) (Finite (of_int t)) = Finite r"
      using False assms(2) r(1) by (simp add: ieee_div_def)
    then show ?thesis by (simp add: r(2) c)
  qed
  then show ?thesis
    unfolding binary64_ceil_div_def py_float_small[OF assms(1)] py_float_small[OF assms(3)]
    using assms(2) by (simp add: fdiv64_def)
qed

section \<open>The extra padding of \<^verbatim>\<open>get_pool_ceil_padding\<close>\<close>

text \<open>
  Claim C1, as amended. For a shape with at least as many entries as \<open>padding\<close>, kernel
  and stride lists at least as long as \<open>padding\<close>, non-zero strides, and every
  \<open>s + 2p - k\<close> and every stride below \<open>2^53\<close> in absolute value, the binary64 quotient
  that the source rounds up has the ceiling of the exact quotient, and
  \<open>get_pool_ceil_padding\<close> returns, for every spatial dimension \<open>i\<close>, the extra padding
  of the per-dimension algorithm whose output size is rounded up:
  \<open>out = ceil((s + 2p - k)/t) + 1\<close>, decremented when \<open>(out-1)*t \<ge> s+p\<close>;
  \<open>extra = 0\<close> when \<open>t = 1\<close>, else \<open>k - (s + 2p - ((out-1)*t + 1))\<close>; \<open>extra\<close> bounded by
  \<open>k - 1\<close> when \<open>extra + 2p \<ge> k\<close>. For size 5, kernel 3, stride 2, padding 0 the output
  size is 2 and the extra padding 1; for size 4, kernel 2, stride 1, padding 0 the extra
  padding is 0.
\<close>

theorem get_pool_ceil_padding_rounds_up:
  assumes "length padding \<le> length sizes" "length padding \<le> length kernel_size"
    "length padding \<le> length stride" "\<forall>i<length padding. stride ! i \<noteq> 0"
    "\<forall>i<length padding.
        \<bar>py_last_slice sizes (length padding) ! i + 2 * padding ! i - kernel_size ! i\<bar> < 2 ^ 53
      \<and> \<bar>stride ! i\<bar> < 2 ^ 53"
  shows "get_pool_ceil_padding sizes kernel_size stride padding =
      Inr (map (\<lambda>i. ceil_extra (py_last_slice sizes (length padding) ! i)
                  (kernel_size ! i) (stride ! i) (padding ! i)) [0..<length padding])
    \<and> (\<forall>i<length padding.
         binary64_ceil_div
           (py_last_slice sizes (length padding) ! i + 2 * padding ! i - kernel_size ! i) (stride ! i)
         = Inr \<lceil>real_of_int (py_last_slice sizes (length padding) ! i + 2 * padding ! i - kernel_size ! i)
                / real_of_int (stride ! i)\<rceil>)
    \<and> ceil_out 5 3 2 0 = 2
    \<and> get_pool_ceil_padding [1, 1, 5, 5] [3, 3] [2, 2] [0, 0] = Inr [1, 1]
    \<and> get_pool_ceil_padding [1, 1, 4, 4] [2, 2] [1, 1] [0, 0] = Inr [0, 0]"
proof -
  have "ceil_out 5 3 2 0 = 2"
    by (simp add: ceil_out_def Let_def)
  moreover have "get_pool_ceil_padding [1, 1, 5, 5] [3, 3] [2, 2] [0, 0] = Inr [1, 1]"
    by code_simp
  moreover have "get_pool_ceil_padding [1, 1, 4, 4] [2, 2] [1, 1] [0, 0] = Inr [0, 0]"
    by code_simp
  moreover have "\<forall>i<length padding.
         binary64_ceil_div
           (py_last_slice sizes (length padding) ! i + 2 * padding ! i - kernel_size ! i) (stride ! i)
         = Inr \<lceil>real_of_int (py_last_slice sizes (length padding) ! i + 2 * padding ! i - kernel_size ! i)
                / real_of_int (stride ! i)\<rceil>"
  proof (intro allI impI)
    fix i assume i: "i < length padding"
    have b: "\<bar>py_last_slice sizes (length padding) ! i + 2 * padding ! i - kernel_size ! i\<bar> < 2 ^ 53"
      "\<bar>stride ! i\<bar> < 2 ^ 53" "stride ! i \<noteq> 0"
      using assms(4,5) i by simp_all
    show "binary64_ceil_div
           (py_last_slice sizes (length padding) ! i + 2 * padding ! i - kernel_size ! i) (stride ! i)
         = Inr \<lceil>real_of_int (py_last_slice sizes (length padding) ! i + 2 * padding ! i - kernel_size ! i)
                / real_of_int (stride ! i)\<rceil>"
      unfolding binary64_ceil_div_exact[OF b(1) b(3) b(2)] py_ceil_div_def ..
  qed
  ultimately show ?thesis
    using get_pool_ceil_padding_eq[OF assms(1-4)] by simp
qed

theorem get_pool_ceil_padding_rounds_up_witness:
  "get_pool_ceil_padding [1, 1, 10, 10] [3, 3] [3, 3] [1, 1] =
     Inr [ceil_extra 10 3 3 1, ceil_extra 10 3 3 1]
   \<and> binary64_ceil_div (10 + 2 * 1 - 3) 3 = Inr 3"
  using get_pool_ceil_padding_rounds_up[of "[1, 1]" "[1, 1, 10, 10]" "[3, 3]" "[3, 3]"]
  by (simp add: py_last_slice_def upt_rec[of 0] upt_rec[of 1] less_Suc_eq numeral_2_eq_2)

text \<open>
  Claim C1 as the specification words it (output size rounded down) fails: for size 6,
  kernel 3, stride 2, padding 0 the source rounds 1.5 up to 2 and returns the extra
  padding 2, where the rounded-down algorithm gives 0.
\<close>

theorem get_pool_ceil_padding_floor_counterexample:
  "binary64_ceil_div (6 + 2 * 0 - 3) 2 = Inr 2
   \<and> get_pool_ceil_padding [1, 1, 6, 6] [3, 3] [2, 2] [0, 0] = Inr [2, 2]
   \<and> spec_floor_extra 6 3 2 0 = 0"
proof (intro conjI)
  have "binary64_ceil_div 3 2 = Inr (py_ceil_div 3 2)"
    by (rule binary64_ceil_div_exact) simp_all
  then show "binary64_ceil_div (6 + 2 * 0 - 3) 2 = Inr 2"
    by (simp add: py_ceil_div_code)
  show "get_pool_ceil_padding [1, 1, 6, 6] [3, 3] [2, 2] [0, 0] = Inr [2, 2]"
    by code_simp
  show "spec_floor_extra 6 3 2 0 = 0"
    by (simp add: spec_floor_extra_def spec_floor_out_def Let_def)
qed



section \<open>Subscripts\<close>

lemma py_index_valid: "valid_index xs i \<Longrightarrow> py_index xs i = Inr (xs ! py_pos xs i)"
  by (simp add: py_index_def)

lemma py_setitem_valid: "valid_index xs i \<Longrightarrow> py_setitem xs i v = Inr (xs[py_pos xs i := v])"
  by (simp add: py_setitem_def)

lemma py_pos_less: "valid_index xs i \<Longrightarrow> py_pos xs i < length xs"
  by (auto simp: valid_index_def py_pos_def)

lemma py_index_first: "xs \<noteq> [] \<Longrightarrow> py_index xs 0 = Inr (hd xs)"
  by (cases xs) (simp_all add: py_index_def valid_index_def py_pos_def)

lemma py_index_last: "xs \<noteq> [] \<Longrightarrow> py_index xs (- 1) = Inr (last xs)"
  by (simp add: py_index_def valid_index_def py_pos_def last_conv_nth nat_diff_distrib' Suc_le_eq)

lemma py_setitem_first: "xs \<noteq> [] \<Longrightarrow> py_setitem xs 0 v = Inr (xs[0 := v])"
  by (cases xs) (simp_all add: py_setitem_def valid_index_def py_pos_def)

lemma py_setitem_last: "xs \<noteq> [] \<Longrightarrow> py_setitem xs (- 1) v = Inr (xs[length xs - 1 := v])"
  by (simp add: py_setitem_def valid_index_def py_pos_def nat_diff_distrib' Suc_le_eq)

section \<open>Names\<close>

lemma digit_char_inj: "a < 10 \<Longrightarrow> b < 10 \<Longrightarrow> digit_char a = digit_char b \<Longrightarrow> a = b"
  by simp

lemma str_of_nat_ne_Nil: "str_of_nat n \<noteq> []"
  by (subst str_of_nat.simps) simp

lemma str_of_nat_inj: "str_of_nat m = str_of_nat n \<Longrightarrow> m = n"
proof (induction m arbitrary: n rule: str_of_nat.induct)
  case (1 m)
  show ?case
  proof (cases "m < 10")
    case True
    then have m: "str_of_nat m = [digit_char m]" by (subst str_of_nat.simps) simp
    show ?thesis
    proof (cases "n < 10")
      case n: True
      then have "str_of_nat n = [digit_char n]" by (subst str_of_nat.simps) simp
      with m 1(2) have "digit_char m = digit_char n" by simp
      then show ?thesis using True n digit_char_inj by blast
    next
      case n: False
      then have "str_of_nat n = str_of_nat (n div 10) @ [digit_char (n mod 10)]"
        by (subst str_of_nat.simps) simp
      with m 1(2) have "str_of_nat (n div 10) = []" by simp
      then show ?thesis using str_of_nat_ne_Nil by blast
    qed
  next
    case False
    then have m: "str_of_nat m = str_of_nat (m div 10) @ [digit_char (m mod 10)]"
      by (subst str_of_nat.simps) simp
    show ?thesis
    proof (cases "n < 10")
      case n: True
      then have "str_of_nat n = [digit_char n]" by (subst str_of_nat.simps) simp
      with m 1(2) have "str_of_nat (m div 10) = []" by simp
      then show ?thesis using str_of_nat_ne_Nil by blast
    next
      case n: False
      then have "str_of_nat n = str_of_nat (n div 10) @ [digit_char (n mod 10)]"
        by (subst str_of_nat.simps) simp
      with m 1(2) have a: "str_of_nat (m div 10) = str_of_nat (n div 10)"
        and b: "digit_char (m mod 10) = digit_char (n mod 10)" by simp_all
      from 1(1)[OF False a] have "m div 10 = n div 10" .
      moreover from b have "m mod 10 = n mod 10" by (intro digit_char_inj) simp_all
      ultimately show ?thesis by (metis div_mult_mod_eq)
    qed
  qed
qed

lemma get_unique_transform_name_ok:
  "output_names self \<noteq> [] \<Longrightarrow>
   get_unique_transform_name self =
     Inr (transform_name self, self\<lparr>transform_count := transform_count self + 1\<rparr>)"
  by (simp add: get_unique_transform_name_def py_index_first transform_name_def)

lemma create_transform_tensor_ok:
  "output_names self \<noteq> [] \<Longrightarrow>
   create_transform_tensor self a q =
     Inr (Tensor a (transform_name self) False q, self\<lparr>transform_count := transform_count self + 1\<rparr>)"
  by (simp add: create_transform_tensor_def get_unique_transform_name_ok)

lemma transform_name_next:
  "transform_name (self\<lparr>transform_count := transform_count self + 1\<rparr>) \<noteq> transform_name self"
proof (cases "transform_count self = 0")
  case True
  then show ?thesis by (simp add: transform_name_def)
next
  case False
  then show ?thesis
    using str_of_nat_inj[of "transform_count self + 1" "transform_count self"]
    by (auto simp: transform_name_def)
qed


lemma get_unique_attr_name_ok:
  "output_names self \<noteq> [] \<Longrightarrow>
   get_unique_attr_name self = Inr (attr_name self, self\<lparr>attr_count := attr_count self + 1\<rparr>)"
  by (simp add: get_unique_attr_name_def py_index_first attr_name_def)

lemma create_attr_tensor_ok:
  "output_names self \<noteq> [] \<Longrightarrow>
   create_attr_tensor self a =
     Inr (Tensor a (attr_name self) True None, self\<lparr>attr_count := attr_count self + 1\<rparr>)"
  by (simp add: create_attr_tensor_def get_unique_attr_name_ok)

section \<open>Rewiring the boundary\<close>

lemma boundary_input_ok:
  "ops \<noteq> [] \<Longrightarrow> valid_index (inputs (hd ops)) input_idx \<Longrightarrow>
   boundary_input ops input_idx = Inr (inputs (hd ops) ! py_pos (inputs (hd ops)) input_idx)"
  by (simp add: boundary_input_def py_index_first py_index_valid)

lemma boundary_output_ok:
  "ops \<noteq> [] \<Longrightarrow> valid_index (outputs (last ops)) output_idx \<Longrightarrow>
   boundary_output ops output_idx = Inr (outputs (last ops) ! py_pos (outputs (last ops)) output_idx)"
  by (simp add: boundary_output_def py_index_last py_index_valid)

lemma set_op_input_ok:
  "ops \<noteq> [] \<Longrightarrow> valid_index (inputs (hd ops)) input_idx \<Longrightarrow>
   set_op_input ops 0 input_idx t =
     Inr (ops[0 := (hd ops)\<lparr>inputs := (inputs (hd ops))[py_pos (inputs (hd ops)) input_idx := t]\<rparr>])"
  by (simp add: set_op_input_def py_index_first py_setitem_valid py_setitem_first)

lemma set_op_output_ok:
  "ops \<noteq> [] \<Longrightarrow> valid_index (outputs (last ops)) output_idx \<Longrightarrow>
   set_op_output ops (- 1) output_idx t =
     Inr (ops[length ops - 1 :=
       (last ops)\<lparr>outputs := (outputs (last ops))[py_pos (outputs (last ops)) output_idx := t]\<rparr>])"
  by (simp add: set_op_output_def py_index_last py_setitem_valid py_setitem_last)

lemma last_update_first_outputs:
  "ops \<noteq> [] \<Longrightarrow> outputs (last (ops[0 := (hd ops)\<lparr>inputs := ins\<rparr>])) = outputs (last ops)"
  by (cases ops rule: rev_cases) (auto simp: list_update_append hd_append split: nat.splits list.splits)

lemma rewire_ok:
  assumes "ops \<noteq> []" "valid_index (inputs (hd ops)) input_idx"
    "valid_index (outputs (last ops)) output_idx"
  shows "bind_err (set_op_input ops 0 input_idx new_input) (\<lambda>ops1.
         bind_err (set_op_output ops1 (- 1) output_idx new_output) f)
       = f (rewired ops input_idx output_idx new_input new_output)"
proof -
  let ?ops1 = "ops[0 := (hd ops)\<lparr>inputs := (inputs (hd ops))[py_pos (inputs (hd ops)) input_idx := new_input]\<rparr>]"
  have ne: "?ops1 \<noteq> []" using assms(1) by simp
  have out: "outputs (last ?ops1) = outputs (last ops)"
    by (rule last_update_first_outputs[OF assms(1)])
  have v: "valid_index (outputs (last ?ops1)) output_idx"
    using assms(3) by (simp only: out)
  show ?thesis
    by (simp only: set_op_input_ok[OF assms(1,2)] bind_err_Inr set_op_output_ok[OF ne v] rewired_def Let_def)
qed

lemma rewired_length [simp]: "length (rewired ops i j a b) = length ops"
  by (simp add: rewired_def Let_def)

lemma rewired_first_input:
  assumes "ops \<noteq> []" "valid_index (inputs (hd ops)) input_idx"
  shows "inputs (hd (rewired ops input_idx output_idx a b)) ! py_pos (inputs (hd ops)) input_idx = a"
proof -
  let ?ops1 = "ops[0 := (hd ops)\<lparr>inputs := (inputs (hd ops))[py_pos (inputs (hd ops)) input_idx := a]\<rparr>]"
  have "inputs (hd (rewired ops input_idx output_idx a b)) = (inputs (hd ops))[py_pos (inputs (hd ops)) input_idx := a]"
    using assms(1)
    by (cases ops) (auto simp: rewired_def Let_def split: nat.splits)
  then show ?thesis using py_pos_less[OF assms(2)] by simp
qed

lemma rewired_last_output:
  assumes "ops \<noteq> []" "valid_index (outputs (last ops)) output_idx"
  shows "outputs (last (rewired ops input_idx output_idx a b)) ! py_pos (outputs (last ops)) output_idx = b"
proof -
  let ?ops1 = "ops[0 := (hd ops)\<lparr>inputs := (inputs (hd ops))[py_pos (inputs (hd ops)) input_idx := a]\<rparr>]"
  have out: "outputs (last ?ops1) = outputs (last ops)"
    by (rule last_update_first_outputs[OF assms(1)])
  have ne: "?ops1 \<noteq> []" using assms(1) by simp
  have "last (rewired ops input_idx output_idx a b) =
     (last ?ops1)\<lparr>outputs := (outputs (last ?ops1))[py_pos (outputs (last ?ops1)) output_idx := b]\<rparr>"
    unfolding rewired_def Let_def using ne
    by (simp add: last_conv_nth)
  then show ?thesis using py_pos_less[OF assms(2)] by (simp add: out)
qed

lemma wrap_ops_with_dequant_quants_eq:
  assumes "ops \<noteq> []" "valid_index (inputs (hd ops)) input_idx"
    "valid_index (outputs (last ops)) output_idx" "output_names self \<noteq> []"
  shows "wrap_ops_with_dequant_quants self ops input_idx output_idx =
    (let orig_input = inputs (hd ops) ! py_pos (inputs (hd ops)) input_idx;
         orig_output = outputs (last ops) ! py_pos (outputs (last ops)) output_idx;
         self1 = self\<lparr>transform_count := transform_count self + 1\<rparr>;
         new_input = Tensor (AsType (tensor orig_input) Float32) (transform_name self) False None;
         new_output = Tensor (AsType (tensor orig_output) Float32) (transform_name self1) False None
     in Inr ([\<lparr>kind = DequantizeOperator, inputs = [orig_input], outputs = [new_input]\<rparr>]
              @ rewired ops input_idx output_idx new_input new_output
              @ [\<lparr>kind = QuantizeOperator, inputs = [new_output], outputs = [orig_output]\<rparr>],
             self1\<lparr>transform_count := transform_count self1 + 1\<rparr>))"
proof -
  have n1: "output_names (self\<lparr>transform_count := transform_count self + 1\<rparr>) \<noteq> []"
    using assms(4) by simp
  show ?thesis
    unfolding wrap_ops_with_dequant_quants_def
    by (simp only: boundary_input_ok[OF assms(1,2)] boundary_output_ok[OF assms(1,3)]
          create_transform_tensor_ok[OF assms(4)] create_transform_tensor_ok[OF n1]
          bind_err_Inr prod.case Let_def rewire_ok[OF assms(1,2,3)])
qed

text \<open>
  Claim C3. For a non-empty list of ops, valid \<open>input_idx\<close> and \<open>output_idx\<close>, a node with
  an output name, and quantized boundary tensors, \<open>wrap_ops_with_dequant_quants\<close> returns
  the ops between a Dequantize and a Quantize: the first op is a Dequantize whose input is
  the original \<open>ops[0].inputs[input_idx]\<close>, the last op is a Quantize whose output is the
  original \<open>ops[-1].outputs[output_idx]\<close>, and the designated input of the first bracketed
  op and the designated output of the last bracketed op are two new float32 transform
  tensors (no buffer, no quantization), different from each other and from both original
  tensors.
\<close>

theorem wrap_ops_with_dequant_quants_brackets:
  assumes "ops \<noteq> []" "valid_index (inputs (hd ops)) input_idx"
    "valid_index (outputs (last ops)) output_idx" "output_names self \<noteq> []"
    "quantization (inputs (hd ops) ! py_pos (inputs (hd ops)) input_idx) \<noteq> None"
    "quantization (outputs (last ops) ! py_pos (outputs (last ops)) output_idx) \<noteq> None"
  shows "\<exists>res self' new_input new_output.
      wrap_ops_with_dequant_quants self ops input_idx output_idx = Inr (res, self')
    \<and> length res = length ops + 2
    \<and> hd res = \<lparr>kind = DequantizeOperator,
                 inputs = [inputs (hd ops) ! py_pos (inputs (hd ops)) input_idx],
                 outputs = [new_input]\<rparr>
    \<and> last res = \<lparr>kind = QuantizeOperator,
                   inputs = [new_output],
                   outputs = [outputs (last ops) ! py_pos (outputs (last ops)) output_idx]\<rparr>
    \<and> inputs (res ! 1) ! py_pos (inputs (hd ops)) input_idx = new_input
    \<and> outputs (res ! length ops) ! py_pos (outputs (last ops)) output_idx = new_output
    \<and> dtype new_input = Float32 \<and> dtype new_output = Float32
    \<and> \<not> has_buffer new_input \<and> \<not> has_buffer new_output
    \<and> quantization new_input = None \<and> quantization new_output = None
    \<and> new_input \<noteq> new_output
    \<and> new_input \<noteq> inputs (hd ops) ! py_pos (inputs (hd ops)) input_idx
    \<and> new_input \<noteq> outputs (last ops) ! py_pos (outputs (last ops)) output_idx
    \<and> new_output \<noteq> inputs (hd ops) ! py_pos (inputs (hd ops)) input_idx
    \<and> new_output \<noteq> outputs (last ops) ! py_pos (outputs (last ops)) output_idx"
proof -
  define orig_input where "orig_input = inputs (hd ops) ! py_pos (inputs (hd ops)) input_idx"
  define orig_output where "orig_output = outputs (last ops) ! py_pos (outputs (last ops)) output_idx"
  define self1 where "self1 = self\<lparr>transform_count := transform_count self + 1\<rparr>"
  define new_input where "new_input = Tensor (AsType (tensor orig_input) Float32) (transform_name self) False None"
  define new_output where "new_output = Tensor (AsType (tensor orig_output) Float32) (transform_name self1) False None"
  define mid where "mid = rewired ops input_idx output_idx new_input new_output"
  define res where "res = [\<lparr>kind = DequantizeOperator, inputs = [orig_input], outputs = [new_input]\<rparr>]
              @ mid @ [\<lparr>kind = QuantizeOperator, inputs = [new_output], outputs = [orig_output]\<rparr>]"
  have lm: "length mid = length ops" by (simp add: mid_def)
  have mne: "mid \<noteq> []" using lm assms(1) by auto
  have eq: "wrap_ops_with_dequant_quants self ops input_idx output_idx
      = Inr (res, self1\<lparr>transform_count := transform_count self1 + 1\<rparr>)"
    unfolding wrap_ops_with_dequant_quants_eq[OF assms(1-4)] Let_def res_def mid_def
      new_input_def new_output_def self1_def orig_input_def orig_output_def ..
  have len: "length res = length ops + 2" by (simp add: res_def lm)
  have h: "hd res = \<lparr>kind = DequantizeOperator, inputs = [orig_input], outputs = [new_input]\<rparr>"
    by (simp add: res_def)
  have l: "last res = \<lparr>kind = QuantizeOperator, inputs = [new_output], outputs = [orig_output]\<rparr>"
    by (simp add: res_def)
  have r1: "res ! 1 = hd mid" using mne by (simp add: res_def hd_conv_nth nth_append)
  have rl: "res ! length ops = last mid"
    using mne lm assms(1) by (simp add: res_def last_conv_nth nth_append nth_Cons split: nat.splits)
  have i1: "inputs (res ! 1) ! py_pos (inputs (hd ops)) input_idx = new_input"
    unfolding r1 mid_def by (rule rewired_first_input[OF assms(1,2)])
  have o1: "outputs (res ! length ops) ! py_pos (outputs (last ops)) output_idx = new_output"
    unfolding rl mid_def by (rule rewired_last_output[OF assms(1,3)])
  have props: "dtype new_input = Float32" "dtype new_output = Float32"
    "\<not> has_buffer new_input" "\<not> has_buffer new_output"
    "quantization new_input = None" "quantization new_output = None"
    by (simp_all add: new_input_def new_output_def Tensor_def)
  have nn: "new_input \<noteq> new_output"
  proof
    assume "new_input = new_output"
    then have "name new_input = name new_output" by simp
    then have "transform_name self = transform_name self1"
      by (simp add: new_input_def new_output_def Tensor_def)
    then show False using transform_name_next[of self] by (simp add: self1_def)
  qed
  have d: "new_input \<noteq> orig_input" "new_input \<noteq> orig_output"
    "new_output \<noteq> orig_input" "new_output \<noteq> orig_output"
    using props(5,6) assms(5,6) unfolding orig_input_def[symmetric] orig_output_def[symmetric]
    by auto
  show ?thesis
    apply (rule exI[of _ res], rule exI[of _ "self1\<lparr>transform_count := transform_count self1 + 1\<rparr>"])
    apply (rule exI[of _ new_input], rule exI[of _ new_output])
    unfolding orig_input_def[symmetric] orig_output_def[symmetric]
    using eq len h l i1 o1 props nn d by (intro conjI)
qed

lemma upt_4: "[0..<4] = [0, 1, 2, 3]"
  by (simp add: upt_rec)

lemma transpose_roundtrip:
  "el_shape (transpose_elems [0, 3, 1, 2] (transpose_elems [0, 2, 3, 1] \<lparr>el_shape = [n, c, h, w], el_at = f\<rparr>)) = [n, c, h, w]"
  "el_at (transpose_elems [0, 3, 1, 2] (transpose_elems [0, 2, 3, 1] \<lparr>el_shape = [n, c, h, w], el_at = f\<rparr>)) [i, j, k, l] = f [i, j, k, l]"
  by (simp_all add: transpose_elems_def position_of_def upt_4)

lemma transpose_nhwc:
  "el_shape (transpose_elems [0, 2, 3, 1] \<lparr>el_shape = [n, c, h, w], el_at = f\<rparr>) = [n, h, w, c]"
  "el_at (transpose_elems [0, 2, 3, 1] \<lparr>el_shape = [n, c, h, w], el_at = f\<rparr>) [i, y, x, j] = f [i, j, y, x]"
  by (simp_all add: transpose_elems_def position_of_def upt_4)

lemma compose_perm_id: "compose_perm nchw2nhwc_perm nhwc2nchw_perm = [0, 1, 2, 3]"
  by (simp add: compose_perm_def nchw2nhwc_perm_def nhwc2nchw_perm_def)

lemma np_transpose_ok: "length (arr_shape a) = 4 \<Longrightarrow> np_transpose a nchw2nhwc_perm = Inr (Transposed a nchw2nhwc_perm)"
  by (simp add: np_transpose_def nchw2nhwc_perm_def)

lemma wrap_ops_with_nhwc_nchw_transposes_eq:
  assumes "ops \<noteq> []" "valid_index (inputs (hd ops)) input_idx"
    "valid_index (outputs (last ops)) output_idx" "output_names self \<noteq> []"
    "length (arr_shape (tensor (inputs (hd ops) ! py_pos (inputs (hd ops)) input_idx))) = 4"
    "length (arr_shape (tensor (outputs (last ops) ! py_pos (outputs (last ops)) output_idx))) = 4"
  shows "wrap_ops_with_nhwc_nchw_transposes self ops input_idx output_idx =
    (let orig_input = inputs (hd ops) ! py_pos (inputs (hd ops)) input_idx;
         orig_output = outputs (last ops) ! py_pos (outputs (last ops)) output_idx;
         self1 = self\<lparr>attr_count := attr_count self + 1\<rparr>;
         self2 = self1\<lparr>attr_count := attr_count self1 + 1\<rparr>;
         self3 = self2\<lparr>transform_count := transform_count self2 + 1\<rparr>;
         self4 = self3\<lparr>transform_count := transform_count self3 + 1\<rparr>;
         nhwc2nchw_perm_tensor = Tensor (IntArray nhwc2nchw_perm) (attr_name self) True None;
         nchw2nhwc_perm_tensor = Tensor (IntArray nchw2nhwc_perm) (attr_name self1) True None;
         new_input = Tensor (Transposed (tensor orig_input) nchw2nhwc_perm) (transform_name self2) False
                       (quantization orig_input);
         new_output = Tensor (Transposed (tensor orig_output) nchw2nhwc_perm) (transform_name self3) False
                       (quantization orig_output)
     in Inr ([\<lparr>kind = TransposeOperator, inputs = [orig_input, nchw2nhwc_perm_tensor], outputs = [new_input]\<rparr>]
              @ rewired ops input_idx output_idx new_input new_output
              @ [\<lparr>kind = TransposeOperator, inputs = [new_output, nhwc2nchw_perm_tensor], outputs = [orig_output]\<rparr>],
             self4))"
proof -
  have n1: "output_names (self\<lparr>attr_count := attr_count self + 1\<rparr>) \<noteq> []"
    and n2: "output_names (self\<lparr>attr_count := attr_count self + 1\<rparr>\<lparr>attr_count := attr_count (self\<lparr>attr_count := attr_count self + 1\<rparr>) + 1\<rparr>) \<noteq> []"
    and n3: "output_names (self\<lparr>attr_count := attr_count self + 1\<rparr>\<lparr>attr_count := attr_count (self\<lparr>attr_count := attr_count self + 1\<rparr>) + 1\<rparr>
       \<lparr>transform_count := transform_count (self\<lparr>attr_count := attr_count self + 1\<rparr>\<lparr>attr_count := attr_count (self\<lparr>attr_count := attr_count self + 1\<rparr>) + 1\<rparr>) + 1\<rparr>) \<noteq> []"
    using assms(4) by simp_all
  show ?thesis
    unfolding wrap_ops_with_nhwc_nchw_transposes_def
    by (simp only: boundary_input_ok[OF assms(1,2)] boundary_output_ok[OF assms(1,3)]
          create_attr_tensor_ok[OF assms(4)] create_attr_tensor_ok[OF n1]
          np_transpose_ok[OF assms(5)] np_transpose_ok[OF assms(6)]
          create_transform_tensor_ok[OF n2] create_transform_tensor_ok[OF n3]
          bind_err_Inr prod.case Let_def rewire_ok[OF assms(1,2,3)])
qed

theorem wrap_ops_with_dequant_quants_brackets_witness:
  "\<exists>res self' new_input new_output.
      wrap_ops_with_dequant_quants example_converter [example_op] 0 0 = Inr (res, self')
    \<and> length res = 3
    \<and> hd res = \<lparr>kind = DequantizeOperator, inputs = [example_input], outputs = [new_input]\<rparr>
    \<and> last res = \<lparr>kind = QuantizeOperator, inputs = [new_output], outputs = [example_output]\<rparr>
    \<and> inputs (res ! 1) = [new_input] \<and> outputs (res ! 1) = [new_output]
    \<and> dtype new_input = Float32 \<and> dtype new_output = Float32
    \<and> new_input \<noteq> new_output
    \<and> new_input \<noteq> example_input \<and> new_input \<noteq> example_output
    \<and> new_output \<noteq> example_input \<and> new_output \<noteq> example_output"
proof -
  have a: "[example_op] \<noteq> []" by simp
  have b: "valid_index (inputs (hd [example_op])) 0" by (simp add: valid_index_def example_op_def)
  have c: "valid_index (outputs (last [example_op])) 0" by (simp add: valid_index_def example_op_def)
  have d: "output_names example_converter \<noteq> []" by (simp add: example_converter_def)
  have e: "quantization (inputs (hd [example_op]) ! py_pos (inputs (hd [example_op])) 0) \<noteq> None"
    by (simp add: example_op_def py_pos_def example_input_def Tensor_def)
  have f: "quantization (outputs (last [example_op]) ! py_pos (outputs (last [example_op])) 0) \<noteq> None"
    by (simp add: example_op_def py_pos_def example_output_def Tensor_def)
  from wrap_ops_with_dequant_quants_brackets[OF a b c d e f]
  obtain res self' new_input new_output where
    r: "wrap_ops_with_dequant_quants example_converter [example_op] 0 0 = Inr (res, self')"
      "length res = length [example_op] + 2"
      "hd res = \<lparr>kind = DequantizeOperator, inputs = [inputs (hd [example_op]) ! py_pos (inputs (hd [example_op])) 0], outputs = [new_input]\<rparr>"
      "last res = \<lparr>kind = QuantizeOperator, inputs = [new_output], outputs = [outputs (last [example_op]) ! py_pos (outputs (last [example_op])) 0]\<rparr>"
      "inputs (res ! 1) ! py_pos (inputs (hd [example_op])) 0 = new_input"
      "outputs (res ! length [example_op]) ! py_pos (outputs (last [example_op])) 0 = new_output"
      "dtype new_input = Float32" "dtype new_output = Float32"
      "new_input \<noteq> new_output"
      "new_input \<noteq> inputs (hd [example_op]) ! py_pos (inputs (hd [example_op])) 0"
      "new_input \<noteq> outputs (last [example_op]) ! py_pos (outputs (last [example_op])) 0"
      "new_output \<noteq> inputs (hd [example_op]) ! py_pos (inputs (hd [example_op])) 0"
      "new_output \<noteq> outputs (last [example_op]) ! py_pos (outputs (last [example_op])) 0"
    by blast
  have pin: "inputs (hd [example_op]) ! py_pos (inputs (hd [example_op])) 0 = example_input"
    and pout: "outputs (last [example_op]) ! py_pos (outputs (last [example_op])) 0 = example_output"
    by (simp_all add: example_op_def py_pos_def)
  have ev: "wrap_ops_with_dequant_quants example_converter [example_op] 0 0 =
     Inr ([\<lparr>kind = DequantizeOperator, inputs = [example_input],
             outputs = [Tensor (AsType (Traced [1, 3, 4, 4] UInt8 ''x'') Float32) ''y_transform'' False None]\<rparr>,
           \<lparr>kind = OtherOperator ''softmax'',
             inputs = [Tensor (AsType (Traced [1, 3, 4, 4] UInt8 ''x'') Float32) ''y_transform'' False None],
             outputs = [Tensor (AsType (Traced [1, 3, 4, 4] UInt8 ''y'') Float32) ''y_transform_1'' False None]\<rparr>,
           \<lparr>kind = QuantizeOperator,
             inputs = [Tensor (AsType (Traced [1, 3, 4, 4] UInt8 ''y'') Float32) ''y_transform_1'' False None],
             outputs = [example_output]\<rparr>],
          example_converter\<lparr>transform_count := 2\<rparr>)"
    by code_simp
  from r(1) ev have res: "res = [\<lparr>kind = DequantizeOperator, inputs = [example_input],
             outputs = [Tensor (AsType (Traced [1, 3, 4, 4] UInt8 ''x'') Float32) ''y_transform'' False None]\<rparr>,
           \<lparr>kind = OtherOperator ''softmax'',
             inputs = [Tensor (AsType (Traced [1, 3, 4, 4] UInt8 ''x'') Float32) ''y_transform'' False None],
             outputs = [Tensor (AsType (Traced [1, 3, 4, 4] UInt8 ''y'') Float32) ''y_transform_1'' False None]\<rparr>,
           \<lparr>kind = QuantizeOperator,
             inputs = [Tensor (AsType (Traced [1, 3, 4, 4] UInt8 ''y'') Float32) ''y_transform_1'' False None],
             outputs = [example_output]\<rparr>]" by simp
  from r(3) res have ni: "new_input = Tensor (AsType (Traced [1, 3, 4, 4] UInt8 ''x'') Float32) ''y_transform'' False None"
    by simp
  from r(4) res have no: "new_output = Tensor (AsType (Traced [1, 3, 4, 4] UInt8 ''y'') Float32) ''y_transform_1'' False None"
    by simp
  have io: "inputs (res ! 1) = [new_input]" "outputs (res ! 1) = [new_output]"
    by (simp_all add: res ni no)
  show ?thesis
    apply (rule exI[of _ res], rule exI[of _ self'], rule exI[of _ new_input], rule exI[of _ new_output])
    using r io unfolding pin pout by simp
qed

text \<open>
  Claim C4. For a non-empty list of ops, valid indices, a node with an output name and
  rank-4 boundary tensors, \<open>wrap_ops_with_nhwc_nchw_transposes\<close> puts a Transpose whose
  permutation tensor holds \<open>[0, 2, 3, 1]\<close> before the bracketed ops and a Transpose whose
  permutation tensor holds \<open>[0, 3, 1, 2]\<close> after them. The two permutations compose to
  \<open>[0, 1, 2, 3]\<close>, and transposing any rank-4 array by the first and then by the second
  gives back its shape and every element.
\<close>

theorem wrap_ops_with_nhwc_nchw_transposes_perms:
  assumes "ops \<noteq> []" "valid_index (inputs (hd ops)) input_idx"
    "valid_index (outputs (last ops)) output_idx" "output_names self \<noteq> []"
    "length (arr_shape (tensor (inputs (hd ops) ! py_pos (inputs (hd ops)) input_idx))) = 4"
    "length (arr_shape (tensor (outputs (last ops) ! py_pos (outputs (last ops)) output_idx))) = 4"
  shows "\<exists>res self'.
      wrap_ops_with_nhwc_nchw_transposes self ops input_idx output_idx = Inr (res, self')
    \<and> length res = length ops + 2
    \<and> kind (hd res) = TransposeOperator
    \<and> inputs (hd res) ! 0 = inputs (hd ops) ! py_pos (inputs (hd ops)) input_idx
    \<and> tensor (inputs (hd res) ! 1) = IntArray [0, 2, 3, 1]
    \<and> outputs (hd res) = [inputs (res ! 1) ! py_pos (inputs (hd ops)) input_idx]
    \<and> kind (last res) = TransposeOperator
    \<and> inputs (last res) ! 0 = outputs (res ! length ops) ! py_pos (outputs (last ops)) output_idx
    \<and> tensor (inputs (last res) ! 1) = IntArray [0, 3, 1, 2]
    \<and> outputs (last res) = [outputs (last ops) ! py_pos (outputs (last ops)) output_idx]
    \<and> compose_perm [0, 2, 3, 1] [0, 3, 1, 2] = [0, 1, 2, 3]
    \<and> (\<forall>n c h w (f :: nat list \<Rightarrow> 'a) i j k l.
          el_shape (transpose_elems [0, 3, 1, 2] (transpose_elems [0, 2, 3, 1]
             \<lparr>el_shape = [n, c, h, w], el_at = f\<rparr>)) = [n, c, h, w]
        \<and> el_at (transpose_elems [0, 3, 1, 2] (transpose_elems [0, 2, 3, 1]
             \<lparr>el_shape = [n, c, h, w], el_at = f\<rparr>)) [i, j, k, l] = f [i, j, k, l])"
proof -
  define orig_input where "orig_input = inputs (hd ops) ! py_pos (inputs (hd ops)) input_idx"
  define orig_output where "orig_output = outputs (last ops) ! py_pos (outputs (last ops)) output_idx"
  define self1 where "self1 = self\<lparr>attr_count := attr_count self + 1\<rparr>"
  define self2 where "self2 = self1\<lparr>attr_count := attr_count self1 + 1\<rparr>"
  define self3 where "self3 = self2\<lparr>transform_count := transform_count self2 + 1\<rparr>"
  define self4 where "self4 = self3\<lparr>transform_count := transform_count self3 + 1\<rparr>"
  define p_out where "p_out = Tensor (IntArray nhwc2nchw_perm) (attr_name self) True None"
  define p_in where "p_in = Tensor (IntArray nchw2nhwc_perm) (attr_name self1) True None"
  define new_input where "new_input = Tensor (Transposed (tensor orig_input) nchw2nhwc_perm)
      (transform_name self2) False (quantization orig_input)"
  define new_output where "new_output = Tensor (Transposed (tensor orig_output) nchw2nhwc_perm)
      (transform_name self3) False (quantization orig_output)"
  define mid where "mid = rewired ops input_idx output_idx new_input new_output"
  define res where "res = [\<lparr>kind = TransposeOperator, inputs = [orig_input, p_in], outputs = [new_input]\<rparr>]
      @ mid @ [\<lparr>kind = TransposeOperator, inputs = [new_output, p_out], outputs = [orig_output]\<rparr>]"
  have lm: "length mid = length ops" by (simp add: mid_def)
  have mne: "mid \<noteq> []" using lm assms(1) by auto
  have eq: "wrap_ops_with_nhwc_nchw_transposes self ops input_idx output_idx = Inr (res, self4)"
    unfolding wrap_ops_with_nhwc_nchw_transposes_eq[OF assms] Let_def res_def mid_def
      new_input_def new_output_def p_in_def p_out_def self1_def self2_def self3_def self4_def
      orig_input_def orig_output_def ..
  have r1: "res ! 1 = hd mid" using mne by (simp add: res_def hd_conv_nth nth_append)
  have rl: "res ! length ops = last mid"
    using mne lm assms(1) by (simp add: res_def last_conv_nth nth_append nth_Cons split: nat.splits)
  have i1: "inputs (res ! 1) ! py_pos (inputs (hd ops)) input_idx = new_input"
    unfolding r1 mid_def by (rule rewired_first_input[OF assms(1,2)])
  have o1: "outputs (res ! length ops) ! py_pos (outputs (last ops)) output_idx = new_output"
    unfolding rl mid_def by (rule rewired_last_output[OF assms(1,3)])
  have first: "kind (hd res) = TransposeOperator" "inputs (hd res) ! 0 = orig_input"
    "tensor (inputs (hd res) ! 1) = IntArray [0, 2, 3, 1]" "outputs (hd res) = [new_input]"
    by (simp_all add: res_def p_in_def Tensor_def nchw2nhwc_perm_def)
  have final: "kind (last res) = TransposeOperator" "inputs (last res) ! 0 = new_output"
    "tensor (inputs (last res) ! 1) = IntArray [0, 3, 1, 2]" "outputs (last res) = [orig_output]"
    by (simp_all add: res_def p_out_def Tensor_def nhwc2nchw_perm_def)
  have len: "length res = length ops + 2" by (simp add: res_def lm)
  have comp: "compose_perm [0, 2, 3, 1] [0, 3, 1, 2] = [0, 1, 2, 3]"
    using compose_perm_id by (simp add: nchw2nhwc_perm_def nhwc2nchw_perm_def)
  have tr: "\<forall>n c h w (f :: nat list \<Rightarrow> 'a) i j k l.
          el_shape (transpose_elems [0, 3, 1, 2] (transpose_elems [0, 2, 3, 1]
             \<lparr>el_shape = [n, c, h, w], el_at = f\<rparr>)) = [n, c, h, w]
        \<and> el_at (transpose_elems [0, 3, 1, 2] (transpose_elems [0, 2, 3, 1]
             \<lparr>el_shape = [n, c, h, w], el_at = f\<rparr>)) [i, j, k, l] = f [i, j, k, l]"
    using transpose_roundtrip by blast
  show ?thesis
    apply (rule exI[of _ res], rule exI[of _ self4])
    unfolding orig_input_def[symmetric] orig_output_def[symmetric] i1 o1
    using eq len first final comp tr by (intro conjI)
qed

theorem wrap_ops_with_nhwc_nchw_transposes_perms_witness:
  "\<exists>res self'.
      wrap_ops_with_nhwc_nchw_transposes example_converter [example_op] 0 0 = Inr (res, self')
    \<and> length res = 3
    \<and> kind (hd res) = TransposeOperator
    \<and> inputs (hd res) ! 0 = example_input
    \<and> tensor (inputs (hd res) ! 1) = IntArray [0, 2, 3, 1]
    \<and> kind (last res) = TransposeOperator
    \<and> tensor (inputs (last res) ! 1) = IntArray [0, 3, 1, 2]
    \<and> outputs (last res) = [example_output]"
proof -
  have a: "[example_op] \<noteq> []" by simp
  have b: "valid_index (inputs (hd [example_op])) 0" by (simp add: valid_index_def example_op_def)
  have c: "valid_index (outputs (last [example_op])) 0" by (simp add: valid_index_def example_op_def)
  have d: "output_names example_converter \<noteq> []" by (simp add: example_converter_def)
  have e: "length (arr_shape (tensor (inputs (hd [example_op]) ! py_pos (inputs (hd [example_op])) 0))) = 4"
    by (simp add: example_op_def py_pos_def example_input_def Tensor_def)
  have f: "length (arr_shape (tensor (outputs (last [example_op]) ! py_pos (outputs (last [example_op])) 0))) = 4"
    by (simp add: example_op_def py_pos_def example_output_def Tensor_def)
  have pin: "inputs (hd [example_op]) ! py_pos (inputs (hd [example_op])) 0 = example_input"
    and pout: "outputs (last [example_op]) ! py_pos (outputs (last [example_op])) 0 = example_output"
    by (simp_all add: example_op_def py_pos_def)
  show ?thesis
    using wrap_ops_with_nhwc_nchw_transposes_perms[OF a b c d e f, where ?'a = nat]
    unfolding pin pout by fastforce
qed

section \<open>\<^verbatim>\<open>passthrough\<close>\<close>

lemma py_index_nat: "i < length xs \<Longrightarrow> py_index xs (int i) = Inr (xs ! i)"
  by (simp add: py_index_def valid_index_def py_pos_def)

lemma find_or_create_input_ok:
  assumes "i < length (input_names self)" "i < length (input_tensors self)"
  shows "\<exists>t. find_or_create_input self (int i) g = Inr t"
  using assms by (simp add: find_or_create_input_def py_index_nat split: option.splits)

lemma to_tfl_tensors_default_ok:
  "length names = length tensors \<Longrightarrow>
   to_tfl_tensors self names tensors HasBuffersNone None False =
     Inr (map (to_tfl_tensor None False) (zip names (zip tensors (replicate (length tensors) None))))"
  by (simp add: to_tfl_tensors_def)

lemma passthrough_step_ok:
  assumes "i < length (input_names self)" "i < length (input_tensors self)"
    "output_names self \<noteq> []" "length (output_names self) = length (output_tensors self)"
  shows "\<exists>ins outs. passthrough_step reg i (self, g) =
     Inr (self\<lparr>attr_count := attr_count self + 1\<rparr>,
          add_operator reg \<lparr>kind = ReshapeOperator (arr_shape (input_tensors self ! i)),
                            inputs = ins, outputs = outs\<rparr> g)"
proof -
  obtain t0 where t0: "find_or_create_input self (int i) g = Inr t0"
    using find_or_create_input_ok[OF assms(1,2)] by blast
  show ?thesis
    unfolding passthrough_step_def
    by (simp add: py_index_nat[OF assms(2)] t0 create_attr_tensor_ok[OF assms(3)]
          to_tfl_tensors_default_ok[OF assms(4)]) blast
qed

lemma passthrough_loop_ok:
  assumes "\<forall>i\<in>set is. i < length (input_names self) \<and> i < length (input_tensors self)"
    "output_names self \<noteq> []" "length (output_names self) = length (output_tensors self)"
  shows "\<exists>self' g' new. passthrough_loop reg is (self, g) = Inr (self', g')
     \<and> operators g' = operators g @ new
     \<and> map kind new = map (\<lambda>i. ReshapeOperator (arr_shape (input_tensors self ! i))) is"
  using assms
proof (induction "is" arbitrary: self g)
  case Nil
  then show ?case by simp
next
  case (Cons i "is")
  let ?self1 = "self\<lparr>attr_count := attr_count self + 1\<rparr>"
  from Cons.prems obtain ins outs where
    step: "passthrough_step reg i (self, g) =
      Inr (?self1, add_operator reg \<lparr>kind = ReshapeOperator (arr_shape (input_tensors self ! i)),
                            inputs = ins, outputs = outs\<rparr> g)"
    using passthrough_step_ok[of i self reg g] by auto
  let ?op = "\<lparr>kind = ReshapeOperator (arr_shape (input_tensors self ! i)), inputs = ins, outputs = outs\<rparr>"
  let ?g1 = "add_operator reg ?op g"
  have pre: "\<forall>i\<in>set is. i < length (input_names ?self1) \<and> i < length (input_tensors ?self1)"
    "output_names ?self1 \<noteq> []" "length (output_names ?self1) = length (output_tensors ?self1)"
    using Cons.prems by simp_all
  from Cons.IH[OF pre, of ?g1] obtain self' g' new where
    rest: "passthrough_loop reg is (?self1, ?g1) = Inr (self', g')"
      "operators g' = operators ?g1 @ new"
      "map kind new = map (\<lambda>i. ReshapeOperator (arr_shape (input_tensors ?self1 ! i))) is"
    by blast
  have "passthrough_loop reg (i # is) (self, g) = Inr (self', g')"
    using rest(1) by (simp add: step)
  moreover have "operators g' = operators g @ (?op # new)"
    using rest(2) by (simp add: add_operator_def)
  moreover have "map kind (?op # new) = map (\<lambda>i. ReshapeOperator (arr_shape (input_tensors self ! i))) (i # is)"
    using rest(3) by simp
  ultimately show ?case by blast
qed

text \<open>
  Claim C8, as amended. When the node has at least as many input tensors and input names
  as output tensors and one output name per output tensor, \<open>passthrough\<close> succeeds and
  appends exactly one reshape op per output tensor (so exactly one for a single-output
  node); the target shape of the \<open>i\<close>-th is the shape of input tensor \<open>i\<close>. The shapes of
  inputs and outputs are never compared.
\<close>

theorem passthrough_one_reshape_per_output:
  assumes "length (output_tensors self) \<le> length (input_tensors self)"
    "length (output_tensors self) \<le> length (input_names self)"
    "length (output_names self) = length (output_tensors self)"
  shows "\<exists>self' g' new. passthrough reg self g = Inr (self', g')
     \<and> operators g' = operators g @ new
     \<and> length new = length (output_tensors self)
     \<and> map kind new = map (\<lambda>i. ReshapeOperator (arr_shape (input_tensors self ! i)))
                         [0..<length (output_tensors self)]"
proof (cases "output_tensors self = []")
  case True
  then show ?thesis by (simp add: passthrough_def)
next
  case False
  then have ne: "output_names self \<noteq> []" using assms(3) by auto
  have b: "\<forall>i\<in>set [0..<length (output_tensors self)]. i < length (input_names self) \<and> i < length (input_tensors self)"
    using assms(1,2) by auto
  from passthrough_loop_ok[OF b ne assms(3), of reg g] obtain self' g' new where
    r: "passthrough_loop reg [0..<length (output_tensors self)] (self, g) = Inr (self', g')"
      "operators g' = operators g @ new"
      "map kind new = map (\<lambda>i. ReshapeOperator (arr_shape (input_tensors self ! i))) [0..<length (output_tensors self)]"
    by blast
  from r(3) have "length (map kind new) = length [0..<length (output_tensors self)]" by simp
  then have len: "length new = length (output_tensors self)" by simp
  show ?thesis
    using r len assms(1) by (auto simp: passthrough_def)
qed

theorem passthrough_one_reshape_per_output_witness:
  "\<exists>self' g' new. passthrough append_only example_converter empty_graph = Inr (self', g')
     \<and> operators g' = new \<and> length new = 1 \<and> map kind new = [ReshapeOperator [1, 3, 4, 4]]"
  using passthrough_one_reshape_per_output[of example_converter append_only empty_graph]
  by (simp add: example_converter_def empty_graph_def)

text \<open>
  Claim C8 as stated (exactly one reshape op) fails for a node with two inputs and two
  outputs, all of the same shape: two reshape ops are emitted.
\<close>

theorem passthrough_two_outputs_counterexample:
  "map arr_shape (input_tensors two_output_converter) = map arr_shape (output_tensors two_output_converter)
   \<and> (\<exists>self' g'. passthrough append_only two_output_converter empty_graph = Inr (self', g')
        \<and> map kind (operators g') = [ReshapeOperator [2, 3], ReshapeOperator [2, 3]])"
proof
  show "map arr_shape (input_tensors two_output_converter) = map arr_shape (output_tensors two_output_converter)"
    by (simp add: two_output_converter_def)
  have "(case passthrough append_only two_output_converter empty_graph of
           Inl e \<Rightarrow> None | Inr (s, g) \<Rightarrow> Some (map kind (operators g)))
        = Some [ReshapeOperator [2, 3], ReshapeOperator [2, 3]]"
    by code_simp
  then show "\<exists>self' g'. passthrough append_only two_output_converter empty_graph = Inr (self', g')
        \<and> map kind (operators g') = [ReshapeOperator [2, 3], ReshapeOperator [2, 3]]"
    by (auto split: sum.splits)
qed

section \<open>Schema matching\<close>

lemma collect_candidates_filter:
  "collect_candidates n schemas =
     filter (\<lambda>s. \<not> str_contains ''name'' (overload_name s) \<and> length (arguments s) = n) schemas"
  by (induction schemas) simp_all

lemma str_contains_iff: "str_contains sub s \<longleftrightarrow> (\<exists>ps ss. s = ps @ sub @ ss)"
proof (induction s)
  case Nil
  then show ?case by auto
next
  case (Cons c cs)
  show ?case
  proof
    assume "str_contains sub (c # cs)"
    then consider "prefix sub (c # cs)" | "str_contains sub cs" by auto
    then show "\<exists>ps ss. c # cs = ps @ sub @ ss"
    proof cases
      case 1
      then obtain ss where "c # cs = sub @ ss" by (auto simp: prefix_def)
      then have "c # cs = [] @ sub @ ss" by simp
      then show ?thesis by blast
    next
      case 2
      then obtain ps ss where "cs = ps @ sub @ ss" using Cons.IH by blast
      then have "c # cs = (c # ps) @ sub @ ss" by simp
      then show ?thesis by blast
    qed
  next
    assume "\<exists>ps ss. c # cs = ps @ sub @ ss"
    then obtain ps ss where e: "c # cs = ps @ sub @ ss" by blast
    show "str_contains sub (c # cs)"
    proof (cases ps)
      case Nil
      then have "prefix sub (c # cs)" using e by (simp add: prefix_def)
      then show ?thesis by simp
    next
      case (Cons p ps')
      then have "cs = ps' @ sub @ ss" using e by simp
      then have "str_contains sub cs" using Cons.IH by blast
      then show ?thesis by simp
    qed
  qed
qed


text \<open>
  Claim C9, as amended. For a node with at least one bound input whose kind does not start
  with \<^verbatim>\<open>prim::\<close>, \<open>fetch_annotated_args\<close> goes through the schemas of the kind, skips
  exactly those whose overload name contains the text \<^verbatim>\<open>name\<close>, and keeps exactly those
  of the others whose argument count is the number of bound inputs. With no candidate the
  call fails; otherwise the argument names of the first candidate are bound to the
  positions \<open>0, 1, ...\<close>, however many candidates there are.
\<close>

theorem fetch_annotated_args_first_candidate:
  assumes "input_tensors self \<noteq> []" "\<not> prefix ''prim::'' k"
  shows "let n = length (input_tensors self);
             candidates = filter (\<lambda>s. \<not> str_contains ''name'' (overload_name s)
                                      \<and> length (arguments s) = n) (schemas_for k)
         in collect_candidates n (schemas_for k) = candidates
          \<and> (if candidates = [] then \<exists>e. fetch_annotated_args schemas_for self k = Inl e
              else fetch_annotated_args schemas_for self k =
                     Inr (dict (zip (arguments (hd candidates)) [0..<n])))"
proof -
  define n where "n = length (input_tensors self)"
  define candidates where "candidates = filter (\<lambda>s. \<not> str_contains ''name'' (overload_name s)
                                      \<and> length (arguments s) = n) (schemas_for k)"
  have c: "collect_candidates n (schemas_for k) = candidates"
    unfolding candidates_def collect_candidates_filter ..
  have n0: "length (input_tensors self) \<noteq> 0" using assms(1) by simp
  have f: "fetch_annotated_args schemas_for self k =
      (if length candidates > 0 then Inr (dict (zip (arguments (hd candidates)) [0..<n]))
       else bind_err (py_index (output_names self) 0) (\<lambda>n0. Inl AssertionError))"
    unfolding fetch_annotated_args_def Let_def n_def[symmetric] c
    using n0 assms(2) by (simp add: n_def)
  have "if candidates = [] then \<exists>e. fetch_annotated_args schemas_for self k = Inl e
        else fetch_annotated_args schemas_for self k = Inr (dict (zip (arguments (hd candidates)) [0..<n]))"
  proof (cases "candidates = []")
    case True
    have "\<exists>e. bind_err (py_index (output_names self) 0) (\<lambda>n0. Inl AssertionError)
             = (Inl e :: py_error + (string \<times> nat) list)"
      by (cases "py_index (output_names self) 0") simp_all
    then show ?thesis using True by (simp add: f)
  next
    case False
    then show ?thesis by (simp add: f)
  qed
  then show ?thesis
    unfolding Let_def n_def[symmetric] candidates_def[symmetric] using c by simp
qed

theorem fetch_annotated_args_first_candidate_witness:
  "fetch_annotated_args (\<lambda>k. [add_Tensor, add_Scalar]) add_converter ''aten::add'' =
     Inr (dict (zip (arguments add_Tensor) [0..<3]))"
proof -
  have a: "input_tensors add_converter \<noteq> []" by (simp add: add_converter_def)
  have b: "\<not> prefix ''prim::'' ''aten::add''" by simp
  have n1: "\<not> str_contains ''name'' (overload_name add_Tensor)"
    by (simp add: add_Tensor_def)
  have n2: "\<not> str_contains ''name'' (overload_name add_Scalar)"
    by (simp add: add_Scalar_def)
  have l: "length (input_tensors add_converter) = 3" "length (arguments add_Tensor) = 3"
    "length (arguments add_Scalar) = 3"
    by (simp_all add: add_converter_def add_Tensor_def add_Scalar_def)
  show ?thesis
    using fetch_annotated_args_first_candidate[OF a b, of "\<lambda>k. [add_Tensor, add_Scalar]"]
    by (simp add: Let_def n1 n2 l)
qed

text \<open>
  Claim C9 as stated (overload-qualified schemas are excluded) fails: both schemas of
  \<^verbatim>\<open>aten::add\<close> below carry an overload name, none would remain, yet the first one is
  used to bind the arguments.
\<close>

theorem fetch_annotated_args_overload_counterexample:
  "overload_name add_Tensor \<noteq> [] \<and> overload_name add_Scalar \<noteq> []
   \<and> spec_candidates 3 [add_Tensor, add_Scalar] = []
   \<and> fetch_annotated_args (\<lambda>k. [add_Tensor, add_Scalar]) add_converter ''aten::add'' =
       Inr [(''self'', 0), (''other'', 1), (''alpha'', 2)]"
proof -
  have "fetch_annotated_args (\<lambda>k. [add_Tensor, add_Scalar]) add_converter ''aten::add'' =
       Inr [(''self'', 0), (''other'', 1), (''alpha'', 2)]"
    by code_simp
  then show ?thesis
    by (simp add: add_Tensor_def add_Scalar_def spec_candidates_def)
qed

section \<open>Quantizing a tensor\<close>

lemma iinfo_integer: "d \<noteq> Float32 \<Longrightarrow> \<exists>lo hi. iinfo d = Inr (lo, hi) \<and> lo < hi"
  by (cases d) simp_all

text \<open>The bounds of the integer dtypes as float32 numbers: all are exact but the
  greatest 32-bit integer, which becomes \<open>2^31\<close>.\<close>

lemma float32_of_bounds:
  "float32_of_int 0 = Finite 0" "float32_of_int 255 = Finite 255"
  "float32_of_int (- 128) = Finite (- 128)" "float32_of_int 127 = Finite 127"
  "float32_of_int (- 2147483648) = Finite (- 2147483648)"
  "float32_of_int 2147483647 = Finite 2147483648"
  by (code_simp, code_simp, code_simp, code_simp, code_simp, code_simp)

lemma float32_of_iinfo:
  assumes "iinfo d = Inr (lo, hi)"
  shows "float32_of_int lo = Finite (of_int lo)"
    "float32_of_int hi = Finite (if d = Int32 then of_int hi + 1 else of_int hi)"
  using assms by (cases d; simp add: float32_of_bounds)+

lemma trunc_toward_zero_of_int [simp]: "trunc_toward_zero (of_int n) = n"
  by (simp add: trunc_toward_zero_def)

lemma to_dtype_in_range:
  assumes "iinfo d = Inr (lo, hi)" "lo \<le> n" "n \<le> hi"
  shows "to_dtype d (Finite (of_int n)) = Value n"
  using assms by (cases d) auto


text \<open>
  Claim C6, as amended. For a float32 tensor, a Python float \<open>scale\<close>, a zero point that
  fits 64 bits and an integer target dtype, \<open>quantize\<close> never raises. Every element
  becomes \<open>round(value/scale + zero_point)\<close> in float32 arithmetic: the quotient and the
  sum are each rounded to float32, and the zero point is added before the rounding to
  the nearest integer (ties to even). A warning of an overflow is issued exactly when some
  rounded value is greater than the greatest value of the dtype as a float32 number,
  which is that value itself for the 8-bit dtypes and \<open>2^31\<close> for the 32-bit one; a warning
  of an underflow exactly when some rounded value is less than the least value of the
  dtype. Every rounded value, in range or not, is handed to the conversion to the dtype,
  which keeps an integer of the range as it is; the converted values are returned with
  the scale and the zero point.
\<close>

theorem quantize_warns_and_returns:
  assumes "dtype' \<noteq> Float32" "- (2 ^ 63) \<le> zero_point'" "zero_point' < 2 ^ 63"
  shows "\<exists>ws lo hi.
      iinfo dtype' = Inr (lo, hi)
    \<and> quantize tensor' scale' zero_point' dtype' =
        Inr (ws, \<lparr>fq_values = map (\<lambda>x. to_dtype dtype' (q_value x scale' (float32_of_int zero_point'))) tensor',
                   fq_scale = scale', fq_zero_point = zero_point'\<rparr>)
    \<and> ((''Overflow while quantizing the tensor'' \<in> set ws) =
         (\<exists>x \<in> set tensor'. flt (float32_of_int hi) (q_value x scale' (float32_of_int zero_point'))))
    \<and> ((''Underflow while quantizing the tensor'' \<in> set ws) =
         (\<exists>x \<in> set tensor'. flt (q_value x scale' (float32_of_int zero_point')) (float32_of_int lo)))
    \<and> set ws \<subseteq> {''Overflow while quantizing the tensor'', ''Underflow while quantizing the tensor''}
    \<and> float32_of_int hi = Finite (if dtype' = Int32 then of_int hi + 1 else of_int hi)
    \<and> float32_of_int lo = Finite (of_int lo)
    \<and> (\<forall>n. lo \<le> n \<and> n \<le> hi \<longrightarrow> to_dtype dtype' (Finite (of_int n)) = Value n)"
proof -
  obtain lo hi where i: "iinfo dtype' = Inr (lo, hi)"
    using iinfo_integer[OF assms(1)] by blast
  have z: "torch_scalar_int zero_point' = Inr (float32_of_int zero_point')"
    using assms(2,3) by (simp add: torch_scalar_int_def)
  have "quantize tensor' scale' zero_point' dtype' =
      Inr ((if \<exists>x \<in> set tensor'. flt (float32_of_int hi) (q_value x scale' (float32_of_int zero_point'))
            then [''Overflow while quantizing the tensor''] else [])
           @ (if \<exists>x \<in> set tensor'. flt (q_value x scale' (float32_of_int zero_point')) (float32_of_int lo)
              then [''Underflow while quantizing the tensor''] else []),
          \<lparr>fq_values = map (\<lambda>x. to_dtype dtype' (q_value x scale' (float32_of_int zero_point'))) tensor',
            fq_scale = scale', fq_zero_point = zero_point'\<rparr>)"
    unfolding quantize_def Let_def z i by (simp add: list_ex_iff comp_def)
  then show ?thesis
    using i float32_of_iinfo[OF i] to_dtype_in_range[OF i] by auto
qed

theorem quantize_warns_and_returns_witness:
  "\<exists>ws. quantize [Finite (1 / 2), Finite 301, Finite (- 3)] (Finite 1) 1 UInt8 =
        Inr (ws, \<lparr>fq_values = [Value 2, Value 46, Value 254], fq_scale = Finite 1, fq_zero_point = 1\<rparr>)
    \<and> ''Overflow while quantizing the tensor'' \<in> set ws
    \<and> ''Underflow while quantizing the tensor'' \<in> set ws"
proof -
  have d: "UInt8 \<noteq> Float32" by simp
  have v: "map (\<lambda>x. q_value x (Finite 1) (float32_of_int 1)) [Finite (1 / 2), Finite 301, Finite (- 3)]
      = [Finite 2, Finite 302, Finite (- 2)]"
    by code_simp
  then have q: "q_value (Finite (1 / 2)) (Finite 1) (float32_of_int 1) = Finite 2"
    "q_value (Finite 301) (Finite 1) (float32_of_int 1) = Finite 302"
    "q_value (Finite (- 3)) (Finite 1) (float32_of_int 1) = Finite (- 2)"
    by simp_all
  have c: "to_dtype UInt8 (Finite 2) = Value 2" "to_dtype UInt8 (Finite 302) = Value 46"
    "to_dtype UInt8 (Finite (- 2)) = Value 254"
    by (code_simp, code_simp, code_simp)
  from quantize_warns_and_returns[OF d, of 1 "[Finite (1 / 2), Finite 301, Finite (- 3)]" "Finite 1"]
  show ?thesis
    by (auto simp: q c float32_of_bounds simp del: to_dtype.simps)
qed

text \<open>
  Claim C6 as stated fails in three ways. The zero point is added before the rounding:
  for the value 0.5 with scale 1 and zero point 1 the source rounds 1.5 to 2, where
  \<open>round(value/scale) + zero_point\<close> is 1. A value out of range is not clamped by the
  conversion: 301 is stored in an unsigned 8-bit tensor as 45, not as 255. And a value out
  of range is not always reported: \<open>2^31\<close> is above the greatest 32-bit integer, but the
  comparison is one of float32 numbers, for which the two are equal, and no warning is
  issued.
\<close>

theorem quantize_round_and_wrap_counterexample:
  "quantize [Finite (1 / 2)] (Finite 1) 1 UInt8 =
       Inr ([], \<lparr>fq_values = [Value 2], fq_scale = Finite 1, fq_zero_point = 1\<rparr>)
   \<and> spec_quantize_value (Finite (1 / 2)) (Finite 1) (float32_of_int 1) = Finite 1
   \<and> quantize [Finite 301] (Finite 1) 0 UInt8 =
       Inr ([''Overflow while quantizing the tensor''],
            \<lparr>fq_values = [Value 45], fq_scale = Finite 1, fq_zero_point = 0\<rparr>)
   \<and> spec_clamp UInt8 301 = 255
   \<and> quantize [Finite 2147483648] (Finite 1) 0 Int32 =
       Inr ([], \<lparr>fq_values = [Unspecified], fq_scale = Finite 1, fq_zero_point = 0\<rparr>)
   \<and> iinfo Int32 = Inr (- 2147483648, 2147483647)"
proof (intro conjI)
  show "quantize [Finite (1 / 2)] (Finite 1) 1 UInt8 =
       Inr ([], \<lparr>fq_values = [Value 2], fq_scale = Finite 1, fq_zero_point = 1\<rparr>)"
    by code_simp
  show "spec_quantize_value (Finite (1 / 2)) (Finite 1) (float32_of_int 1) = Finite 1"
    by code_simp
  show "quantize [Finite 301] (Finite 1) 0 UInt8 =
       Inr ([''Overflow while quantizing the tensor''],
            \<lparr>fq_values = [Value 45], fq_scale = Finite 1, fq_zero_point = 0\<rparr>)"
    by code_simp
  show "spec_clamp UInt8 301 = 255"
    by (simp add: spec_clamp_def)
  show "quantize [Finite 2147483648] (Finite 1) 0 Int32 =
       Inr ([], \<lparr>fq_values = [Unspecified], fq_scale = Finite 1, fq_zero_point = 0\<rparr>)"
    by code_simp
  show "iinfo Int32 = Inr (- 2147483648, 2147483647)"
    by simp
qed

section \<open>Quantizing a scalar\<close>

lemma quantize_scalar_branches_by_sign:
  assumes "t_shape t = [1]" "t_values t = [v]"
  shows "quantize_scalar_branches a t =
     Inr \<lparr>q_source = t,
          q_scale = (if v = 0 then Finite (1 / 2) else ieee_div round32 (Finite \<bar>v\<bar>) (Finite 127)),
          q_zero_point = (if v = 0 then (if a then 128 else 0) else if v < 0 then (if a then 255 else 0) else 0),
          q_dtype = (if a then QUInt8 else QInt8)\<rparr>"
  using assms
  by (simp add: quantize_scalar_branches_def first_element_def py_index_def valid_index_def py_pos_def
      Let_def)

lemma torch_dtype_is_not_float32: "torch_dtype \<noteq> torch_float32"
  by (simp add: torch_dtype_def torch_float32_def)

text \<open>
  Claim C5 does not hold of the source. The second assertion compares the class
  \<^verbatim>\<open>torch.dtype\<close> with the dtype \<^verbatim>\<open>torch.float32\<close>, which are never equal, so every call of
  \<open>quantize_scalar_tensor\<close> ends in the assertion error and no quantization parameters are
  returned. (For a tensor of shape \<open>[1]\<close> the branches behind the assertion choose the zero
  point and the dtype as the claim says, and as scale the float32 quotient of the
  magnitude by 127: \<open>quantize_scalar_branches_by_sign\<close>.)
\<close>

theorem quantize_scalar_tensor_always_asserts:
  "quantize_scalar_tensor self t = Inl AssertionError"
  by (simp add: quantize_scalar_tensor_def torch_dtype_is_not_float32)

section \<open>Padding\<close>

lemma py_index_pred: "0 < j \<Longrightarrow> j \<le> length xs \<Longrightarrow> py_index xs (int j - 1) = Inr (xs ! (j - 1))"
  by (auto simp: py_index_def valid_index_def py_pos_def nat_diff_distrib' int_ops)

lemma py_insert_nat: "j \<le> length xs \<Longrightarrow> py_insert xs (int j) v = take j xs @ [v] @ drop j xs"
  by (simp add: py_insert_def Let_def min_def)

lemma set_op_input_nat:
  assumes "j < length ops" "inputs (ops ! j) \<noteq> []"
  shows "set_op_input ops (int j) 0 t = Inr (ops[j := (ops ! j)\<lparr>inputs := (inputs (ops ! j))[0 := t]\<rparr>])"
  using assms
  by (simp add: set_op_input_def py_index_nat py_setitem_first)
     (simp add: py_setitem_def valid_index_def py_pos_def)

lemma np_pad_zero:
  assumes "length (arr_shape a) = 4" "0 \<le> a1" "0 \<le> b1" "0 \<le> a2" "0 \<le> b2"
  shows "np_pad a [[0, 0], [a1, b1], [a2, b2], [0, 0]] None =
           Inr (Padded a [[0, 0], [a1, b1], [a2, b2], [0, 0]] None)"
  using assms by (simp add: np_pad_def)

lemma np_pad_float32:
  assumes "length (arr_shape a) = 4" "0 \<le> a1" "0 \<le> b1" "0 \<le> a2" "0 \<le> b2"
    "arr_dtype a = Float32"
  shows "np_pad a [[0, 0], [a1, b1], [a2, b2], [0, 0]] (Some v) =
           Inr (Padded a [[0, 0], [a1, b1], [a2, b2], [0, 0]] (Some v))"
  using assms by (simp add: np_pad_def fill_value_def)

text \<open>The least float32 number does not go into an array of integers.\<close>

lemma np_pad_integer:
  assumes "length (arr_shape a) = 4" "0 \<le> a1" "0 \<le> b1" "0 \<le> a2" "0 \<le> b2"
    "arr_dtype a \<noteq> Float32"
  shows "np_pad a [[0, 0], [a1, b1], [a2, b2], [0, 0]] (Some float32_min) = Inl OverflowError"
proof -
  have "fill_value (arr_dtype a) float32_min = Inl OverflowError"
    using assms(6)
    by (cases "arr_dtype a") (simp_all add: fill_value_def float32_min_def trunc_toward_zero_def)
  then show ?thesis using assms(1-5) by (simp add: np_pad_def)
qed

lemma insert_at:
  assumes "j < length ops"
  shows "take j (ops[j := x]) @ [v] @ drop j (ops[j := x]) = take j ops @ [v, x] @ drop (Suc j) ops"
  using assms by (simp add: drop_update_swap[symmetric] Cons_nth_drop_Suc[symmetric] upd_conv_take_nth_drop)

lemma all_covered_two:
  assumes "sh \<noteq> 0" "sw \<noteq> 0"
  shows "all_covered (zip [ih, iw] (zip [ph, pw] (zip [kh, kw] [sh, sw]))) =
     Inr ((ih + 2 * ph - kh) mod sh = 0 \<and> (iw + 2 * pw - kw) mod sw = 0)"
  using assms by simp

lemma ceil_mode_check_eq:
  assumes "2 \<le> length ops" "inputs (ops ! 0) \<noteq> []"
    "pool_params_of (kind (ops ! 1)) = Inr pp"
    "length (shape (inputs (ops ! 0) ! 0)) = 4"
    "strideH pp \<noteq> 0" "strideW pp \<noteq> 0"
    "\<not> ((shape (inputs (ops ! 0) ! 0) ! 2 + 2 * pad_h - filterHeight pp) mod strideH pp = 0
        \<and> (shape (inputs (ops ! 0) ! 0) ! 3 + 2 * pad_w - filterWidth pp) mod strideW pp = 0)"
  shows "ceil_mode_check pad_h pad_w ops =
     (if is_max_pool (kind (ops ! 1))
      then Inr (Some [ceil_extra (shape (inputs (ops ! 0) ! 0) ! 2) (filterHeight pp) (strideH pp) pad_h + pad_h,
                      ceil_extra (shape (inputs (ops ! 0) ! 0) ! 3) (filterWidth pp) (strideW pp) pad_w + pad_w])
      else Inl AssertionError)"
proof -
  let ?t = "inputs (ops ! 0) ! 0"
  have l: "0 < length ops" "1 < length ops" "0 < length (inputs (ops ! 0))"
    "2 < length (shape ?t)" "3 < length (shape ?t)"
    using assms(1,2,4) by (linarith, linarith, simp, linarith, linarith)
  have i0: "py_index ops 0 = Inr (ops ! 0)" and i1: "py_index ops 1 = Inr (ops ! 1)"
    using py_index_nat[OF l(1)] py_index_nat[OF l(2)] by simp_all
  have t: "py_index (inputs (ops ! 0)) 0 = Inr ?t"
    using py_index_nat[OF l(3)] by simp
  have s2: "py_index (shape ?t) 2 = Inr (shape ?t ! 2)" and s3: "py_index (shape ?t) 3 = Inr (shape ?t ! 3)"
    using py_index_nat[OF l(4)] py_index_nat[OF l(5)] by simp_all
  obtain n c h w where sh: "shape ?t = [n, c, h, w]"
    using assms(4) by (auto simp: length_Suc_conv numeral_eq_Suc)
  have g: "get_pool_ceil_padding (shape ?t) [filterHeight pp, filterWidth pp] [strideH pp, strideW pp] [pad_h, pad_w]
      = Inr [ceil_extra (shape ?t ! 2) (filterHeight pp) (strideH pp) pad_h,
             ceil_extra (shape ?t ! 3) (filterWidth pp) (strideW pp) pad_w]"
    using get_pool_ceil_padding_eq[of "[pad_h, pad_w]" "[n, c, h, w]" "[filterHeight pp, filterWidth pp]" "[strideH pp, strideW pp]"]
      assms(5,6)
    by (simp add: sh py_last_slice_def less_Suc_eq upt_rec[of 0] upt_rec[of 1] upt_rec[of "Suc 0"])
  show ?thesis
    unfolding ceil_mode_check_def Let_def
    using assms(3,5,6,7) g
    by (auto simp: i0 i1 t s2 s3)
qed


lemma with_pad_before_length [simp]:
  "j < length ops \<Longrightarrow> length (with_pad_before j p ops) = Suc (length ops)"
  by (simp add: with_pad_before_def)

lemma with_pad_before_nth_pad [simp]:
  "j < length ops \<Longrightarrow> with_pad_before j p ops ! j = p"
  by (simp add: with_pad_before_def nth_append)

lemma with_pad_before_nth_next [simp]:
  "j < length ops \<Longrightarrow>
   with_pad_before j p ops ! Suc j = (ops ! j)\<lparr>inputs := (inputs (ops ! j))[0 := hd (outputs p)]\<rparr>"
  by (simp add: with_pad_before_def nth_append)

lemma with_pad_before_nth_less [simp]:
  "i < j \<Longrightarrow> j < length ops \<Longrightarrow> with_pad_before j p ops ! i = ops ! i"
  by (simp add: with_pad_before_def nth_append)

lemma insert_base_pad_eq:
  assumes "0 < j" "j < length ops" "outputs (ops ! (j - 1)) \<noteq> []" "inputs (ops ! j) \<noteq> []"
    "output_names self \<noteq> []" "length (arr_shape (tensor (outputs (ops ! (j - 1)) ! 0))) = 4"
    "0 \<le> pad_h" "0 \<le> pad_w"
  shows "insert_base_pad self pad_h pad_w (int j) ops =
    (let pad = [[0, 0], [pad_h, pad_h], [pad_w, pad_w], [0, 0]];
         pad_input = outputs (ops ! (j - 1)) ! 0;
         pad_tensor = Tensor (IntArray2 pad) (attr_name self) True None;
         self1 = self\<lparr>attr_count := attr_count self + 1\<rparr>;
         pad_out = Tensor (Padded (tensor pad_input) pad None) (transform_name self1) False
                     (quantization pad_input)
     in Inr (with_pad_before j \<lparr>kind = PadOperator, inputs = [pad_input, pad_tensor], outputs = [pad_out]\<rparr> ops,
             self1\<lparr>transform_count := transform_count self1 + 1\<rparr>))"
proof -
  let ?self1 = "self\<lparr>attr_count := attr_count self + 1\<rparr>"
  have n1: "output_names ?self1 \<noteq> []" using assms(5) by simp
  have le: "j \<le> length ops" using assms(2) by simp
  have o: "0 < length (outputs (ops ! (j - 1)))" using assms(3) by simp
  have pi: "py_index (outputs (ops ! (j - 1))) 0 = Inr (outputs (ops ! (j - 1)) ! 0)"
    using py_index_nat[OF o] by simp
  show ?thesis
    unfolding insert_base_pad_def Let_def
    by (simp only: create_attr_tensor_ok[OF assms(5)] bind_err_Inr prod.case
          py_index_pred[OF assms(1) le] pi np_pad_zero[OF assms(6) assms(7,7,8,8)]
          create_transform_tensor_ok[OF n1] set_op_input_nat[OF assms(2,4)]
          py_insert_nat length_list_update le insert_at[OF assms(2)]
          with_pad_before_def operator.simps list.sel)
qed


lemma insert_fill_pad_eq:
  assumes "0 < fi" "fi < length ops" "outputs (ops ! (fi - 1)) \<noteq> []" "inputs (ops ! fi) \<noteq> []"
    "output_names self \<noteq> []" "length (arr_shape (tensor (outputs (ops ! (fi - 1)) ! 0))) = 4"
    "0 \<le> c0" "0 \<le> c1"
    "(if pad_h + pad_w > 0 then pad_op_index + 1 else pad_op_index) = int fi"
    "arr_dtype (tensor (outputs (ops ! (fi - 1)) ! 0)) = Float32"
  shows "insert_fill_pad self pad_h pad_w pad_op_index [c0, c1] ops =
    (let pad = [[0, 0], [0, c0], [0, c1], [0, 0]];
         pad_input = outputs (ops ! (fi - 1)) ! 0;
         pad_tensor = Tensor (IntArray2 pad) (attr_name self) True None;
         self1 = self\<lparr>attr_count := attr_count self + 1\<rparr>;
         constant_arr = (case quantization pad_input of
                 Some q \<Rightarrow> FakeQuantTensor (Zeros 1 (dtype pad_input)) (scale q) (zero_point q)
               | None \<Rightarrow> FloatArray [float32_min]);
         constant_tensor = Tensor constant_arr (attr_name self1) True None;
         self2 = self1\<lparr>attr_count := attr_count self1 + 1\<rparr>;
         pad_out = Tensor (Padded (tensor pad_input) pad (Some float32_min)) (transform_name self2) False
                     (quantization pad_input)
     in Inr (with_pad_before fi
               \<lparr>kind = Padv2Operator, inputs = [pad_input, pad_tensor, constant_tensor], outputs = [pad_out]\<rparr> ops,
             self2\<lparr>transform_count := transform_count self2 + 1\<rparr>))"
proof -
  let ?self1 = "self\<lparr>attr_count := attr_count self + 1\<rparr>"
  let ?self2 = "?self1\<lparr>attr_count := attr_count ?self1 + 1\<rparr>"
  have n1: "output_names ?self1 \<noteq> []" and n2: "output_names ?self2 \<noteq> []"
    using assms(5) by simp_all
  have le: "fi \<le> length ops" using assms(2) by simp
  have o: "0 < length (outputs (ops ! (fi - 1)))" using assms(3) by simp
  have pi: "py_index (outputs (ops ! (fi - 1))) 0 = Inr (outputs (ops ! (fi - 1)) ! 0)"
    using py_index_nat[OF o] by simp
  have c: "py_index [c0, c1] 0 = Inr c0" "py_index [c0, c1] 1 = Inr c1"
    by (simp_all add: py_index_def valid_index_def py_pos_def)
  show ?thesis
    unfolding insert_fill_pad_def Let_def assms(9)
    by (simp only: c create_attr_tensor_ok[OF assms(5)] bind_err_Inr prod.case
          py_index_pred[OF assms(1) le] pi
          np_pad_float32[OF assms(6) order_refl assms(7) order_refl assms(8) assms(10)]
          create_attr_tensor_ok[OF n1]
          create_transform_tensor_ok[OF n2] set_op_input_nat[OF assms(2,4)]
          py_insert_nat length_list_update le insert_at[OF assms(2)]
          with_pad_before_def operator.simps list.sel)
qed


lemma handle_padding_not_max_pool:
  assumes "2 \<le> length ops" "inputs (ops ! 0) \<noteq> []"
    "pool_params_of (kind (ops ! 1)) = Inr pp"
    "length (shape (inputs (ops ! 0) ! 0)) = 4"
    "strideH pp \<noteq> 0" "strideW pp \<noteq> 0"
    "\<not> ((shape (inputs (ops ! 0) ! 0) ! 2 + 2 * pad_h - filterHeight pp) mod strideH pp = 0
        \<and> (shape (inputs (ops ! 0) ! 0) ! 3 + 2 * pad_w - filterWidth pp) mod strideW pp = 0)"
    "\<not> is_max_pool (kind (ops ! 1))"
  shows "handle_padding self pad_h pad_w pad_op_index ops True = Inl AssertionError"
  unfolding handle_padding_def ceil_mode_check_eq[OF assms(1-7)] using assms(8) by simp

lemma handle_padding_fill_only:
  assumes "2 \<le> length ops" "inputs (ops ! 0) \<noteq> []"
    "pool_params_of (kind (ops ! 1)) = Inr pp"
    "length (shape (inputs (ops ! 0) ! 0)) = 4"
    "strideH pp \<noteq> 0" "strideW pp \<noteq> 0"
    "\<not> ((shape (inputs (ops ! 0) ! 0) ! 2 + 2 * pad_h - filterHeight pp) mod strideH pp = 0
        \<and> (shape (inputs (ops ! 0) ! 0) ! 3 + 2 * pad_w - filterWidth pp) mod strideW pp = 0)"
    "is_max_pool (kind (ops ! 1))"
    "0 < j" "j < length ops" "outputs (ops ! (j - 1)) \<noteq> []" "inputs (ops ! j) \<noteq> []"
    "output_names self \<noteq> []" "length (arr_shape (tensor (outputs (ops ! (j - 1)) ! 0))) = 4"
    "0 \<le> ceil_extra (shape (inputs (ops ! 0) ! 0) ! 2) (filterHeight pp) (strideH pp) pad_h + pad_h"
    "0 \<le> ceil_extra (shape (inputs (ops ! 0) ! 0) ! 3) (filterWidth pp) (strideW pp) pad_w + pad_w"
    "\<not> pad_h + pad_w > 0"
  shows "handle_padding self pad_h pad_w (int j) ops True =
     insert_fill_pad self pad_h pad_w (int j)
       [ceil_extra (shape (inputs (ops ! 0) ! 0) ! 2) (filterHeight pp) (strideH pp) pad_h + pad_h,
        ceil_extra (shape (inputs (ops ! 0) ! 0) ! 3) (filterWidth pp) (strideW pp) pad_w + pad_w] ops"
  unfolding handle_padding_def ceil_mode_check_eq[OF assms(1-7)] using assms(8,17) by simp

lemma handle_padding_base_and_fill:
  assumes "2 \<le> length ops" "inputs (ops ! 0) \<noteq> []"
    "pool_params_of (kind (ops ! 1)) = Inr pp"
    "length (shape (inputs (ops ! 0) ! 0)) = 4"
    "strideH pp \<noteq> 0" "strideW pp \<noteq> 0"
    "\<not> ((shape (inputs (ops ! 0) ! 0) ! 2 + 2 * pad_h - filterHeight pp) mod strideH pp = 0
        \<and> (shape (inputs (ops ! 0) ! 0) ! 3 + 2 * pad_w - filterWidth pp) mod strideW pp = 0)"
    "is_max_pool (kind (ops ! 1))"
    "pad_h + pad_w > 0"
    "insert_base_pad self pad_h pad_w (int j) ops = Inr (ops1, self1)"
  shows "handle_padding self pad_h pad_w (int j) ops True =
     insert_fill_pad self1 pad_h pad_w (int j)
       [ceil_extra (shape (inputs (ops ! 0) ! 0) ! 2) (filterHeight pp) (strideH pp) pad_h + pad_h,
        ceil_extra (shape (inputs (ops ! 0) ! 0) ! 3) (filterWidth pp) (strideW pp) pad_w + pad_w] ops1"
  unfolding handle_padding_def ceil_mode_check_eq[OF assms(1-7)] using assms(8,9,10) by simp

lemma constant_lowest:
  assumes "(quantization t = None \<and> dtype t = Float32) \<or> (quantization t \<noteq> None \<and> dtype t = UInt8)"
  shows "constant_values (tensor (Tensor
           (case quantization t of
              Some q \<Rightarrow> FakeQuantTensor (Zeros 1 (dtype t)) (scale q) (zero_point q)
            | None \<Rightarrow> FloatArray [float32_min]) n True None))
         = Some [dtype_lowest (dtype t)]"
  using assms by (auto simp: Tensor_def split: option.splits)


lemma Tensor_sel [simp]:
  "name (Tensor a n b q) = n" "has_buffer (Tensor a n b q) = b"
  "shape (Tensor a n b q) = arr_shape a" "dtype (Tensor a n b q) = arr_dtype a"
  "tensor (Tensor a n b q) = a"
  by (simp_all add: Tensor_def)

lemma Tensor_quantization_Padded [simp]:
  "quantization (Tensor (Padded a pad fill) n b q) = q"
  by (simp add: Tensor_def)

text \<open>What the method does with \<open>ceil_mode\<close> set when some spatial dimension has
  \<open>(size + 2 * pad - kernel) % stride \<noteq> 0\<close>, for an unquantized float32 tensor and pad
  amounts that are not negative: an assertion error when \<open>ops[1]\<close> is not a max-pooling op;
  otherwise a fill-value pad op directly in front of the windowed op, behind the base pad
  op when \<open>pad_h + pad_w > 0\<close>, whose pad amounts are \<open>[0, extra + pad]\<close> on the two middle
  axes: the extra ceil padding plus the base padding.\<close>

lemma handle_padding_fill_pad_float32:
  assumes "2 \<le> length ops" "inputs (ops ! 0) \<noteq> []"
    "pool_params_of (kind (ops ! 1)) = Inr pp"
    "length (shape (inputs (ops ! 0) ! 0)) = 4"
    "strideH pp \<noteq> 0" "strideW pp \<noteq> 0"
    "\<not> ((shape (inputs (ops ! 0) ! 0) ! 2 + 2 * pad_h - filterHeight pp) mod strideH pp = 0
        \<and> (shape (inputs (ops ! 0) ! 0) ! 3 + 2 * pad_w - filterWidth pp) mod strideW pp = 0)"
    "0 < j" "j < length ops" "outputs (ops ! (j - 1)) \<noteq> []" "inputs (ops ! j) \<noteq> []"
    "output_names self \<noteq> []"
    "length (arr_shape (tensor (outputs (ops ! (j - 1)) ! 0))) = 4"
    "dtype (outputs (ops ! (j - 1)) ! 0) = arr_dtype (tensor (outputs (ops ! (j - 1)) ! 0))"
    "0 \<le> pad_h" "0 \<le> pad_w"
    "0 \<le> ceil_extra (shape (inputs (ops ! 0) ! 0) ! 2) (filterHeight pp) (strideH pp) pad_h + pad_h"
    "0 \<le> ceil_extra (shape (inputs (ops ! 0) ! 0) ! 3) (filterWidth pp) (strideW pp) pad_w + pad_w"
    "quantization (outputs (ops ! (j - 1)) ! 0) = None \<and> dtype (outputs (ops ! (j - 1)) ! 0) = Float32"
  shows "if is_max_pool (kind (ops ! 1))
    then (\<exists>ops' self'.
        handle_padding self pad_h pad_w (int j) ops True = Inr (ops', self')
      \<and> (let fi = (if pad_h + pad_w > 0 then j + 1 else j) in
          length ops' = length ops + (if pad_h + pad_w > 0 then 2 else 1)
        \<and> (if pad_h + pad_w > 0
            then kind (ops' ! j) = PadOperator
               \<and> inputs (ops' ! j) ! 0 = outputs (ops ! (j - 1)) ! 0
               \<and> tensor (inputs (ops' ! j) ! 1) = IntArray2 [[0, 0], [pad_h, pad_h], [pad_w, pad_w], [0, 0]]
               \<and> inputs (ops' ! fi) ! 0 = outputs (ops' ! j) ! 0
            else inputs (ops' ! fi) ! 0 = outputs (ops ! (j - 1)) ! 0)
        \<and> kind (ops' ! fi) = Padv2Operator
        \<and> tensor (inputs (ops' ! fi) ! 1) =
            IntArray2 [[0, 0],
              [0, ceil_extra (shape (inputs (ops ! 0) ! 0) ! 2) (filterHeight pp) (strideH pp) pad_h + pad_h],
              [0, ceil_extra (shape (inputs (ops ! 0) ! 0) ! 3) (filterWidth pp) (strideW pp) pad_w + pad_w],
              [0, 0]]
        \<and> constant_values (tensor (inputs (ops' ! fi) ! 2)) = Some [dtype_lowest (dtype (inputs (ops' ! fi) ! 0))]
        \<and> kind (ops' ! (fi + 1)) = kind (ops ! j)
        \<and> inputs (ops' ! (fi + 1)) ! 0 = outputs (ops' ! fi) ! 0))
    else handle_padding self pad_h pad_w (int j) ops True = Inl AssertionError"
proof (cases "is_max_pool (kind (ops ! 1))")
  case False
  then show ?thesis
    using handle_padding_not_max_pool[OF assms(1-7) False] by simp
next
  case True
  define eh where "eh = ceil_extra (shape (inputs (ops ! 0) ! 0) ! 2) (filterHeight pp) (strideH pp) pad_h + pad_h"
  define ew where "ew = ceil_extra (shape (inputs (ops ! 0) ! 0) ! 3) (filterWidth pp) (strideW pp) pad_w + pad_w"
  define pad_input where "pad_input = outputs (ops ! (j - 1)) ! 0"
  have e0: "0 \<le> eh" "0 \<le> ew" using assms(17,18) by (simp_all add: eh_def ew_def)
  note q = disjI1[OF assms(19)[folded pad_input_def],
      of "quantization pad_input \<noteq> None \<and> dtype pad_input = UInt8"]
  have ad: "arr_dtype (tensor (outputs (ops ! (j - 1)) ! 0)) = Float32"
    using assms(14,19) by simp
  show ?thesis
  proof (cases "pad_h + pad_w > 0")
    case nobase: False
    have fi: "(if pad_h + pad_w > 0 then int j + 1 else int j) = int j" using nobase by simp
    have hp: "handle_padding self pad_h pad_w (int j) ops True =
        insert_fill_pad self pad_h pad_w (int j) [eh, ew] ops"
      unfolding eh_def ew_def
      by (rule handle_padding_fill_only[OF assms(1-7) True assms(8-13) assms(17,18) nobase])
    note r = insert_fill_pad_eq[OF assms(8-13) e0 fi ad, unfolded Let_def, folded pad_input_def]
    show ?thesis
      using True nobase assms(9,11) constant_lowest[OF q]
      unfolding hp r Let_def eh_def[symmetric] ew_def[symmetric] pad_input_def[symmetric]
      by (simp add: nth_list_update)
  next
    case base: True
    define selfa where "selfa = self\<lparr>attr_count := attr_count self + 1\<rparr>"
    define pad_tensor where "pad_tensor = Tensor (IntArray2 [[0, 0], [pad_h, pad_h], [pad_w, pad_w], [0, 0]]) (attr_name self) True None"
    define pad_out where "pad_out = Tensor (Padded (tensor pad_input) [[0, 0], [pad_h, pad_h], [pad_w, pad_w], [0, 0]] None)
        (transform_name selfa) False (quantization pad_input)"
    define pad_op where "pad_op = \<lparr>kind = PadOperator, inputs = [pad_input, pad_tensor], outputs = [pad_out]\<rparr>"
    define ops1 where "ops1 = with_pad_before j pad_op ops"
    define self1 where "self1 = selfa\<lparr>transform_count := transform_count selfa + 1\<rparr>"
    have b: "insert_base_pad self pad_h pad_w (int j) ops = Inr (ops1, self1)"
      unfolding insert_base_pad_eq[OF assms(8-13) assms(15,16)] Let_def ops1_def self1_def pad_op_def
        pad_out_def pad_tensor_def selfa_def pad_input_def ..
    have hp: "handle_padding self pad_h pad_w (int j) ops True =
        insert_fill_pad self1 pad_h pad_w (int j) [eh, ew] ops1"
      unfolding eh_def ew_def
      by (rule handle_padding_base_and_fill[OF assms(1-7) True base b])
    have fi: "(if pad_h + pad_w > 0 then int j + 1 else int j) = int (Suc j)" using base by simp
    have l1: "0 < Suc j" "Suc j < length ops1" using assms(9) by (simp_all add: ops1_def)
    have prev: "ops1 ! j = pad_op" using assms(9) by (simp add: ops1_def)
    have nxt: "ops1 ! Suc j = (ops ! j)\<lparr>inputs := (inputs (ops ! j))[0 := pad_out]\<rparr>"
      using assms(9) by (simp add: ops1_def pad_op_def)
    have o1: "outputs (ops1 ! (Suc j - 1)) \<noteq> []" by (simp add: prev pad_op_def)
    have i1: "inputs (ops1 ! Suc j) \<noteq> []" using assms(11) by (simp add: nxt)
    have n1: "output_names self1 \<noteq> []" using assms(12) by (simp add: self1_def selfa_def)
    have po: "outputs (ops1 ! (Suc j - 1)) ! 0 = pad_out" by (simp add: prev pad_op_def)
    have "length (arr_shape (tensor pad_out)) = 4"
      using assms(13) by (simp add: pad_out_def pad_input_def)
    then have rk: "length (arr_shape (tensor (outputs (ops1 ! (Suc j - 1)) ! 0))) = 4"
      by (simp only: po)
    have q': "(quantization pad_out = None \<and> dtype pad_out = Float32)
       \<or> (quantization pad_out \<noteq> None \<and> dtype pad_out = UInt8)"
      using q assms(14) by (simp add: pad_out_def pad_input_def)
    have "arr_dtype (tensor pad_out) = Float32"
      using ad by (simp add: pad_out_def pad_input_def)
    then have ad1: "arr_dtype (tensor (outputs (ops1 ! (Suc j - 1)) ! 0)) = Float32"
      by (simp only: po)
    note r = insert_fill_pad_eq[OF l1 o1 i1 n1 rk e0 fi ad1, unfolded Let_def po]
    have lo: "length ops1 = Suc (length ops)" using assms(9) by (simp add: ops1_def)
    show ?thesis
      using True base assms(9,11) constant_lowest[OF q'] l1
      unfolding hp r Let_def eh_def[symmetric] ew_def[symmetric] pad_input_def[symmetric]
      by (simp add: nth_list_update lo nxt)
         (simp add: ops1_def pad_op_def pad_tensor_def)
  qed
qed

text \<open>For a quantized tensor held in an array of integers the call does not get as far as
  the second pad op: NumPy refuses the fill value.\<close>

lemma handle_padding_int8_overflow:
  "handle_padding pool_converter 1 1 1 pool_ops_int8 True = Inl OverflowError"
  by code_simp

text \<open>When the extra amount plus the base padding is negative, NumPy refuses the pad
  widths: for a 9x9 input, kernel 2, stride 5 and no padding the amount is \<open>-1\<close>.\<close>

lemma handle_padding_negative_amount:
  "get_pool_ceil_padding [1, 1, 9, 9] [2, 2] [5, 5] [0, 0] = Inr [- 1, - 1]"
  "handle_padding pool_converter 0 0 1 pool_ops_9x9 True = Inl ValueError"
  by (code_simp, code_simp)

text \<open>
  Claim C7 does not hold of the source: the second pad op is not sized by the extra
  ceil-padding amount. The source adds the base padding to that amount
  (\<^verbatim>\<open>ceil_pad = list(np.add(ceil_pad, padding))\<close>) although the base pad op in front has
  already applied it, so the base padding is counted twice at the end of each spatial
  axis. For a 3x3 max-pooling of stride 2 with padding 1 over a 4x4 input the extra
  amount is 2; the base pad op makes the input 6x6, the fill-value pad op pads by 3 and
  makes it 9x9, over which the pooling has 4 windows per axis, while the output tensor of
  the op has 3, the number that the extra amount alone gives (8x8).
\<close>

theorem handle_padding_pads_base_twice:
  "get_pool_ceil_padding (shape pool_input) [3, 3] [2, 2] [1, 1] = Inr [2, 2]
   \<and> (\<exists>ops' self'.
        handle_padding pool_converter 1 1 1 (pool_ops (MaxPool2dOperator pool_3x3_s2)) True = Inr (ops', self')
      \<and> map kind ops' = [TransposeOperator, PadOperator, Padv2Operator, MaxPool2dOperator pool_3x3_s2,
                          TransposeOperator]
      \<and> tensor (inputs (ops' ! 1) ! 1) = IntArray2 [[0, 0], [1, 1], [1, 1], [0, 0]]
      \<and> shape (outputs (ops' ! 1) ! 0) = [1, 6, 6, 1]
      \<and> inputs (ops' ! 2) ! 0 = outputs (ops' ! 1) ! 0
      \<and> tensor (inputs (ops' ! 2) ! 1) = IntArray2 [[0, 0], [0, 3], [0, 3], [0, 0]]
      \<and> shape (outputs (ops' ! 2) ! 0) = [1, 9, 9, 1]
      \<and> inputs (ops' ! 3) ! 0 = outputs (ops' ! 2) ! 0
      \<and> shape (outputs (ops' ! 3) ! 0) = [1, 3, 3, 1])
   \<and> pool_windows 9 3 2 = 4
   \<and> pool_windows (6 + 2) 3 2 = 3"
proof (intro conjI)
  show "get_pool_ceil_padding (shape pool_input) [3, 3] [2, 2] [1, 1] = Inr [2, 2]"
    by code_simp
  have "(case handle_padding pool_converter 1 1 1 (pool_ops (MaxPool2dOperator pool_3x3_s2)) True of
           Inl e \<Rightarrow> None
         | Inr (ops', self') \<Rightarrow>
             Some (map kind ops', tensor (inputs (ops' ! 1) ! 1), shape (outputs (ops' ! 1) ! 0),
                   inputs (ops' ! 2) ! 0 = outputs (ops' ! 1) ! 0, tensor (inputs (ops' ! 2) ! 1),
                   shape (outputs (ops' ! 2) ! 0), inputs (ops' ! 3) ! 0 = outputs (ops' ! 2) ! 0,
                   shape (outputs (ops' ! 3) ! 0)))
        = Some ([TransposeOperator, PadOperator, Padv2Operator, MaxPool2dOperator pool_3x3_s2,
                 TransposeOperator],
                IntArray2 [[0, 0], [1, 1], [1, 1], [0, 0]], [1, 6, 6, 1], True,
                IntArray2 [[0, 0], [0, 3], [0, 3], [0, 0]], [1, 9, 9, 1], True, [1, 3, 3, 1])"
    by code_simp
  then show "\<exists>ops' self'.
        handle_padding pool_converter 1 1 1 (pool_ops (MaxPool2dOperator pool_3x3_s2)) True = Inr (ops', self')
      \<and> map kind ops' = [TransposeOperator, PadOperator, Padv2Operator, MaxPool2dOperator pool_3x3_s2,
                          TransposeOperator]
      \<and> tensor (inputs (ops' ! 1) ! 1) = IntArray2 [[0, 0], [1, 1], [1, 1], [0, 0]]
      \<and> shape (outputs (ops' ! 1) ! 0) = [1, 6, 6, 1]
      \<and> inputs (ops' ! 2) ! 0 = outputs (ops' ! 1) ! 0
      \<and> tensor (inputs (ops' ! 2) ! 1) = IntArray2 [[0, 0], [0, 3], [0, 3], [0, 0]]
      \<and> shape (outputs (ops' ! 2) ! 0) = [1, 9, 9, 1]
      \<and> inputs (ops' ! 3) ! 0 = outputs (ops' ! 2) ! 0
      \<and> shape (outputs (ops' ! 3) ! 0) = [1, 3, 3, 1]"
    by (auto split: sum.splits)
  show "pool_windows 9 3 2 = 4" by (simp add: pool_windows_def)
  show "pool_windows (6 + 2) 3 2 = 3" by (simp add: pool_windows_def)
qed

section \<open>Rescaling the weight scale for QNNPACK\<close>

lemma times_ten_step:
  assumes "tiny64 \<le> w"
  shows "fmul64 (Finite w) (Finite 10) = PosInf
     \<or> (\<exists>w'. fmul64 (Finite w) (Finite 10) = Finite w' \<and> 5 * w \<le> w' \<and> tiny64 \<le> w' \<and> w' < pow2 1024)"
proof -
  have t0: "0 < tiny64" by (simp add: tiny64_def)
  then have "tiny64 \<le> w * 10" using assms by linarith
  from round64_positive[OF this] show ?thesis
    using t0 assms by (auto simp: fmul64_def ieee_mul_def)
qed


section \<open>The rescaling loop\<close>

lemma qnnpack_shift_no_error:
  assumes "0 < o'"
  shows "\<exists>s. qnnpack_shift numpy x w (Finite o') = Inr s"
  using assms by (simp add: qnnpack_shift_def Let_def fdiv64_def)

lemma fp32_sign_exponent_PosInf [simp]: "fp32_sign_exponent PosInf = 255"
  by (simp add: fp32_sign_exponent_def)

lemma product_at_infinity:
  assumes "0 < a" "0 < o'"
  shows "fmul64 (Finite a) PosInf = PosInf" "fdiv64 PosInf (Finite o') = Inr PosInf"
  using assms by (simp_all add: fmul64_def ieee_mul_def fdiv64_def ieee_div_def inf_of_def)

lemma qnnpack_shift_at_infinity:
  assumes "0 < a" "0 < o'"
  shows "qnnpack_shift NumPy_1 (Finite a) PosInf (Finite o') = Inr (- 129)"
  by (simp add: qnnpack_shift_def Let_def product_at_infinity[OF assms] shift_of_def)

lemma times_ten_0 [simp]: "times_ten 0 w = w"
  by (simp add: times_ten_def)

lemma times_ten_Suc: "times_ten (Suc k) w = times_ten k (fmul64 w (Finite 10))"
proof -
  define f where "f = (\<lambda>x. fmul64 x (Finite 10))"
  have "(f ^^ Suc k) w = (f ^^ k) (f w)" by (simp add: funpow_swap1)
  then show ?thesis by (simp add: times_ten_def f_def)
qed

lemma measure_decreases:
  assumes "0 < w" "w < pow2 1024" "5 * w \<le> w'"
  shows "nat \<lfloor>pow2 1100 / w'\<rfloor> < nat \<lfloor>pow2 1100 / w\<rfloor>"
proof -
  have w': "0 < w'" using assms(1,3) by linarith
  have "pow2 1100 = pow2 76 * pow2 1024" by (simp add: pow2_add[symmetric])
  moreover have "(1::rat) \<le> pow2 76" using pow2_mono[of 0 76] by (simp add: pow2_def)
  ultimately have big: "5 * w \<le> pow2 1100"
  proof -
    have "(5::rat) \<le> pow2 76" by (simp add: pow2_def)
    then have "5 * w \<le> pow2 76 * w" using assms(1) by (simp add: mult_right_mono)
    also have "\<dots> \<le> pow2 76 * pow2 1024" using assms(2) by (simp add: mult_left_mono less_imp_le)
    also have "\<dots> = pow2 1100" by (simp add: pow2_add[symmetric])
    finally show ?thesis .
  qed
  have a: "pow2 1100 / w' \<le> pow2 1100 / (5 * w)"
    by (rule divide_left_mono) (use assms(1,3) w' in \<open>simp_all add: less_imp_le\<close>)
  have b: "5 \<le> pow2 1100 / w" using big assms(1) by (simp add: pos_le_divide_eq)
  have c: "pow2 1100 / (5 * w) = (pow2 1100 / w) / 5" by simp
  define Y where "Y = pow2 1100 / w"
  define Z where "Z = pow2 1100 / w'"
  have "Z \<le> Y / 5" "5 \<le> Y" using a b unfolding c Y_def Z_def by simp_all
  then have "Z + 1 \<le> Y" by linarith
  then have "pow2 1100 / w' + 1 \<le> pow2 1100 / w" by (simp add: Y_def Z_def)
  then have "\<lfloor>pow2 1100 / w'\<rfloor> + 1 \<le> \<lfloor>pow2 1100 / w\<rfloor>"
    by (metis floor_mono floor_add_int add.commute floor_one le_floor_iff of_int_1 of_int_add)
  moreover have "0 \<le> \<lfloor>pow2 1100 / w'\<rfloor>" using w' by (simp add: zero_le_divide_iff less_imp_le)
  ultimately show ?thesis by linarith
qed

lemma rescale_from:
  assumes a: "0 < a" and o: "0 < o'"
  shows "tiny64 \<le> w \<Longrightarrow> w < pow2 1024 \<Longrightarrow>
    \<exists>w' k s. rescale_weight_scale_for_qnnpack NumPy_1 (Finite a) (Finite w) (Finite o') = Some (Inr w')
      \<and> w' = times_ten k (Finite w) \<and> fle (Finite w) w'
      \<and> qnnpack_shift NumPy_1 (Finite a) w' (Finite o') = Inr s \<and> s < 32
      \<and> (\<forall>i<k. \<exists>t. qnnpack_shift NumPy_1 (Finite a) (times_ten i (Finite w)) (Finite o') = Inr t \<and> 32 \<le> t)"
proof (induction w rule: measure_induct_rule[where f = "\<lambda>w. nat \<lfloor>pow2 1100 / w\<rfloor>"])
  case (less w)
  have wpos: "0 < w" using less.prems(1) by (simp add: tiny64_def) (use pow2_pos[of "- 1074"] in linarith)
  obtain s0 where s0: "qnnpack_shift NumPy_1 (Finite a) (Finite w) (Finite o') = Inr s0"
    using qnnpack_shift_no_error[OF o] by blast
  show ?case
  proof (cases "32 \<le> s0")
    case False
    have "rescale_weight_scale_for_qnnpack NumPy_1 (Finite a) (Finite w) (Finite o') = Some (Inr (Finite w))"
      by (subst rescale_weight_scale_for_qnnpack.simps) (use False in \<open>simp add: s0\<close>)
    then show ?thesis
      using s0 False by (intro exI[of _ "Finite w"] exI[of _ 0] exI[of _ s0]) simp
  next
    case True
    have unfold: "rescale_weight_scale_for_qnnpack NumPy_1 (Finite a) (Finite w) (Finite o') =
        rescale_weight_scale_for_qnnpack NumPy_1 (Finite a) (fmul64 (Finite w) (Finite 10)) (Finite o')"
      by (subst rescale_weight_scale_for_qnnpack.simps) (use True in \<open>simp add: s0\<close>)
    from times_ten_step[OF less.prems(1)] show ?thesis
    proof
      assume inf: "fmul64 (Finite w) (Finite 10) = PosInf"
      have "rescale_weight_scale_for_qnnpack NumPy_1 (Finite a) PosInf (Finite o') = Some (Inr PosInf)"
        by (subst rescale_weight_scale_for_qnnpack.simps)
           (simp add: qnnpack_shift_at_infinity[OF a o])
      then have r: "rescale_weight_scale_for_qnnpack NumPy_1 (Finite a) (Finite w) (Finite o') = Some (Inr PosInf)"
        by (simp only: unfold inf)
      have t1: "times_ten 1 (Finite w) = PosInf"
        using inf by (simp add: times_ten_def)
      have f: "fle (Finite w) PosInf" by simp
      have e: "\<forall>i<1. \<exists>t. qnnpack_shift NumPy_1 (Finite a) (times_ten i (Finite w)) (Finite o') = Inr t \<and> 32 \<le> t"
        using s0 True by simp
      have l: "(- 129 :: int) < 32" by simp
      show ?thesis
        using r t1[symmetric] f qnnpack_shift_at_infinity[OF a o] l e by blast
    next
      assume "\<exists>w'. fmul64 (Finite w) (Finite 10) = Finite w' \<and> 5 * w \<le> w' \<and> tiny64 \<le> w' \<and> w' < pow2 1024"
      then obtain w1 where w1: "fmul64 (Finite w) (Finite 10) = Finite w1" "5 * w \<le> w1"
        "tiny64 \<le> w1" "w1 < pow2 1024" by blast
      have m: "nat \<lfloor>pow2 1100 / w1\<rfloor> < nat \<lfloor>pow2 1100 / w\<rfloor>"
        by (rule measure_decreases[OF wpos less.prems(2) w1(2)])
      from less.IH[OF m w1(3,4)] obtain w' k s where
        ih: "rescale_weight_scale_for_qnnpack NumPy_1 (Finite a) (Finite w1) (Finite o') = Some (Inr w')"
          "w' = times_ten k (Finite w1)" "fle (Finite w1) w'"
          "qnnpack_shift NumPy_1 (Finite a) w' (Finite o') = Inr s" "s < 32"
          "\<forall>i<k. \<exists>t. qnnpack_shift NumPy_1 (Finite a) (times_ten i (Finite w1)) (Finite o') = Inr t \<and> 32 \<le> t"
        by blast
      have r: "rescale_weight_scale_for_qnnpack NumPy_1 (Finite a) (Finite w) (Finite o') = Some (Inr w')"
        by (simp only: unfold w1(1) ih(1))
      have tk: "w' = times_ten (Suc k) (Finite w)"
        by (simp only: times_ten_Suc w1(1) ih(2))
      have "w \<le> w1" using w1(2) wpos by linarith
      then have mono: "fle (Finite w) w'"
        using ih(3) by (cases w') auto
      have early: "\<forall>i<Suc k. \<exists>t. qnnpack_shift NumPy_1 (Finite a) (times_ten i (Finite w)) (Finite o') = Inr t \<and> 32 \<le> t"
      proof (intro allI impI)
        fix i assume i: "i < Suc k"
        show "\<exists>t. qnnpack_shift NumPy_1 (Finite a) (times_ten i (Finite w)) (Finite o') = Inr t \<and> 32 \<le> t"
        proof (cases i)
          case 0
          then show ?thesis using s0 True by simp
        next
          case (Suc j)
          then have "j < k" using i by simp
          then show ?thesis using ih(6) by (simp only: Suc times_ten_Suc w1(1))
        qed
      qed
      show ?thesis
        using r tk mono ih(4,5) early by blast
    qed
  qed
qed

section \<open>The loop when the subtraction wraps around\<close>

lemma round_format_finite_bound:
  assumes "0 < x" "round_format p emin emax x = Finite r"
  shows "r < pow2 (emax + 1)"
  using assms(2) unfolding round_format_pos_unfold[OF assms(1)] Let_def
  by (auto split: if_splits)

lemma round_format_one:
  assumes "1 \<le> p" "emin \<le> 0" "0 \<le> emax"
  shows "round_format p emin emax 1 = Finite 1"
proof -
  have "pow2 0 \<le> 1" by (simp add: pow2_def)
  then have "0 \<le> flog2 1" by (rule flog2_ge)
  moreover have "flog2 1 < 1" by (rule flog2_less) (simp_all add: pow2_def)
  ultimately have f: "flog2 1 = 0" by simp
  have m: "max (flog2 1) emin = 0" using assms(2) by (simp add: f)
  have "pow2 (p - 1) * pow2 (0 - (p - 1)) = pow2 0" by (simp add: pow2_add[symmetric])
  moreover have "pow2 (p - 1) = of_int (2 ^ nat (p - 1))" using assms(1) by (simp add: pow2_def)
  ultimately have m1: "(1::rat) = of_int (2 ^ nat (p - 1)) * pow2 (max (flog2 1) emin - (p - 1))"
    by (simp add: m pow2_def)
  have b: "(1::rat) < pow2 (emax + 1)"
    using pow2_less_iff[of 0 "emax + 1"] assms(3) by (simp add: pow2_def)
  show ?thesis by (rule round_format_exact(1)[OF zero_less_one m1 b])
qed

text \<open>The exponent field of a number that is at least 1 is at least 127, and the shift
  computed from it in 32-bit unsigned arithmetic is far above 32.\<close>

lemma fp32_sign_exponent_ge_one:
  assumes "1 \<le> x"
  shows "127 \<le> fp32_sign_exponent (Finite x) \<and> fp32_sign_exponent (Finite x) \<le> 255"
proof -
  have x: "0 < x" using assms by linarith
  have one: "round_format 24 (- 126) 127 1 = Finite 1" by (rule round_format_one) simp_all
  have p24: "(1::int) \<le> 24" by simp
  from round_format_ge[OF zero_less_one one assms p24] show ?thesis
  proof
    assume "round_format 24 (- 126) 127 x = PosInf"
    then show ?thesis by (simp add: fp32_sign_exponent_def round32_def)
  next
    assume "\<exists>r. round_format 24 (- 126) 127 x = Finite r \<and> 1 \<le> r"
    then obtain r where r: "round_format 24 (- 126) 127 x = Finite r" "1 \<le> r" by blast
    have r0: "0 < r" using r(2) by linarith
    have "pow2 0 \<le> r" using r(2) by (simp add: pow2_def)
    then have lo: "0 \<le> flog2 r" by (rule flog2_ge)
    have "r < pow2 (127 + 1)" by (rule round_format_finite_bound[OF x r(1)])
    then have hi: "flog2 r < 128" using flog2_less[OF r0] by simp
    have "pow2 (- 126) \<le> pow2 0" by (rule pow2_mono) simp
    then have "\<not> r < pow2 (- 126)" using r(2) by (simp add: pow2_def)
    then have "fp32_sign_exponent (Finite x) = flog2 r + 127"
      using r0 by (simp add: fp32_sign_exponent_def round32_def r(1) abs_if)
    then show ?thesis using lo hi by simp
  qed
qed

lemma shift_of_wraps:
  assumes "127 \<le> e" "e \<le> 255"
  shows "32 \<le> shift_of NumPy_2 e"
proof -
  have "(126 - e) mod 4294967296 = (126 - e + 4294967296) mod 4294967296"
    by (simp only: mod_add_self2)
  also have "\<dots> = 126 - e + 4294967296"
    using assms by (intro mod_pos_pos_trivial) simp_all
  finally have "(126 - e) mod 4294967296 = 126 - e + 4294967296" .
  then show ?thesis using assms by (simp add: shift_of_def)
qed

lemma above_one_iff:
  "above_one a o' w = (w = PosInf \<or> (\<exists>q. w = Finite q \<and> tiny64 \<le> q \<and> o' \<le> a * q))"
  by (cases w) simp_all

lemma above_one_shift:
  assumes a: "0 < a" and o: "positive_double o'" and w: "above_one a o' w"
  shows "\<exists>s. qnnpack_shift NumPy_2 (Finite a) w (Finite o') = Inr s \<and> 32 \<le> s"
proof -
  have o0: "0 < o'" and orep: "round_format 53 (- 1022) 1023 o' = Finite o'"
    using o by (simp_all add: positive_double_def round64_def)
  have inf: "\<exists>s. shift_of NumPy_2 (fp32_sign_exponent PosInf) = s \<and> 32 \<le> s"
    using shift_of_wraps[of 255] by simp
  have one: "round_format 53 (- 1022) 1023 1 = Finite 1" by (rule round_format_one) simp_all
  have p53: "(1::int) \<le> 53" by simp
  from w show ?thesis unfolding above_one_iff
  proof
    assume "w = PosInf"
    then show ?thesis
      using inf by (simp add: qnnpack_shift_def Let_def product_at_infinity[OF a o0])
  next
    assume "\<exists>q. w = Finite q \<and> tiny64 \<le> q \<and> o' \<le> a * q"
    then obtain q where q: "w = Finite q" "tiny64 \<le> q" "o' \<le> a * q" by blast
    have "0 < tiny64" by (simp add: tiny64_def)
    then have q0: "0 < q" using q(2) by linarith
    have p: "fmul64 (Finite a) (Finite q) = round64 (a * q)"
      using a q0 by (simp add: fmul64_def ieee_mul_def)
    from round_format_ge[OF o0 orep q(3) p53] show ?thesis
    proof
      assume "round_format 53 (- 1022) 1023 (a * q) = PosInf"
      then have "fmul64 (Finite a) w = PosInf" by (simp add: q(1) p round64_def)
      then show ?thesis
        using inf by (simp add: qnnpack_shift_def Let_def product_at_infinity(2)[OF a o0])
    next
      assume "\<exists>r. round_format 53 (- 1022) 1023 (a * q) = Finite r \<and> o' \<le> r"
      then obtain r where r: "round_format 53 (- 1022) 1023 (a * q) = Finite r" "o' \<le> r" by blast
      have r0: "0 < r" using r(2) o0 by linarith
      have pr: "fmul64 (Finite a) w = Finite r" by (simp add: q(1) p round64_def r(1))
      have d: "fdiv64 (Finite r) (Finite o') = Inr (round64 (r / o'))"
        using r0 o0 by (simp add: fdiv64_def ieee_div_def)
      have ge1: "1 \<le> r / o'" using r(2) o0 by (simp add: pos_le_divide_eq)
      from round_format_ge[OF zero_less_one one ge1 p53] show ?thesis
      proof
        assume "round_format 53 (- 1022) 1023 (r / o') = PosInf"
        then show ?thesis
          using inf by (simp add: qnnpack_shift_def Let_def pr d round64_def)
      next
        assume "\<exists>m. round_format 53 (- 1022) 1023 (r / o') = Finite m \<and> 1 \<le> m"
        then obtain m where m: "round_format 53 (- 1022) 1023 (r / o') = Finite m" "1 \<le> m"
          by blast
        have "32 \<le> shift_of NumPy_2 (fp32_sign_exponent (Finite m))"
          using fp32_sign_exponent_ge_one[OF m(2)] by (intro shift_of_wraps) simp_all
        then show ?thesis
          by (simp add: qnnpack_shift_def Let_def pr d round64_def m(1))
      qed
    qed
  qed
qed

lemma above_one_step:
  assumes a: "0 < a" and w: "above_one a o' w"
  shows "above_one a o' (fmul64 w (Finite 10))"
  using w unfolding above_one_iff
proof
  assume "w = PosInf"
  then show "fmul64 w (Finite 10) = PosInf
     \<or> (\<exists>q. fmul64 w (Finite 10) = Finite q \<and> tiny64 \<le> q \<and> o' \<le> a * q)"
    by (simp add: fmul64_def ieee_mul_def inf_of_def)
next
  assume "\<exists>q. w = Finite q \<and> tiny64 \<le> q \<and> o' \<le> a * q"
  then obtain q where q: "w = Finite q" "tiny64 \<le> q" "o' \<le> a * q" by blast
  have "0 < tiny64" by (simp add: tiny64_def)
  then have q0: "0 < q" using q(2) by linarith
  from times_ten_step[OF q(2)]
  show "fmul64 w (Finite 10) = PosInf
     \<or> (\<exists>q. fmul64 w (Finite 10) = Finite q \<and> tiny64 \<le> q \<and> o' \<le> a * q)"
  proof
    assume "fmul64 (Finite q) (Finite 10) = PosInf"
    then show ?thesis by (simp add: q(1))
  next
    assume "\<exists>w'. fmul64 (Finite q) (Finite 10) = Finite w' \<and> 5 * q \<le> w' \<and> tiny64 \<le> w'
      \<and> w' < pow2 1024"
    then obtain w' where w': "fmul64 (Finite q) (Finite 10) = Finite w'" "5 * q \<le> w'"
      "tiny64 \<le> w'" by blast
    have "q \<le> w'" using w'(2) q0 by linarith
    then have "a * q \<le> a * w'" using a by (simp add: mult_left_mono)
    then have "o' \<le> a * w'" using q(3) by linarith
    then show ?thesis using w'(1,3) by (simp add: q(1))
  qed
qed

text \<open>With the subtraction of NumPy 2 the loop never ends once the input scale times the
  weight scale has reached the output scale.\<close>

lemma rescale_never_returns:
  assumes a: "0 < a" and o: "positive_double o'" and w: "above_one a o' w"
  shows "rescale_weight_scale_for_qnnpack NumPy_2 (Finite a) w (Finite o') = None"
proof -
  have "\<not> (numpy = NumPy_2 \<and> i = Finite a \<and> o2 = Finite o' \<and> above_one a o' w)"
    if r: "rescale_weight_scale_for_qnnpack numpy i w o2 = Some y" for numpy i w o2 y
  proof (rule rescale_weight_scale_for_qnnpack.raw_induct[
      where P = "\<lambda>numpy i w o2 y. \<not> (numpy = NumPy_2 \<and> i = Finite a \<and> o2 = Finite o' \<and> above_one a o' w)",
      OF _ r])
    fix rescale numpy i w o2 y
    assume ih: "\<And>numpy i w o2 y. rescale numpy i w o2 = Some y \<Longrightarrow>
        \<not> (numpy = NumPy_2 \<and> i = Finite a \<and> o2 = Finite o' \<and> above_one a o' w)"
      and body: "(case qnnpack_shift numpy i w o2 of
          Inl e \<Rightarrow> Some (Inl e)
        | Inr shift \<Rightarrow> if 32 \<le> shift then rescale numpy i (fmul64 w (Finite 10)) o2
                       else Some (Inr w)) = Some y"
    show "\<not> (numpy = NumPy_2 \<and> i = Finite a \<and> o2 = Finite o' \<and> above_one a o' w)"
    proof
      assume h: "numpy = NumPy_2 \<and> i = Finite a \<and> o2 = Finite o' \<and> above_one a o' w"
      then obtain s where s: "qnnpack_shift NumPy_2 (Finite a) w (Finite o') = Inr s" "32 \<le> s"
        using above_one_shift[OF a o] by blast
      have "rescale NumPy_2 (Finite a) (fmul64 w (Finite 10)) (Finite o') = Some y"
        using body h by (simp only: s sum.case if_True)
      from ih[OF this] show False
        using above_one_step[OF a] h by simp
    qed
  qed
  then have ne: "rescale_weight_scale_for_qnnpack NumPy_2 (Finite a) w (Finite o') \<noteq> Some y" for y
    using w by blast
  show ?thesis
  proof (cases "rescale_weight_scale_for_qnnpack NumPy_2 (Finite a) w (Finite o')")
    case None
    then show ?thesis .
  next
    case (Some y)
    then show ?thesis using ne[of y] by simp
  qed
qed

lemma example_scales_are_doubles:
  "positive_double example_input_scale" "positive_double example_weight_scale" "positive_double 1"
  by (code_simp, code_simp, code_simp)

lemma example_first_product:
  "fmul64 (Finite example_weight_scale) (Finite 10) = Finite example_weight_once"
  by code_simp

lemma example_second_product:
  "fmul64 (Finite example_weight_once) (Finite 10) = Finite example_rescaled"
  by code_simp

lemma example_shifts:
  "qnnpack_shift NumPy_1 (Finite example_input_scale) (Finite example_weight_scale) (Finite 1) = Inr 38"
  "qnnpack_shift NumPy_1 (Finite example_input_scale) (Finite example_weight_once) (Finite 1) = Inr 34"
  "qnnpack_shift NumPy_1 (Finite example_input_scale) (Finite example_rescaled) (Finite 1) = Inr 31"
  by (code_simp, code_simp, code_simp)

lemma example_run:
  "rescale_weight_scale_for_qnnpack NumPy_1 (Finite example_input_scale) (Finite example_weight_scale) (Finite 1)
     = Some (Inr (Finite example_rescaled))"
proof -
  have "rescale_weight_scale_for_qnnpack NumPy_1 (Finite example_input_scale) (Finite example_rescaled) (Finite 1)
     = Some (Inr (Finite example_rescaled))"
    by (subst rescale_weight_scale_for_qnnpack.simps) (simp add: example_shifts(3))
  then have "rescale_weight_scale_for_qnnpack NumPy_1 (Finite example_input_scale) (Finite example_weight_once) (Finite 1)
     = Some (Inr (Finite example_rescaled))"
    by (subst rescale_weight_scale_for_qnnpack.simps)
       (simp add: example_shifts(2) example_second_product )
  then show ?thesis
    by (subst rescale_weight_scale_for_qnnpack.simps)
       (simp add: example_shifts(1) example_first_product )
qed




text \<open>
  Claim C2, as amended. When the shift is computed in 64-bit integers, as NumPy before
  version 2 computes it, then for positive binary64 scales of the input, weight and
  output tensors \<open>rescale_weight_scale_for_qnnpack\<close> terminates without an error. The
  weight scale it leaves is the original one multiplied by 10 some \<open>k \<ge> 0\<close> times, each
  product rounded to binary64 (an overflow gives infinity); it is not less than the
  original; the shift computed from it is below 32, and the shift was 32 or more at each
  of the \<open>k\<close> earlier scales.
\<close>

theorem rescale_weight_scale_terminates:
  assumes "positive_double a" "positive_double w" "positive_double o'"
  shows "\<exists>w' k s.
      rescale_weight_scale_for_qnnpack NumPy_1 (Finite a) (Finite w) (Finite o') = Some (Inr w')
    \<and> w' = times_ten k (Finite w)
    \<and> fle (Finite w) w'
    \<and> qnnpack_shift NumPy_1 (Finite a) w' (Finite o') = Inr s \<and> s < 32
    \<and> (\<forall>i<k. \<exists>t. qnnpack_shift NumPy_1 (Finite a) (times_ten i (Finite w)) (Finite o') = Inr t \<and> 32 \<le> t)"
proof -
  have a: "0 < a" and o: "0 < o'" using assms(1,3) by (simp_all add: positive_double_def)
  show ?thesis
    by (rule rescale_from[OF a o positive_double_range[OF assms(2)]])
qed

theorem rescale_weight_scale_terminates_witness:
  "\<exists>w' k s.
      rescale_weight_scale_for_qnnpack NumPy_1 (Finite example_input_scale) (Finite example_weight_scale) (Finite 1)
        = Some (Inr w')
    \<and> w' = times_ten k (Finite example_weight_scale)
    \<and> fle (Finite example_weight_scale) w'
    \<and> qnnpack_shift NumPy_1 (Finite example_input_scale) w' (Finite 1) = Inr s \<and> s < 32"
  using rescale_weight_scale_terminates[OF example_scales_are_doubles]
  by blast

lemma example_not_a_power_of_ten: "example_rescaled \<noteq> example_weight_scale * 10 ^ k"
proof -
  consider "k = 0" | "k = 1" | "k = 2" | "3 \<le> k" by linarith
  then show ?thesis
  proof cases
    case 4
    have "(10::rat) ^ 3 \<le> 10 ^ k" using 4 by (intro power_increasing) simp_all
    then have "example_weight_scale * 10 ^ 3 \<le> example_weight_scale * 10 ^ k"
      by (intro mult_left_mono) (simp_all add: example_weight_scale_def)
    moreover have "example_rescaled < example_weight_scale * 10 ^ 3"
      by (simp add: example_rescaled_def example_weight_scale_def)
    ultimately show ?thesis by linarith
  qed (simp_all add: example_rescaled_def example_weight_scale_def)
qed

lemma example_small_roundings:
  "round64 (example_weight_scale * 10 ^ 0) \<noteq> Finite example_rescaled"
  "round64 (example_weight_scale * 10 ^ 1) \<noteq> Finite example_rescaled"
  "round64 (example_weight_scale * 10 ^ 2) \<noteq> Finite example_rescaled"
  by (code_simp, code_simp, code_simp)

lemma example_not_a_rounded_power_of_ten:
  "round64 (example_weight_scale * 10 ^ k) \<noteq> Finite example_rescaled"
proof -
  consider "k = 0" | "k = 1" | "k = 2" | "3 \<le> k" by linarith
  then show ?thesis
  proof cases
    case 1
    then show ?thesis using example_small_roundings(1) by simp
  next
    case 2
    then show ?thesis using example_small_roundings(2) by simp
  next
    case 3
    then show ?thesis using example_small_roundings(3) by simp
  next
    case 4
    have "(10::rat) ^ 3 \<le> 10 ^ k" using 4 by (intro power_increasing) simp_all
    then have big: "example_weight_scale * 10 ^ 3 \<le> example_weight_scale * 10 ^ k"
      by (intro mult_left_mono) (simp_all add: example_weight_scale_def)
    have "tiny64 \<le> 1" using pow2_mono[of "- 1074" 0] by (simp add: tiny64_def pow2_def)
    moreover have "1 \<le> example_weight_scale * 10 ^ 3" by (simp add: example_weight_scale_def)
    ultimately have t: "tiny64 \<le> example_weight_scale * 10 ^ k" using big by linarith
    have lt: "example_rescaled < example_weight_scale * 10 ^ 3 / 2"
      by (simp add: example_rescaled_def example_weight_scale_def)
    from round64_positive[OF t] show ?thesis
    proof
      assume "round64 (example_weight_scale * 10 ^ k) = PosInf"
      then show ?thesis by simp
    next
      assume "\<exists>r. round64 (example_weight_scale * 10 ^ k) = Finite r
          \<and> example_weight_scale * 10 ^ k / 2 \<le> r \<and> tiny64 \<le> r \<and> r < pow2 1024"
      then obtain r where r: "round64 (example_weight_scale * 10 ^ k) = Finite r"
        "example_weight_scale * 10 ^ k / 2 \<le> r" by blast
      have "example_rescaled < r" using lt big r(2) by linarith
      then show ?thesis using r(1) by simp
    qed
  qed
qed

lemma one_is_above_one: "above_one 1 1 (Finite 1)"
proof -
  have "tiny64 \<le> pow2 0" unfolding tiny64_def by (rule pow2_mono) simp
  then show ?thesis by (simp add: pow2_def)
qed

lemma example_never_returns:
  "rescale_weight_scale_for_qnnpack NumPy_2 (Finite 1) (Finite 1) (Finite 1) = None"
  by (rule rescale_never_returns[OF zero_less_one example_scales_are_doubles(3) one_is_above_one])

text \<open>
  Claim C2 as stated fails twice. The scale is not the original scale times \<open>10^k\<close>: for
  the scales \<open>2^-36\<close>, \<open>0.22370578656782822\<close> and \<open>1\<close> (and the subtraction of NumPy 1) the
  loop multiplies twice and leaves \<open>22.37057865678282\<close>, which is neither the original
  scale times a power of ten nor the binary64 number nearest to such a product, because
  each of the two products is rounded. And the call does not always terminate: with the
  subtraction of NumPy 2, which wraps around, it never returns for the scales 1, 1 and 1.
\<close>

theorem rescale_weight_scale_counterexample:
  "positive_double example_input_scale \<and> positive_double example_weight_scale \<and> positive_double 1
   \<and> rescale_weight_scale_for_qnnpack NumPy_1 (Finite example_input_scale) (Finite example_weight_scale) (Finite 1)
       = Some (Inr (Finite example_rescaled))
   \<and> (\<forall>k. example_rescaled \<noteq> example_weight_scale * 10 ^ k)
   \<and> (\<forall>k. round64 (example_weight_scale * 10 ^ k) \<noteq> Finite example_rescaled)
   \<and> rescale_weight_scale_for_qnnpack NumPy_2 (Finite 1) (Finite 1) (Finite 1) = None"
  using example_scales_are_doubles example_run example_not_a_power_of_ten
    example_not_a_rounded_power_of_ten example_never_returns
  by blast

end
